(* ===== verification/Prelude.thy ===== *)
theory Prelude
  imports Main "HOL-Library.AList"
begin

text \<open>
  Shared vocabulary of the Intcode development: the Python dictionary as an
  association list with distinct keys, the exceptions the interpreter raises, the
  propagation of an exception through a sequence of statements (\<open>bind_err\<close>), and
  the generic lemmas on association lists that the component theories share.
\<close>

named_theorems intcode_simps "rules that evaluate the Intcode model on concrete programs"

text \<open>
  A Python \<open>dict\<close> keyed by integers, in insertion order; \<open>AList.update\<close> replaces
  a present key in place and appends a new one at the end, as \<open>d[k] = v\<close> does.
\<close>

type_synonym 'v dict = "(int \<times> 'v) list"

text \<open>
  The exceptions of the interpreters: a subscript \<open>d[k]\<close> of a missing key raises
  \<open>KeyError\<close>, an opcode outside the size table and a parameter mode outside
  0, 1, 2 raise \<open>ValueError\<close> with the two messages of the source, a list
  subscript out of range raises \<open>IndexError\<close>, and \<open>input()\<close> at the end of
  standard input raises \<open>EOFError\<close>.
\<close>

datatype error =
    KeyError int
  | InvalidOpcode int
  | UnsupportedMode int
  | IndexError int
  | EOFError

definition bind_err :: "'e + 'a \<Rightarrow> ('a \<Rightarrow> 'e + 'b) \<Rightarrow> 'e + 'b" where
  "bind_err x f = (case x of Inl e \<Rightarrow> Inl e | Inr v \<Rightarrow> f v)"

text \<open>
  Python list subscripts: an index \<open>-len \<le> i < 0\<close> counts from the end, any other
  index outside \<open>0 \<le> i < len\<close> raises \<open>IndexError\<close>; item assignment never
  changes the length.
\<close>

definition py_index :: "'a list \<Rightarrow> int \<Rightarrow> error + nat" where
  "py_index xs i =
     (if 0 \<le> i \<and> i < int (length xs) then Inr (nat i)
      else if - int (length xs) \<le> i \<and> i < 0 then Inr (nat (int (length xs) + i))
      else Inl (IndexError i))"

definition py_get :: "'a list \<Rightarrow> int \<Rightarrow> error + 'a" where
  "py_get xs i = bind_err (py_index xs i) (\<lambda>k. Inr (xs ! k))"

definition py_set :: "'a list \<Rightarrow> int \<Rightarrow> 'a \<Rightarrow> error + 'a list" where
  "py_set xs i v = bind_err (py_index xs i) (\<lambda>k. Inr (xs[k := v]))"

lemma bind_err_Inl [simp, intcode_simps]: "bind_err (Inl e) f = Inl e"
  by (simp add: bind_err_def)

lemma bind_err_Inr [simp, intcode_simps]: "bind_err (Inr v) f = f v"
  by (simp add: bind_err_def)

lemma bind_err_eq_Inr:
  "bind_err x f = Inr r \<longleftrightarrow> (\<exists>v. x = Inr v \<and> f v = Inr r)"
  by (cases x) auto

lemma bind_err_eq_Inl:
  "bind_err x f = Inl e \<longleftrightarrow> x = Inl e \<or> (\<exists>v. x = Inr v \<and> f v = Inl e)"
  by (cases x) auto

subsection \<open>Python lists\<close>

lemma py_index_lt:
  "py_index xs i = Inr k \<Longrightarrow> k < length xs"
  by (auto simp: py_index_def split: if_splits)

lemma py_index_nonneg [simp]:
  "0 \<le> i \<Longrightarrow> i < int (length xs) \<Longrightarrow> py_index xs i = Inr (nat i)"
  by (simp add: py_index_def)

lemma py_set_length:
  "py_set xs i v = Inr ys \<Longrightarrow> length ys = length xs"
  by (auto simp: py_set_def bind_err_eq_Inr)

lemma py_get_nonneg [simp]:
  "0 \<le> i \<Longrightarrow> i < int (length xs) \<Longrightarrow> py_get xs i = Inr (xs ! nat i)"
  by (simp add: py_get_def)

lemma py_set_nonneg [simp]:
  "0 \<le> i \<Longrightarrow> i < int (length xs) \<Longrightarrow> py_set xs i v = Inr (xs[nat i := v])"
  by (simp add: py_set_def)

subsection \<open>Association lists as dictionaries\<close>

lemma length_update_alist:
  "length (AList.update k v al) =
     (if k \<in> fst ` set al then length al else Suc (length al))"
  by (induction al) auto

lemma map_of_update_alist [simp]:
  "map_of (AList.update k v al) a = (if a = k then Some v else map_of al a)"
  by (simp add: update_conv')

lemma keys_update_alist [simp]:
  "fst ` set (AList.update k v al) = insert k (fst ` set al)"
  by (simp add: dom_update)

lemma map_of_zip_upt:
  "i < length xs \<Longrightarrow> map_of (zip (map int [0..<length xs]) xs) (int i) = Some (xs ! i)"
proof -
  assume i: "i < length xs"
  have d: "distinct (map int [0..<length xs])"
    by (simp add: distinct_map inj_on_def)
  have "zip (map int [0..<length xs]) xs ! i \<in> set (zip (map int [0..<length xs]) xs)"
    using i by (intro nth_mem) simp
  then have "(map int [0..<length xs] ! i, xs ! i) \<in> set (zip (map int [0..<length xs]) xs)"
    using i by simp
  then have "map_of (zip (map int [0..<length xs]) xs) (map int [0..<length xs] ! i) = Some (xs ! i)"
    using d by (simp add: map_of_is_SomeI)
  then show ?thesis using i by simp
qed

lemma map_of_zip_upt_None:
  "(a < 0 \<or> int (length xs) \<le> a) \<Longrightarrow> map_of (zip (map int [0..<length xs]) xs) a = None"
  by (auto simp: map_of_eq_None_iff set_zip)

end
