(* ===== verification/Memory.thy ===== *)
theory Memory
  imports Prelude
begin

text \<open>
  The memory of one \<open>IntcodeComputer\<close> (src/day-09.py, lines 41 and 50--54; the
  same code is in src/day-11.py and src/day-13.py): a dictionary from addresses to
  values, built from the program list, read with a default of 0 by
  \<open>__read_memory\<close>, written by \<open>__write_memory\<close>, and subscripted directly (with
  \<open>KeyError\<close> on a missing key) when an instruction word is fetched. Its
  well-formedness invariant is that the keys are distinct, so that \<open>len\<close> of the
  dictionary is the length of the list.
\<close>

type_synonym memory = "int dict"

definition init_memory :: "int list \<Rightarrow> memory" where
  "init_memory xs = zip (map int [0..<length xs]) xs"

definition read_memory :: "memory \<Rightarrow> int \<Rightarrow> int" where
  "read_memory m address = (case map_of m address of Some v \<Rightarrow> v | None \<Rightarrow> 0)"

definition write_memory :: "memory \<Rightarrow> int \<Rightarrow> int \<Rightarrow> memory" where
  "write_memory m address value = AList.update address value m"

text \<open>\<open>self.__memory[k]\<close>: the subscript without default.\<close>

definition mem_get :: "memory \<Rightarrow> int \<Rightarrow> error + int" where
  "mem_get m k = (case map_of m k of Some v \<Rightarrow> Inr v | None \<Rightarrow> Inl (KeyError k))"

text \<open>\<open>len(self.__memory)\<close>: the number of keys.\<close>

definition mem_len :: "memory \<Rightarrow> nat" where
  "mem_len m = length m"

definition wf_memory :: "memory \<Rightarrow> bool" where
  "wf_memory m \<longleftrightarrow> distinct (map fst m)"

definition mem_keys :: "memory \<Rightarrow> int set" where
  "mem_keys m = fst ` set m"

subsection \<open>Reads after writes\<close>

lemma read_write_memory [simp]:
  "read_memory (write_memory m a v) b = (if b = a then v else read_memory m b)"
  by (simp add: read_memory_def write_memory_def)

lemma mem_get_write_memory [simp]:
  "mem_get (write_memory m a v) b = (if b = a then Inr v else mem_get m b)"
  by (simp add: mem_get_def write_memory_def)

lemma mem_get_read_memory:
  "mem_get m k = Inr v \<Longrightarrow> read_memory m k = v"
  by (simp add: mem_get_def read_memory_def split: option.splits)

lemma mem_get_Inr_iff:
  "mem_get m k = Inr v \<longleftrightarrow> map_of m k = Some v"
  by (simp add: mem_get_def split: option.splits)

lemma mem_get_Inl_iff:
  "mem_get m k = Inl e \<longleftrightarrow> map_of m k = None \<and> e = KeyError k"
  by (auto simp: mem_get_def split: option.splits)

lemma read_memory_absent:
  "k \<notin> mem_keys m \<Longrightarrow> read_memory m k = 0"
  by (force simp: read_memory_def mem_keys_def split: option.split dest: map_of_SomeD)

subsection \<open>The key set and the length\<close>

lemma mem_keys_write_memory [simp]:
  "mem_keys (write_memory m a v) = insert a (mem_keys m)"
  by (simp add: mem_keys_def write_memory_def)

lemma wf_write_memory [intro]:
  "wf_memory m \<Longrightarrow> wf_memory (write_memory m a v)"
  by (simp add: wf_memory_def write_memory_def distinct_update)

lemma mem_len_keys:
  "wf_memory m \<Longrightarrow> mem_len m = card (mem_keys m)"
  unfolding wf_memory_def mem_len_def mem_keys_def
  by (metis distinct_card length_map set_map)

lemma mem_len_write_memory:
  "mem_len (write_memory m a v) = (if a \<in> mem_keys m then mem_len m else Suc (mem_len m))"
  by (simp add: mem_len_def write_memory_def mem_keys_def length_update_alist)

lemma mem_len_write_mono:
  "mem_len m \<le> mem_len (write_memory m a v)"
  by (simp add: mem_len_write_memory)

subsection \<open>The initial memory\<close>

lemma wf_init_memory [intro]: "wf_memory (init_memory xs)"
  by (simp add: wf_memory_def init_memory_def distinct_map inj_on_def)

lemma mem_len_init_memory [simp]: "mem_len (init_memory xs) = length xs"
  by (simp add: mem_len_def init_memory_def)

lemma mem_get_init_memory:
  "mem_get (init_memory xs) k =
     (if 0 \<le> k \<and> k < int (length xs) then Inr (xs ! nat k) else Inl (KeyError k))"
proof (cases "0 \<le> k \<and> k < int (length xs)")
  case True
  then obtain i where k: "k = int i" and i: "i < length xs"
    by (metis nat_eq_iff nat_less_iff)
  then show ?thesis
    by (simp add: mem_get_def init_memory_def map_of_zip_upt)
next
  case False
  then show ?thesis
    by (auto simp: mem_get_def init_memory_def map_of_zip_upt_None)
qed

lemma mem_keys_init_memory: "mem_keys (init_memory xs) = {0..<int (length xs)}"
proof -
  have e: "map fst (zip (map int [0..<length xs]) xs) = map int [0..<length xs]"
    by simp
  have "mem_keys (init_memory xs) = set (map fst (zip (map int [0..<length xs]) xs))"
    by (simp only: mem_keys_def init_memory_def set_map)
  also have "\<dots> = int ` {0..<length xs}"
    by (simp only: e set_map set_upt)
  also have "\<dots> = {0..<int (length xs)}"
    by (simp add: image_int_atLeastLessThan)
  finally show ?thesis .
qed

subsection \<open>The dictionary's contract\<close>

text \<open>A write followed by a read of the same address returns the written value,
  leaves every other address as it was, keeps the keys distinct, and makes
  \<open>len(memory)\<close> the number of addresses written or loaded.\<close>

theorem memory_roundtrip:
  assumes "wf_memory m"
  shows "read_memory (write_memory m a v) a = v
       \<and> (\<forall>b. b \<noteq> a \<longrightarrow> read_memory (write_memory m a v) b = read_memory m b)
       \<and> wf_memory (write_memory m a v)
       \<and> mem_len (write_memory m a v) = card (insert a (mem_keys m))"
proof -
  have wf: "wf_memory (write_memory m a v)" using assms by (rule wf_write_memory)
  then have "mem_len (write_memory m a v) = card (insert a (mem_keys m))"
    by (simp add: mem_len_keys)
  with wf show ?thesis by simp
qed

theorem memory_roundtrip_witness:
  "wf_memory (init_memory [7, 8])
   \<and> read_memory (write_memory (init_memory [7, 8]) 5 9) 5 = 9
   \<and> read_memory (write_memory (init_memory [7, 8]) 5 9) 1 = read_memory (init_memory [7, 8]) 1
   \<and> mem_len (write_memory (init_memory [7, 8]) 5 9) = card (insert 5 (mem_keys (init_memory [7, 8])))"
  using memory_roundtrip [OF wf_init_memory, of "[7, 8]" 5 9] wf_init_memory [of "[7, 8]"]
  by simp

text \<open>The memory loaded from a program holds the program at addresses
  \<open>0 \<dots> length - 1\<close> and reads as 0 at every other address, negative ones
  included.\<close>

theorem init_memory_reads:
  "read_memory (init_memory xs) k = (if 0 \<le> k \<and> k < int (length xs) then xs ! nat k else 0)"
proof (cases "0 \<le> k \<and> k < int (length xs)")
  case True
  then have "mem_get (init_memory xs) k = Inr (xs ! nat k)" by (simp add: mem_get_init_memory)
  with True show ?thesis by (simp add: mem_get_read_memory)
next
  case False
  then have "k \<notin> mem_keys (init_memory xs)" by (simp add: mem_keys_init_memory)
  then have "read_memory (init_memory xs) k = 0" by (rule read_memory_absent)
  with False show ?thesis by auto
qed

end
