(* ===== verification/Decoder.thy ===== *)
theory Decoder
  imports Memory
begin

text \<open>
  The decoder of \<open>IntcodeComputer.__run_program\<close> (src/day-09.py, lines 10--36 and
  82--93): the opcode constants and the \<open>OPCODE_TO_INST_SIZE\<close> table, the
  parameter modes, and the fetch of the instruction word and of its operand words.
  The opcode is the word modulo 100; the operand words are
  \<open>memory[i + 1] \<dots> memory[i + size - 1]\<close>, fetched by subscript (a missing key
  raises \<open>KeyError\<close>); the mode of the \<open>j\<close>-th parameter is the \<open>j\<close>-th decimal
  digit of \<open>word // 100\<close>, least significant first. Python's \<open>%\<close> and \<open>//\<close>
  round towards minus infinity, as HOL's \<open>mod\<close> and \<open>div\<close> on \<open>int\<close> do.
\<close>

abbreviation (input) ADD :: int where "ADD \<equiv> 1"
abbreviation (input) MULTIPLY :: int where "MULTIPLY \<equiv> 2"
abbreviation (input) INPUT :: int where "INPUT \<equiv> 3"
abbreviation (input) OUTPUT :: int where "OUTPUT \<equiv> 4"
abbreviation (input) JUMP_IF_TRUE :: int where "JUMP_IF_TRUE \<equiv> 5"
abbreviation (input) JUMP_IF_FALSE :: int where "JUMP_IF_FALSE \<equiv> 6"
abbreviation (input) LESS_THAN :: int where "LESS_THAN \<equiv> 7"
abbreviation (input) EQUAL_TO :: int where "EQUAL_TO \<equiv> 8"
abbreviation (input) ADJUST_REL_BASE :: int where "ADJUST_REL_BASE \<equiv> 9"
abbreviation (input) HALT :: int where "HALT \<equiv> 99"

definition OPCODE_TO_INST_SIZE :: "(int \<times> nat) list" where
  "OPCODE_TO_INST_SIZE =
     [(ADD, 4), (MULTIPLY, 4), (INPUT, 2), (OUTPUT, 2), (JUMP_IF_TRUE, 3),
      (JUMP_IF_FALSE, 3), (LESS_THAN, 4), (EQUAL_TO, 4), (ADJUST_REL_BASE, 2), (HALT, 1)]"

abbreviation (input) POSITION_MODE :: int where "POSITION_MODE \<equiv> 0"
abbreviation (input) IMMEDIATE_MODE :: int where "IMMEDIATE_MODE \<equiv> 1"
abbreviation (input) RELATIVE_MODE :: int where "RELATIVE_MODE \<equiv> 2"

text \<open>\<open>Parameter = namedtuple("Parameter", "value mode")\<close>\<close>

record parameter =
  param_value :: int
  param_mode :: int

text \<open>
  The loop \<open>for j in range(1, size): parameters.append(Parameter(memory[i + j],
  param_mode % 10)); param_mode //= 10\<close>, with \<open>k\<close> the number of iterations left.
\<close>

fun fetch_parameters :: "memory \<Rightarrow> int \<Rightarrow> nat \<Rightarrow> nat \<Rightarrow> int \<Rightarrow> error + parameter list" where
  "fetch_parameters m i j 0 pm = Inr []"
| "fetch_parameters m i j (Suc k) pm =
     bind_err (mem_get m (i + int j)) (\<lambda>v.
     bind_err (fetch_parameters m i (Suc j) k (pm div 10)) (\<lambda>ps.
     Inr (\<lparr>param_value = v, param_mode = pm mod 10\<rparr> # ps)))"

text \<open>
  Lines 82--93: the instruction word, the opcode, the table check and the
  parameters. The result is the opcode, the instruction size and the parameters.
\<close>

definition decode :: "memory \<Rightarrow> int \<Rightarrow> error + (int \<times> nat \<times> parameter list)" where
  "decode m i =
     bind_err (mem_get m i) (\<lambda>mem_value.
       let opcode = mem_value mod 100 in
       case map_of OPCODE_TO_INST_SIZE opcode of
         None \<Rightarrow> Inl (InvalidOpcode opcode)
       | Some inst_size \<Rightarrow>
           bind_err (fetch_parameters m i 1 (inst_size - 1) (mem_value div 100))
             (\<lambda>parameters. Inr (opcode, inst_size, parameters)))"

subsection \<open>The size table\<close>

lemma inst_size_cases:
  "map_of OPCODE_TO_INST_SIZE opcode = Some n \<Longrightarrow>
     (opcode \<in> {ADD, MULTIPLY, LESS_THAN, EQUAL_TO} \<and> n = 4)
   \<or> (opcode \<in> {INPUT, OUTPUT, ADJUST_REL_BASE} \<and> n = 2)
   \<or> (opcode \<in> {JUMP_IF_TRUE, JUMP_IF_FALSE} \<and> n = 3)
   \<or> (opcode = HALT \<and> n = 1)"
  by (auto simp: OPCODE_TO_INST_SIZE_def split: if_splits)

lemma inst_size_positive:
  "map_of OPCODE_TO_INST_SIZE opcode = Some n \<Longrightarrow> 0 < n"
  by (drule inst_size_cases) auto

lemma map_of_inst_size [intcode_simps]:
  "map_of OPCODE_TO_INST_SIZE opcode =
     (if opcode \<in> {ADD, MULTIPLY, LESS_THAN, EQUAL_TO} then Some 4
      else if opcode \<in> {INPUT, OUTPUT, ADJUST_REL_BASE} then Some 2
      else if opcode \<in> {JUMP_IF_TRUE, JUMP_IF_FALSE} then Some 3
      else if opcode = HALT then Some 1 else None)"
  by (auto simp: OPCODE_TO_INST_SIZE_def)

lemma decode_Inr_D:
  "decode m i = Inr (opcode, n, ps) \<Longrightarrow>
     \<exists>w. mem_get m i = Inr w \<and> opcode = w mod 100 \<and> map_of OPCODE_TO_INST_SIZE opcode = Some n \<and>
       fetch_parameters m i 1 (n - 1) (w div 100) = Inr ps"
  by (auto simp: decode_def bind_err_eq_Inr Let_def split: option.splits)

subsection \<open>The operand fetch\<close>

lemma fetch_parameters_length:
  "fetch_parameters m i j k pm = Inr ps \<Longrightarrow> length ps = k"
  by (induction m i j k pm arbitrary: ps rule: fetch_parameters.induct)
     (auto simp: bind_err_eq_Inr)

lemma fetch_parameters_nth:
  "fetch_parameters m i j k pm = Inr ps \<Longrightarrow> l < k \<Longrightarrow>
     mem_get m (i + int (j + l)) = Inr (param_value (ps ! l))
   \<and> param_mode (ps ! l) = pm div 10 ^ l mod 10"
proof (induction m i j k pm arbitrary: ps l rule: fetch_parameters.induct)
  case (1 m i j pm)
  then show ?case by simp
next
  case (2 m i j k pm)
  from "2.prems"(1) obtain v ps' where
    v: "mem_get m (i + int j) = Inr v" and
    ps': "fetch_parameters m i (Suc j) k (pm div 10) = Inr ps'" and
    ps: "ps = \<lparr>param_value = v, param_mode = pm mod 10\<rparr> # ps'"
    by (auto simp: bind_err_eq_Inr)
  show ?case
  proof (cases l)
    case 0
    with v ps show ?thesis by simp
  next
    case (Suc l')
    with "2.prems"(2) have "l' < k" by simp
    from "2.IH" [OF ps' this] Suc ps show ?thesis
      by (simp add: zdiv_zmult2_eq ac_simps)
  qed
qed

lemma fetch_parameters_total:
  "(\<forall>l < k. mem_get m (i + int (j + l)) \<noteq> Inl (KeyError (i + int (j + l)))) \<Longrightarrow>
     \<exists>ps. fetch_parameters m i j k pm = Inr ps"
proof (induction m i j k pm rule: fetch_parameters.induct)
  case (1 m i j pm)
  then show ?case by simp
next
  case (2 m i j k pm)
  from "2.prems" [rule_format, of 0] obtain v where v: "mem_get m (i + int j) = Inr v"
    by (cases "mem_get m (i + int j)") (auto simp: mem_get_Inl_iff mem_get_def split: option.splits)
  have "\<forall>l < k. mem_get m (i + int (Suc j + l)) \<noteq> Inl (KeyError (i + int (Suc j + l)))"
    using "2.prems" by (metis Suc_less_eq add_Suc add_Suc_right)
  then obtain ps where "fetch_parameters m i (Suc j) k (pm div 10) = Inr ps"
    using "2.IH" v by blast
  with v show ?case by simp
qed

subsection \<open>The decoder's contract\<close>

lemma decode_param_nth:
  "decode m i = Inr (opcode, n, ps) \<Longrightarrow> mem_get m i = Inr w \<Longrightarrow> k < n - 1 \<Longrightarrow>
     mem_get m (i + 1 + int k) = Inr (param_value (ps ! k))
   \<and> param_mode (ps ! k) = w div 100 div 10 ^ k mod 10"
  by (auto dest!: decode_Inr_D dest: fetch_parameters_nth simp: add.assoc)

text \<open>C3: a successful decode reads the opcode as the instruction word modulo 100,
  its width from the size table, and, for each of the \<open>width - 1\<close> parameters in
  order, the operand word at \<open>i + 1 + k\<close> and the \<open>k\<close>-th decimal digit of
  \<open>word // 100\<close> as the mode.\<close>

theorem decode_contract:
  assumes "decode m i = Inr (opcode, n, ps)"
  shows "\<exists>w. mem_get m i = Inr w \<and> opcode = w mod 100 \<and>
           map_of OPCODE_TO_INST_SIZE opcode = Some n \<and> length ps = n - 1 \<and>
           (\<forall>k < n - 1. mem_get m (i + 1 + int k) = Inr (param_value (ps ! k)) \<and>
                        param_mode (ps ! k) = w div 100 div 10 ^ k mod 10)"
proof -
  from assms obtain w where w: "mem_get m i = Inr w" "opcode = w mod 100"
      "map_of OPCODE_TO_INST_SIZE opcode = Some n"
      "fetch_parameters m i 1 (n - 1) (w div 100) = Inr ps"
    by (blast dest: decode_Inr_D)
  from w(4) have "length ps = n - 1" by (rule fetch_parameters_length)
  with w assms show ?thesis by (blast dest: decode_param_nth)
qed

theorem decode_contract_witness:
  "decode (init_memory [1002, 4, 3, 4, 33]) 0 =
     Inr (2, 4, [\<lparr>param_value = 4, param_mode = 0\<rparr>, \<lparr>param_value = 3, param_mode = 1\<rparr>,
                 \<lparr>param_value = 4, param_mode = 0\<rparr>])
   \<and> mem_get (init_memory [1002, 4, 3, 4, 33]) 0 = Inr 1002
   \<and> param_mode ([\<lparr>param_value = 4, param_mode = 0\<rparr>, \<lparr>param_value = 3, param_mode = 1\<rparr>,
                  \<lparr>param_value = 4, param_mode = 0\<rparr>] ! 1) = 1002 div 100 div 10 ^ 1 mod 10"
proof -
  have d: "decode (init_memory [1002, 4, 3, 4, 33]) 0 =
     Inr (2, 4, [\<lparr>param_value = 4, param_mode = 0\<rparr>, \<lparr>param_value = 3, param_mode = 1\<rparr>,
                 \<lparr>param_value = 4, param_mode = 0\<rparr>])"
    by code_simp
  from decode_contract [OF d] have "mem_get (init_memory [1002, 4, 3, 4, 33]) 0 = Inr 1002
      \<and> param_mode ([\<lparr>param_value = 4, param_mode = 0\<rparr>, \<lparr>param_value = 3, param_mode = 1\<rparr>,
                  \<lparr>param_value = 4, param_mode = 0\<rparr>] ! 1) = 1002 div 100 div 10 ^ 1 mod 10"
    by (auto simp: mem_get_init_memory)
  with d show ?thesis by simp
qed

text \<open>A parameter whose digits are exhausted decodes as position mode: for a
  non-negative word below \<open>100 * 10 ^ k\<close>, parameter \<open>k\<close> has mode 0.\<close>

theorem decode_mode_exhausted:
  assumes "decode m i = Inr (opcode, n, ps)" and "mem_get m i = Inr w"
    and "0 \<le> w" and "w < 100 * 10 ^ k" and "k < n - 1"
  shows "param_mode (ps ! k) = POSITION_MODE"
proof -
  from assms(3,4) have "w div 100 < 10 ^ k"
    by (simp add: div_less_iff_less_mult mult.commute)
  with assms(3) have "w div 100 div 10 ^ k = 0" by (simp add: div_pos_pos_trivial)
  with decode_param_nth [OF assms(1,2,5)] show ?thesis by simp
qed

theorem decode_mode_exhausted_witness:
  "decode (init_memory [1001, 1, 2, 3]) 0 =
     Inr (1, 4, [\<lparr>param_value = 1, param_mode = 0\<rparr>, \<lparr>param_value = 2, param_mode = 1\<rparr>,
                 \<lparr>param_value = 3, param_mode = 0\<rparr>])
   \<and> mem_get (init_memory [1001, 1, 2, 3]) 0 = Inr 1001 \<and> (0::int) \<le> 1001
   \<and> (1001::int) < 100 * 10 ^ 2 \<and> (2::nat) < 4 - 1
   \<and> param_mode ([\<lparr>param_value = 1, param_mode = 0\<rparr>, \<lparr>param_value = 2, param_mode = 1\<rparr>,
                  \<lparr>param_value = 3, param_mode = 0\<rparr>] ! 2) = POSITION_MODE"
proof -
  have d: "decode (init_memory [1001, 1, 2, 3]) 0 =
     Inr (1, 4, [\<lparr>param_value = 1, param_mode = 0\<rparr>, \<lparr>param_value = 2, param_mode = 1\<rparr>,
                 \<lparr>param_value = 3, param_mode = 0\<rparr>])"
    by code_simp
  have w: "mem_get (init_memory [1001, 1, 2, 3]) 0 = Inr 1001" by code_simp
  have h: "(0::int) \<le> 1001" "(1001::int) < 100 * 10 ^ 2" "(2::nat) < 4 - 1" by simp_all
  from decode_mode_exhausted [OF d w h] d w h show ?thesis by simp
qed

end
