(* ===== verification/Channel.thy ===== *)
theory Channel
  imports Prelude
begin

text \<open>
  The input channel of one \<open>IntcodeComputer\<close> (src/day-09.py, lines 143--155): a
  \<open>queue.Queue\<close> guarded by a \<open>threading.Condition\<close>. \<open>send_input\<close> puts a value
  at the back and notifies; \<open>__get_next_input\<close> waits while the queue is empty and
  then takes the value at the front. The queue is a list, front first; a receive on
  the empty list is \<open>None\<close>, the state in which the consumer thread waits on the
  condition. A sequence of sends and receives is a list of \<open>chan_op\<close>s, so that the
  FIFO guarantee is stated for every interleaving of producer and consumer.
\<close>

type_synonym channel = "int list"

definition send_input :: "channel \<Rightarrow> int \<Rightarrow> channel" where
  "send_input q value = q @ [value]"

fun get_next_input :: "channel \<Rightarrow> (int \<times> channel) option" where
  "get_next_input [] = None"
| "get_next_input (x # xs) = Some (x, xs)"

datatype chan_op = Send int | Recv

text \<open>
  One operation of the single producer or the single consumer; the result keeps the
  values received so far, \<open>None\<close> when a receive would wait forever because no send
  follows in the sequence.
\<close>

fun chan_run :: "channel \<Rightarrow> chan_op list \<Rightarrow> (int list \<times> channel) option" where
  "chan_run q [] = Some ([], q)"
| "chan_run q (Send v # ops) = chan_run (send_input q v) ops"
| "chan_run q (Recv # ops) =
     (case get_next_input q of
        None \<Rightarrow> None
      | Some (v, q') \<Rightarrow> map_option (\<lambda>(rs, q''). (v # rs, q'')) (chan_run q' ops))"

fun sent :: "chan_op list \<Rightarrow> int list" where
  "sent [] = []"
| "sent (Send v # ops) = v # sent ops"
| "sent (Recv # ops) = sent ops"

fun recv_count :: "chan_op list \<Rightarrow> nat" where
  "recv_count [] = 0"
| "recv_count (Send v # ops) = recv_count ops"
| "recv_count (Recv # ops) = Suc (recv_count ops)"

lemma get_next_input_send [simp]:
  "get_next_input (send_input q v) =
     (case q of [] \<Rightarrow> Some (v, []) | x # xs \<Rightarrow> Some (x, send_input xs v))"
  by (cases q) (simp_all add: send_input_def)

lemma get_next_input_Some:
  "get_next_input q = Some (v, q') \<longleftrightarrow> q = v # q'"
  by (cases q) auto

lemma chan_run_append_queue:
  "chan_run q ops = Some (rs, q') \<Longrightarrow> rs @ q' = q @ sent ops"
proof (induction q ops arbitrary: rs q' rule: chan_run.induct)
  case (1 q)
  then show ?case by simp
next
  case (2 q v ops)
  then show ?case by (simp add: send_input_def)
next
  case (3 q ops)
  then show ?case
    by (auto simp: get_next_input_Some split: option.splits)
qed

lemma chan_run_length:
  "chan_run q ops = Some (rs, q') \<Longrightarrow> length rs = recv_count ops"
  by (induction q ops arbitrary: rs q' rule: chan_run.induct)
     (auto split: option.splits)

text \<open>C11: the channel is FIFO under every interleaving of sends and receives: the
  values received are, in order, a prefix of the queued values followed by the values
  sent, and whatever is not received is still queued, in order.\<close>

theorem chan_fifo:
  assumes "chan_run q ops = Some (rs, q')"
  shows "rs = take (recv_count ops) (q @ sent ops) \<and> q' = drop (recv_count ops) (q @ sent ops)"
proof -
  from assms have e: "rs @ q' = q @ sent ops" by (rule chan_run_append_queue)
  from assms have l: "length rs = recv_count ops" by (rule chan_run_length)
  from e l show ?thesis by (metis append_eq_conv_conj)
qed

theorem chan_fifo_witness:
  "chan_run [1] [Send 2, Recv, Send 3, Recv] = Some ([1, 2], [3])
   \<and> [1, 2] = take (recv_count [Send 2, Recv, Send 3, Recv]) ([1] @ sent [Send 2, Recv, Send 3, Recv])
   \<and> [3] = drop (recv_count [Send 2, Recv, Send 3, Recv]) ([1] @ sent [Send 2, Recv, Send 3, Recv])"
proof -
  have r: "chan_run [1] [Send 2, Recv, Send 3, Recv] = Some ([1, 2], [3])"
    by (simp add: send_input_def)
  from chan_fifo [OF r] r show ?thesis by simp
qed

text \<open>Pushing \<open>3, 1, 4, 1, 5\<close> into an empty channel and then receiving five
  times yields exactly \<open>3, 1, 4, 1, 5\<close> and leaves the channel empty.\<close>

theorem chan_fifo_example:
  "chan_run [] (map Send [3, 1, 4, 1, 5] @ replicate 5 Recv) = Some ([3, 1, 4, 1, 5], [])"
  by (simp add: send_input_def numeral_eq_Suc)

end
