(* ===== verification/Loop.thy ===== *)
theory Loop
  imports Prelude
begin

text \<open>
  The loop driver that both Intcode machines share: \<open>__run_program\<close> repeats one
  iteration of its \<open>while\<close> loop until the loop is left, an exception escapes, or
  the thread parks on an empty input queue. The iteration is a parameter
  \<open>'s \<Rightarrow> error + 's step_result\<close>, so the lemmas here hold for the dictionary
  machine of src/day-09.py and the list machines of src/day-05.py and src/day-07.py
  alike. An Intcode program may loop forever, so the driver takes fuel: at most \<open>n\<close>
  iterations, \<open>Running\<close> when the fuel is spent.
\<close>

datatype 's step_result = Stepped 's | Blocked | Exited

datatype 's run_state = Running 's | Waiting 's | Halted 's | Crashed error 's

fun run_loop :: "('s \<Rightarrow> error + 's step_result) \<Rightarrow> nat \<Rightarrow> 's \<Rightarrow> 's run_state" where
  "run_loop step 0 s = Running s"
| "run_loop step (Suc n) s =
     (case step s of
        Inl e \<Rightarrow> Crashed e s
      | Inr (Stepped s') \<Rightarrow> run_loop step n s'
      | Inr Blocked \<Rightarrow> Waiting s
      | Inr Exited \<Rightarrow> Halted s)"

fun state_of :: "'s run_state \<Rightarrow> 's" where
  "state_of (Running s) = s"
| "state_of (Waiting s) = s"
| "state_of (Halted s) = s"
| "state_of (Crashed e s) = s"

lemma run_loop_add:
  "run_loop step (m + n) s = (case run_loop step m s of Running s' \<Rightarrow> run_loop step n s' | r \<Rightarrow> r)"
  by (induction m arbitrary: s) (auto split: sum.splits step_result.splits)

lemma run_loop_Stepped:
  "step s = Inr (Stepped s') \<Longrightarrow> run_loop step (Suc n) s = run_loop step n s'"
  by simp

lemma run_loop_Waiting:
  "run_loop step n s = Waiting s' \<Longrightarrow> step s' = Inr Blocked"
  by (induction n arbitrary: s) (auto split: sum.splits step_result.splits)

lemma run_loop_Halted:
  "run_loop step n s = Halted s' \<Longrightarrow> step s' = Inr Exited"
  by (induction n arbitrary: s) (auto split: sum.splits step_result.splits)

lemma run_loop_final_stable:
  "run_loop step n s = r \<Longrightarrow> \<forall>s'. r \<noteq> Running s' \<Longrightarrow> n \<le> m \<Longrightarrow> run_loop step m s = r"
proof -
  assume r: "run_loop step n s = r" and nr: "\<forall>s'. r \<noteq> Running s'" and le: "n \<le> m"
  from le obtain k where "m = n + k" by (auto dest: le_Suc_ex)
  with r nr show ?thesis by (cases r) (auto simp: run_loop_add)
qed

text \<open>A relation that every completed iteration establishes, and that is reflexive
  and transitive, relates the start of every run to its end.\<close>

lemma run_loop_induct_rel:
  assumes stp: "\<And>s s'. step s = Inr (Stepped s') \<Longrightarrow> R s s'"
    and refl: "\<And>x. R x x"
    and trans: "\<And>x y z. R x y \<Longrightarrow> R y z \<Longrightarrow> R x z"
  shows "R s (state_of (run_loop step n s))"
proof (induction n arbitrary: s)
  case 0
  then show ?case by (simp add: refl)
next
  case (Suc n)
  show ?case
  proof (cases "step s")
    case (Inl e)
    then show ?thesis by (simp add: refl)
  next
    case (Inr r)
    then show ?thesis
      by (cases r) (auto simp: refl intro: trans [OF stp Suc.IH])
  qed
qed

end
