(* ===== verification/Executor.thy ===== *)
theory Executor
  imports Decoder Channel Loop
begin

text \<open>
  One iteration of the fetch--decode--execute loop of
  \<open>IntcodeComputer.__run_program\<close> (src/day-09.py, lines 56--141). The state
  \<open>vm\<close> joins the fields of the object that the loop reads and writes
  (\<open>__memory\<close>, \<open>__inputs\<close>, \<open>__last_output\<close>, and the sequence of values handed
  to \<open>__output_handler\<close>) with the two locals of the running thread, the loop index
  \<open>i\<close> (here \<open>pc\<close>) and \<open>relative_base\<close>. One iteration either completes
  (\<open>Stepped\<close>), parks the thread in \<open>__get_next_input\<close> on an empty queue
  (\<open>Blocked\<close>, state unchanged), leaves the loop (\<open>Exited\<close>: the \<open>HALT\<close>
  \<open>break\<close>, or the loop guard \<open>i < len(memory)\<close> failing), or raises (\<open>Inl\<close>).
\<close>

record vm =
  mem :: memory
  inputs :: channel
  last_output :: int
  outputs :: "int list"
  pc :: int
  relative_base :: int

text \<open>\<open>__init__\<close> (lines 40--48) and the two locals set before the loop (lines 79--80).\<close>

definition init_vm :: "int list \<Rightarrow> vm" where
  "init_vm program =
     \<lparr>mem = init_memory program, inputs = [], last_output = 0, outputs = [],
      pc = 0, relative_base = 0\<rparr>"

definition resolve_parameter_value :: "memory \<Rightarrow> int \<Rightarrow> parameter \<Rightarrow> error + int" where
  "resolve_parameter_value m rb parameter =
     (if param_mode parameter = POSITION_MODE then Inr (read_memory m (param_value parameter))
      else if param_mode parameter = IMMEDIATE_MODE then Inr (param_value parameter)
      else if param_mode parameter = RELATIVE_MODE
        then Inr (read_memory m (rb + param_value parameter))
      else Inl (UnsupportedMode (param_mode parameter)))"

definition resolve_parameter_target_addr :: "int \<Rightarrow> parameter \<Rightarrow> error + int" where
  "resolve_parameter_target_addr rb parameter =
     (if param_mode parameter = POSITION_MODE then Inr (param_value parameter)
      else if param_mode parameter = RELATIVE_MODE then Inr (rb + param_value parameter)
      else Inl (UnsupportedMode (param_mode parameter)))"

text \<open>
  The branches of the \<open>if\<close>/\<open>elif\<close> chain of lines 95--148. Each resolves its
  parameters left to right (an unsupported mode raises at the first parameter that
  is resolved), and every branch but a taken jump and \<open>HALT\<close> ends with
  \<open>i += OPCODE_TO_INST_SIZE[opcode]\<close>. \<open>ADD\<close>, \<open>MULTIPLY\<close>,
  \<open>LESS_THAN\<close> and \<open>EQUAL_TO\<close> share one shape (two values, one target, one
  write) and differ in the value written; the two conditional jumps share one shape
  and differ in the test.
\<close>

definition arith_instr ::
  "vm \<Rightarrow> nat \<Rightarrow> parameter list \<Rightarrow> (int \<Rightarrow> int \<Rightarrow> int) \<Rightarrow> error + vm step_result" where
  "arith_instr s inst_size parameters f =
     bind_err (resolve_parameter_value (mem s) (relative_base s) (parameters ! 0)) (\<lambda>value1.
     bind_err (resolve_parameter_value (mem s) (relative_base s) (parameters ! 1)) (\<lambda>value2.
     bind_err (resolve_parameter_target_addr (relative_base s) (parameters ! 2)) (\<lambda>address.
       Inr (Stepped (s\<lparr>mem := write_memory (mem s) address (f value1 value2),
                      pc := pc s + int inst_size\<rparr>)))))"

definition input_instr :: "vm \<Rightarrow> nat \<Rightarrow> parameter list \<Rightarrow> error + vm step_result" where
  "input_instr s inst_size parameters =
     bind_err (resolve_parameter_target_addr (relative_base s) (parameters ! 0)) (\<lambda>address.
       case get_next_input (inputs s) of
         None \<Rightarrow> Inr Blocked
       | Some (input, rest) \<Rightarrow>
           Inr (Stepped (s\<lparr>mem := write_memory (mem s) address input, inputs := rest,
                          pc := pc s + int inst_size\<rparr>)))"

definition output_instr :: "vm \<Rightarrow> nat \<Rightarrow> parameter list \<Rightarrow> error + vm step_result" where
  "output_instr s inst_size parameters =
     bind_err (resolve_parameter_value (mem s) (relative_base s) (parameters ! 0)) (\<lambda>output.
       Inr (Stepped (s\<lparr>outputs := outputs s @ [output], last_output := output,
                      pc := pc s + int inst_size\<rparr>)))"

definition jump_instr ::
  "vm \<Rightarrow> nat \<Rightarrow> parameter list \<Rightarrow> (int \<Rightarrow> bool) \<Rightarrow> error + vm step_result" where
  "jump_instr s inst_size parameters taken =
     bind_err (resolve_parameter_value (mem s) (relative_base s) (parameters ! 0)) (\<lambda>value.
       if taken value
       then bind_err (resolve_parameter_value (mem s) (relative_base s) (parameters ! 1))
              (\<lambda>target. Inr (Stepped (s\<lparr>pc := target\<rparr>)))
       else Inr (Stepped (s\<lparr>pc := pc s + int inst_size\<rparr>)))"

definition adjust_instr :: "vm \<Rightarrow> nat \<Rightarrow> parameter list \<Rightarrow> error + vm step_result" where
  "adjust_instr s inst_size parameters =
     bind_err (resolve_parameter_value (mem s) (relative_base s) (parameters ! 0)) (\<lambda>v.
       Inr (Stepped (s\<lparr>relative_base := relative_base s + v, pc := pc s + int inst_size\<rparr>)))"

definition execute :: "vm \<Rightarrow> int \<Rightarrow> nat \<Rightarrow> parameter list \<Rightarrow> error + vm step_result" where
  "execute s opcode inst_size parameters =
     (if opcode = ADD then arith_instr s inst_size parameters (+)
      else if opcode = MULTIPLY then arith_instr s inst_size parameters (*)
      else if opcode = INPUT then input_instr s inst_size parameters
      else if opcode = OUTPUT then output_instr s inst_size parameters
      else if opcode = JUMP_IF_TRUE then jump_instr s inst_size parameters (\<lambda>v. v \<noteq> 0)
      else if opcode = JUMP_IF_FALSE then jump_instr s inst_size parameters (\<lambda>v. v = 0)
      else if opcode = LESS_THAN then
        arith_instr s inst_size parameters (\<lambda>value1 value2. if value1 < value2 then 1 else 0)
      else if opcode = EQUAL_TO then
        arith_instr s inst_size parameters (\<lambda>value1 value2. if value1 = value2 then 1 else 0)
      else if opcode = ADJUST_REL_BASE then adjust_instr s inst_size parameters
      else if opcode = HALT then Inr Exited
      else Inr (Stepped (s\<lparr>pc := pc s + int inst_size\<rparr>)))"

text \<open>One iteration of \<open>while i < len(self.__memory)\<close> (lines 81--148).\<close>

definition step :: "vm \<Rightarrow> error + vm step_result" where
  "step s =
     (if pc s < int (mem_len (mem s))
      then bind_err (decode (mem s) (pc s)) (\<lambda>(opcode, inst_size, parameters).
             execute s opcode inst_size parameters)
      else Inr Exited)"

subsection \<open>The branches\<close>

lemma arith_instr_Stepped:
  "arith_instr s n ps f = Inr (Stepped s') \<Longrightarrow>
     \<exists>a v. s' = s\<lparr>mem := write_memory (mem s) a v, pc := pc s + int n\<rparr>"
  by (auto simp: arith_instr_def bind_err_eq_Inr)

lemma input_instr_Stepped:
  "input_instr s n ps = Inr (Stepped s') \<Longrightarrow>
     \<exists>a v rest. inputs s = v # rest \<and>
       s' = s\<lparr>mem := write_memory (mem s) a v, inputs := rest, pc := pc s + int n\<rparr>"
  by (force simp: input_instr_def bind_err_eq_Inr get_next_input_Some split: option.splits)

lemma output_instr_Stepped:
  "output_instr s n ps = Inr (Stepped s') \<Longrightarrow>
     \<exists>v. s' = s\<lparr>outputs := outputs s @ [v], last_output := v, pc := pc s + int n\<rparr>"
  by (auto simp: output_instr_def bind_err_eq_Inr)

lemma jump_instr_Stepped:
  "jump_instr s n ps c = Inr (Stepped s') \<Longrightarrow> \<exists>t. s' = s\<lparr>pc := t\<rparr>"
  by (auto simp: jump_instr_def bind_err_eq_Inr split: if_splits)

lemma adjust_instr_Stepped:
  "adjust_instr s n ps = Inr (Stepped s') \<Longrightarrow>
     \<exists>v. s' = s\<lparr>relative_base := relative_base s + v, pc := pc s + int n\<rparr>"
  by (auto simp: adjust_instr_def bind_err_eq_Inr)

lemma branch_not_Blocked:
  "arith_instr s n ps f \<noteq> Inr Blocked" "output_instr s n ps \<noteq> Inr Blocked"
  "jump_instr s n ps c \<noteq> Inr Blocked" "adjust_instr s n ps \<noteq> Inr Blocked"
  by (auto simp: arith_instr_def output_instr_def jump_instr_def adjust_instr_def
      bind_err_eq_Inr split: if_splits)

lemma branch_not_Exited:
  "arith_instr s n ps f \<noteq> Inr Exited" "output_instr s n ps \<noteq> Inr Exited"
  "jump_instr s n ps c \<noteq> Inr Exited" "adjust_instr s n ps \<noteq> Inr Exited"
  "input_instr s n ps \<noteq> Inr Exited"
  by (auto simp: arith_instr_def output_instr_def jump_instr_def adjust_instr_def
      input_instr_def bind_err_eq_Inr split: if_splits option.splits)

lemma input_instr_Blocked:
  "input_instr s n ps = Inr Blocked \<Longrightarrow> inputs s = []"
  by (cases "inputs s") (auto simp: input_instr_def bind_err_eq_Inr)

text \<open>
  Every way one instruction can complete, read off the branches. The proof splits the
  opcode chain with \<open>simp only\<close>: the full simplifier on the ten opcode
  disequations of the last branches is needlessly slow.
\<close>

lemma execute_Stepped_cases:
  assumes "execute s opcode n ps = Inr (Stepped s')"
  obtains (mem_write) a v where "s' = s\<lparr>mem := write_memory (mem s) a v, pc := pc s + int n\<rparr>"
    | (receive) a v rest where "inputs s = v # rest"
        "s' = s\<lparr>mem := write_memory (mem s) a v, inputs := rest, pc := pc s + int n\<rparr>"
    | (emit) v where "s' = s\<lparr>outputs := outputs s @ [v], last_output := v, pc := pc s + int n\<rparr>"
    | (jump) t where "s' = s\<lparr>pc := t\<rparr>"
    | (base) v where "s' = s\<lparr>relative_base := relative_base s + v, pc := pc s + int n\<rparr>"
    | (skip) "s' = s\<lparr>pc := pc s + int n\<rparr>"
  using assms unfolding execute_def
  apply (simp only: split: if_split_asm)
  apply (erule arith_instr_Stepped [elim_format], elim exE, rule that(1), assumption)
  apply (erule arith_instr_Stepped [elim_format], elim exE, rule that(1), assumption)
  apply (erule input_instr_Stepped [elim_format], elim exE conjE, rule that(2), assumption+)
  apply (erule output_instr_Stepped [elim_format], elim exE, rule that(3), assumption)
  apply (erule jump_instr_Stepped [elim_format], elim exE, rule that(4), assumption)
  apply (erule jump_instr_Stepped [elim_format], elim exE, rule that(4), assumption)
  apply (erule arith_instr_Stepped [elim_format], elim exE, rule that(1), assumption)
  apply (erule arith_instr_Stepped [elim_format], elim exE, rule that(1), assumption)
  apply (erule adjust_instr_Stepped [elim_format], elim exE, rule that(5), assumption)
  apply (simp only: sum.inject step_result.distinct)
  apply (rule that(6), simp only: sum.inject step_result.inject eq_commute)
  done

lemma execute_Blocked:
  "execute s opcode n ps = Inr Blocked \<Longrightarrow> opcode = INPUT \<and> inputs s = []"
  unfolding execute_def
  by (simp only: split: if_split_asm)
     (simp_all only: branch_not_Blocked input_instr_Blocked sum.inject step_result.distinct
       simp_thms)

lemma execute_Exited:
  "execute s opcode n ps = Inr Exited \<Longrightarrow> opcode = HALT"
  unfolding execute_def
  by (simp only: split: if_split_asm)
     (simp_all only: branch_not_Exited sum.inject step_result.distinct simp_thms)

subsection \<open>Addressing modes\<close>

text \<open>Mode resolution round trip: a value written at the address a parameter
  resolves to as a target is what the same parameter then reads as a value
  (position and relative mode alike).\<close>

theorem resolve_roundtrip:
  "resolve_parameter_target_addr rb p = Inr a \<Longrightarrow>
     resolve_parameter_value (write_memory m a v) rb p = Inr v"
  by (auto simp: resolve_parameter_target_addr_def resolve_parameter_value_def split: if_splits)

theorem resolve_roundtrip_witness:
  "resolve_parameter_target_addr 10 \<lparr>param_value = -3, param_mode = 2\<rparr> = Inr 7
   \<and> resolve_parameter_value (write_memory [] 7 42) 10 \<lparr>param_value = -3, param_mode = 2\<rparr> = Inr 42"
proof -
  have t: "resolve_parameter_target_addr 10 \<lparr>param_value = -3, param_mode = 2\<rparr> = Inr 7"
    by (simp add: resolve_parameter_target_addr_def)
  from resolve_roundtrip [OF t] t show ?thesis by simp
qed

end
