(* ===== verification/Machine.thy ===== *)
theory Machine
  imports Executor
begin

text \<open>
  The thread of one \<open>IntcodeComputer\<close>: \<open>__run_program\<close> (src/day-09.py, lines
  56--148) iterates the loop body of \<open>Executor.step\<close> until it leaves the loop,
  raises, or parks in \<open>__get_next_input\<close>. An Intcode program may loop forever,
  so the loop is run with fuel by the generic driver \<open>Loop.run_loop\<close>: \<open>run n s\<close>
  performs at most \<open>n\<close> iterations and is \<open>Running\<close> when the fuel is spent.
  \<open>Waiting\<close> is the thread parked on an empty queue (the state in which day-13
  sets its \<open>__is_waiting_for_input\<close> flag, see \<open>Arcade\<close>); \<open>Halted\<close> is the thread
  that has returned (\<open>has_exited()\<close>); \<open>Crashed\<close> is the thread killed by an
  exception, whose object fields stay readable (\<open>get_last_output()\<close>).
\<close>

definition run :: "nat \<Rightarrow> vm \<Rightarrow> vm run_state" where
  "run = run_loop step"

text \<open>\<open>IntcodeComputer.send_input\<close> (lines 151--155) on the object's queue.\<close>

definition vm_send_input :: "vm \<Rightarrow> int \<Rightarrow> vm" where
  "vm_send_input s value = s\<lparr>inputs := send_input (inputs s) value\<rparr>"

subsection \<open>One iteration\<close>

lemma step_Stepped:
  "step s = Inr (Stepped s') \<Longrightarrow> pc s < int (mem_len (mem s)) \<and>
     (\<exists>opcode n ps. decode (mem s) (pc s) = Inr (opcode, n, ps) \<and>
        execute s opcode n ps = Inr (Stepped s'))"
  by (auto simp: step_def bind_err_eq_Inr split: if_splits)

lemma step_Blocked:
  "step s = Inr Blocked \<Longrightarrow> pc s < int (mem_len (mem s)) \<and> inputs s = [] \<and>
     (\<exists>n ps. decode (mem s) (pc s) = Inr (INPUT, n, ps) \<and> execute s INPUT n ps = Inr Blocked)"
  unfolding step_def by (auto simp: bind_err_eq_Inr split: if_splits dest: execute_Blocked)

lemma execute_pc:
  "execute s opcode n ps = Inr (Stepped s') \<Longrightarrow> opcode \<noteq> JUMP_IF_TRUE \<Longrightarrow>
     opcode \<noteq> JUMP_IF_FALSE \<Longrightarrow> pc s' = pc s + int n"
  unfolding execute_def
  by (simp only: split: if_split_asm)
     (auto dest!: arith_instr_Stepped input_instr_Stepped output_instr_Stepped adjust_instr_Stepped)

lemma step_wf_memory:
  "step s = Inr (Stepped s') \<Longrightarrow> wf_memory (mem s) \<Longrightarrow> wf_memory (mem s')"
  by (auto dest!: step_Stepped elim!: execute_Stepped_cases)

lemma step_mem_len:
  "step s = Inr (Stepped s') \<Longrightarrow> mem_len (mem s) \<le> mem_len (mem s')"
  by (auto dest!: step_Stepped elim!: execute_Stepped_cases simp: mem_len_write_mono)

lemma step_outputs:
  "step s = Inr (Stepped s') \<Longrightarrow> \<exists>ys. outputs s' = outputs s @ ys"
  by (auto dest!: step_Stepped elim!: execute_Stepped_cases)

lemma step_inputs:
  "step s = Inr (Stepped s') \<Longrightarrow> \<exists>xs. inputs s = xs @ inputs s'"
  by (auto dest!: step_Stepped elim!: execute_Stepped_cases)

subsection \<open>Runs\<close>

lemma run_add:
  "run (m + n) s = (case run m s of Running s' \<Rightarrow> run n s' | r \<Rightarrow> r)"
  unfolding run_def by (rule run_loop_add)

lemma run_Suc_Stepped [intcode_simps]:
  "step s = Inr (Stepped s') \<Longrightarrow> run (Suc n) s = run n s'"
  by (simp add: run_def)

lemma run_zero [simp]: "run 0 s = Running s"
  by (simp add: run_def)

lemma run_induct_rel:
  assumes "\<And>s s'. step s = Inr (Stepped s') \<Longrightarrow> R s s'"
    and "\<And>x. R x x"
    and "\<And>x y z. R x y \<Longrightarrow> R y z \<Longrightarrow> R x z"
  shows "R s (state_of (run n s))"
  unfolding run_def using assms by (rule run_loop_induct_rel)

lemma run_Waiting:
  "run n s = Waiting s' \<Longrightarrow> step s' = Inr Blocked"
  unfolding run_def by (rule run_loop_Waiting)

lemma execute_opcode_simps:
  "execute s JUMP_IF_TRUE n ps = jump_instr s n ps (\<lambda>v. v \<noteq> 0)"
  "execute s JUMP_IF_FALSE n ps = jump_instr s n ps (\<lambda>v. v = 0)"
  "execute s INPUT n ps = input_instr s n ps"
  by (simp_all add: execute_def)

lemma decode_size:
  "decode m i = Inr (opcode, n, ps) \<Longrightarrow> map_of OPCODE_TO_INST_SIZE opcode = Some n"
  by (auto dest: decode_Inr_D)

lemma input_instr_Blocked_target:
  "input_instr s n ps = Inr Blocked \<Longrightarrow>
     \<exists>a. resolve_parameter_target_addr (relative_base s) (ps ! 0) = Inr a"
  by (auto simp: input_instr_def bind_err_eq_Inr split: option.splits)

lemma step_decoded:
  "pc s < int (mem_len (mem s)) \<Longrightarrow> decode (mem s) (pc s) = Inr (opcode, n, ps) \<Longrightarrow>
     step s = execute s opcode n ps"
  by (simp add: step_def)

subsection \<open>Control flow\<close>

text \<open>C2: a conditional jump sets the program counter to its second parameter when
  its branch is taken and advances by the width 3 otherwise; it changes nothing else.\<close>

theorem step_jump:
  assumes dec: "decode (mem s) (pc s) = Inr (opcode, n, ps)"
    and op: "opcode = JUMP_IF_TRUE \<or> opcode = JUMP_IF_FALSE"
    and st: "step s = Inr (Stepped s')"
    and a: "resolve_parameter_value (mem s) (relative_base s) (ps ! 0) = Inr a"
  shows "(if (opcode = JUMP_IF_TRUE) = (a \<noteq> 0)
          then Inr (pc s') = resolve_parameter_value (mem s) (relative_base s) (ps ! 1)
          else pc s' = pc s + 3)
         \<and> mem s' = mem s \<and> relative_base s' = relative_base s"
proof -
  from st dec have ex: "execute s opcode n ps = Inr (Stepped s')"
    by (auto dest!: step_Stepped)
  from dec op have n: "n = 3" by (auto simp: map_of_inst_size dest!: decode_size)
  from op ex have "jump_instr s n ps (if opcode = JUMP_IF_TRUE then (\<lambda>v. v \<noteq> 0) else (\<lambda>v. v = 0))
      = Inr (Stepped s')"
    by (auto simp: execute_opcode_simps)
  with a n op show ?thesis
    by (auto simp: jump_instr_def bind_err_eq_Inr split: if_splits)
qed

theorem step_jump_witness:
  "decode (mem (init_vm [1105, 1, 3, 99])) (pc (init_vm [1105, 1, 3, 99])) =
     Inr (5, 3, [\<lparr>param_value = 1, param_mode = 1\<rparr>, \<lparr>param_value = 3, param_mode = 1\<rparr>])
   \<and> step (init_vm [1105, 1, 3, 99]) = Inr (Stepped ((init_vm [1105, 1, 3, 99])\<lparr>pc := 3\<rparr>))
   \<and> Inr 3 = resolve_parameter_value (mem (init_vm [1105, 1, 3, 99])) 0
               \<lparr>param_value = 3, param_mode = 1\<rparr>"
proof -
  let ?s = "init_vm [1105, 1, 3, 99]"
  let ?ps = "[\<lparr>param_value = 1, param_mode = 1\<rparr>, \<lparr>param_value = 3, param_mode = 1::int\<rparr>]"
  have d: "decode (mem ?s) (pc ?s) = Inr (5, 3, ?ps)" by code_simp
  have st: "step ?s = Inr (Stepped (?s\<lparr>pc := 3\<rparr>))" by code_simp
  have a: "resolve_parameter_value (mem ?s) (relative_base ?s) (?ps ! 0) = Inr 1" by code_simp
  from step_jump [OF d _ st a]
  have "Inr (pc (?s\<lparr>pc := 3\<rparr>)) = resolve_parameter_value (mem ?s) (relative_base ?s) (?ps ! 1)"
    by simp
  with d st show ?thesis by (simp add: init_vm_def)
qed

text \<open>Every instruction other than the two conditional jumps advances the program
  counter by its width.\<close>

theorem step_advance:
  assumes "decode (mem s) (pc s) = Inr (opcode, n, ps)"
    and "opcode \<noteq> JUMP_IF_TRUE" "opcode \<noteq> JUMP_IF_FALSE"
    and "step s = Inr (Stepped s')"
  shows "pc s' = pc s + int n"
  using assms by (auto dest!: step_Stepped intro: execute_pc)

theorem step_advance_witness:
  "decode (mem (init_vm [104, 9, 99])) (pc (init_vm [104, 9, 99])) =
     Inr (4, 2, [\<lparr>param_value = 9, param_mode = 1\<rparr>])
   \<and> step (init_vm [104, 9, 99]) =
       Inr (Stepped ((init_vm [104, 9, 99])\<lparr>outputs := [9], last_output := 9, pc := 2\<rparr>))
   \<and> pc ((init_vm [104, 9, 99])\<lparr>outputs := [9], last_output := 9, pc := 2\<rparr>) =
       pc (init_vm [104, 9, 99]) + int 2"
proof -
  let ?s = "init_vm [104, 9, 99]"
  have d: "decode (mem ?s) (pc ?s) = Inr (4, 2, [\<lparr>param_value = 9, param_mode = 1\<rparr>])" by code_simp
  have st: "step ?s = Inr (Stepped (?s\<lparr>outputs := [9], last_output := 9, pc := 2\<rparr>))" by code_simp
  from step_advance [OF d _ _ st] d st show ?thesis by simp
qed

subsection \<open>Blocking on input\<close>

text \<open>C7: an instance parked on an empty queue resumes once a value is sent: the next
  iteration completes the INPUT instruction, storing the value and advancing by 2.\<close>

theorem blocked_resumes:
  assumes "step s = Inr Blocked"
  shows "\<exists>a. step (vm_send_input s v) =
           Inr (Stepped (s\<lparr>mem := write_memory (mem s) a v, inputs := [], pc := pc s + 2\<rparr>))"
proof -
  from assms obtain n ps where pc: "pc s < int (mem_len (mem s))" and q: "inputs s = []"
    and dec: "decode (mem s) (pc s) = Inr (INPUT, n, ps)"
    and ex: "execute s INPUT n ps = Inr Blocked"
    by (blast dest: step_Blocked)
  from dec have n: "n = 2" by (auto simp: map_of_inst_size dest!: decode_size)
  from ex obtain a where a: "resolve_parameter_target_addr (relative_base s) (ps ! 0) = Inr a"
    by (auto simp: execute_opcode_simps dest!: input_instr_Blocked_target)
  have "step (vm_send_input s v) =
      Inr (Stepped (s\<lparr>mem := write_memory (mem s) a v, inputs := [], pc := pc s + 2\<rparr>))"
    using pc q dec a n
    by (simp add: step_def execute_opcode_simps input_instr_def send_input_def vm_send_input_def)
  then show ?thesis by blast
qed

theorem blocked_resumes_witness:
  "step (init_vm [3, 0, 99]) = Inr Blocked
   \<and> (\<exists>a. step (vm_send_input (init_vm [3, 0, 99]) 42) =
       Inr (Stepped ((init_vm [3, 0, 99])\<lparr>mem := write_memory (mem (init_vm [3, 0, 99])) a 42,
                                          inputs := [], pc := pc (init_vm [3, 0, 99]) + 2\<rparr>)))"
proof -
  have b: "step (init_vm [3, 0, 99]) = Inr Blocked" by code_simp
  from blocked_resumes [OF b, of 42] b show ?thesis by blast
qed

subsection \<open>Invariants of runs\<close>

text \<open>The memory dictionary stays well formed (its keys distinct, so that
  \<open>len(memory)\<close> counts addresses) on every run from a well-formed state.\<close>

theorem run_wf_memory:
  "wf_memory (mem s) \<Longrightarrow> wf_memory (mem (state_of (run n s)))"
  using run_induct_rel [where R = "\<lambda>x y. wf_memory (mem x) \<longrightarrow> wf_memory (mem y)"]
  by (blast dest: step_wf_memory)

theorem run_wf_memory_witness:
  "wf_memory (mem (init_vm [1101, 1, 1, -5, 99]))
   \<and> wf_memory (mem (state_of (run 10 (init_vm [1101, 1, 1, -5, 99]))))"
proof -
  have w: "wf_memory (mem (init_vm [1101, 1, 1, -5, 99]))" by (simp add: init_vm_def wf_init_memory)
  from run_wf_memory [OF w, of 10] w show ?thesis by simp
qed

text \<open>Outputs are only ever appended: the values handed to the output handler
  during a run extend, in order, the ones handed to it before.\<close>

theorem run_outputs_append:
  "\<exists>ys. outputs (state_of (run n s)) = outputs s @ ys"
  using run_induct_rel [where R = "\<lambda>x y. \<exists>ys. outputs y = outputs x @ ys"]
  by (metis append.assoc append_Nil2 step_outputs)

text \<open>Inputs are consumed from the front of the queue only.\<close>

theorem run_inputs_consumed:
  "\<exists>xs. inputs s = xs @ inputs (state_of (run n s))"
  using run_induct_rel [where R = "\<lambda>x y. \<exists>xs. inputs x = xs @ inputs y"]
  by (metis append.assoc append_Nil step_inputs)

text \<open>A halted thread stays halted: more fuel gives the same final state.\<close>

theorem run_halted_stable:
  "run n s = Halted s' \<Longrightarrow> n \<le> m \<Longrightarrow> run m s = Halted s'"
  unfolding run_def by (erule run_loop_final_stable) simp_all

theorem run_halted_stable_witness:
  "run 2 (init_vm [1, 0, 0, 0, 99]) =
     Halted \<lparr>mem = [(0, 2), (1, 0), (2, 0), (3, 0), (4, 99)], inputs = [], last_output = 0,
             outputs = [], pc = 4, relative_base = 0\<rparr>
   \<and> (2::nat) \<le> 7
   \<and> run 7 (init_vm [1, 0, 0, 0, 99]) =
     Halted \<lparr>mem = [(0, 2), (1, 0), (2, 0), (3, 0), (4, 99)], inputs = [], last_output = 0,
             outputs = [], pc = 4, relative_base = 0\<rparr>"
proof -
  have r: "run 2 (init_vm [1, 0, 0, 0, 99]) =
     Halted \<lparr>mem = [(0, 2), (1, 0), (2, 0), (3, 0), (4, 99)], inputs = [], last_output = 0,
             outputs = [], pc = 4, relative_base = 0\<rparr>" by code_simp
  have le: "(2::nat) \<le> 7" by simp
  from run_halted_stable [OF r le] r le show ?thesis by simp
qed

subsection \<open>The relative base\<close>

lemma step_adjust_immediate:
  "pc s < int (mem_len (mem s)) \<Longrightarrow> mem_get (mem s) (pc s) = Inr 109 \<Longrightarrow>
     mem_get (mem s) (pc s + 1) = Inr d \<Longrightarrow>
     step s = Inr (Stepped (s\<lparr>relative_base := relative_base s + d, pc := pc s + 2\<rparr>))"
  by (simp add: step_def decode_def execute_def adjust_instr_def map_of_inst_size
      resolve_parameter_value_def numeral_2_eq_2)

text \<open>A block of \<open>ADJUST_REL_BASE\<close> instructions with immediate operands
  \<open>109, d\<^sub>1, \<dots>, 109, d\<^sub>k\<close>, by induction on the block.\<close>

lemma adjust_block_run:
  assumes "\<forall>k < length ds. mem_get (mem s) (pc s + 2 * int k) = Inr 109
                         \<and> mem_get (mem s) (pc s + 2 * int k + 1) = Inr (ds ! k)"
    and "pc s + 2 * int (length ds) \<le> int (mem_len (mem s))"
  shows "run (length ds) s =
           Running (s\<lparr>relative_base := relative_base s + sum_list ds,
                      pc := pc s + 2 * int (length ds)\<rparr>)"
  using assms
proof (induction ds arbitrary: s)
  case Nil
  then show ?case by simp
next
  case (Cons d ds)
  let ?s1 = "s\<lparr>relative_base := relative_base s + d, pc := pc s + 2\<rparr>"
  from Cons.prems(1) have w: "mem_get (mem s) (pc s) = Inr 109" "mem_get (mem s) (pc s + 1) = Inr d"
    by (auto dest: spec [of _ 0])
  from Cons.prems(2) have pc: "pc s < int (mem_len (mem s))" by simp
  have st: "step s = Inr (Stepped ?s1)" by (rule step_adjust_immediate [OF pc w])
  have "\<forall>k < length ds. mem_get (mem ?s1) (pc ?s1 + 2 * int k) = Inr 109
                     \<and> mem_get (mem ?s1) (pc ?s1 + 2 * int k + 1) = Inr (ds ! k)"
  proof (intro allI impI)
    fix k assume k: "k < length ds"
    from Cons.prems(1) [rule_format, of "Suc k"] k
    have "mem_get (mem s) (pc s + 2 * int (Suc k)) = Inr 109
        \<and> mem_get (mem s) (pc s + 2 * int (Suc k) + 1) = Inr (ds ! k)"
      by simp
    then show "mem_get (mem ?s1) (pc ?s1 + 2 * int k) = Inr 109
        \<and> mem_get (mem ?s1) (pc ?s1 + 2 * int k + 1) = Inr (ds ! k)"
      by (simp add: algebra_simps)
  qed
  moreover from Cons.prems(2) have "pc ?s1 + 2 * int (length ds) \<le> int (mem_len (mem ?s1))"
    by simp
  ultimately have "run (length ds) ?s1 =
      Running (?s1\<lparr>relative_base := relative_base ?s1 + sum_list ds,
                   pc := pc ?s1 + 2 * int (length ds)\<rparr>)"
    by (rule Cons.IH)
  then show ?case by (simp add: run_Suc_Stepped [OF st] algebra_simps)
qed

lemma adjust_demo_layout:
  "\<forall>k < length [3, -7]. mem_get (mem (init_vm [109, 3, 109, -7, 99])) (pc (init_vm [109, 3, 109, -7, 99]) + 2 * int k) = Inr 109
     \<and> mem_get (mem (init_vm [109, 3, 109, -7, 99])) (pc (init_vm [109, 3, 109, -7, 99]) + 2 * int k + 1) = Inr ([3, -7] ! k)"
  "pc (init_vm [109, 3, 109, -7, 99]) + 2 * int (length [3::int, -7]) \<le> int (mem_len (mem (init_vm [109, 3, 109, -7, 99])))"
  by (simp_all add: init_vm_def mem_get_init_memory numeral_2_eq_2 All_less_Suc)

text \<open>C6: a block of \<open>ADJUST_REL_BASE\<close> instructions with immediate operands
  \<open>109, d\<^sub>1, \<dots>, 109, d\<^sub>k\<close> runs in \<open>k\<close> iterations without stopping, adds
  \<open>d\<^sub>1 + \<dots> + d\<^sub>k\<close> to the relative base, advances the program counter past
  the block, and leaves memory, queue and outputs alone.\<close>

theorem adjust_block:
  assumes "\<forall>k < length ds. mem_get (mem s) (pc s + 2 * int k) = Inr 109
                         \<and> mem_get (mem s) (pc s + 2 * int k + 1) = Inr (ds ! k)"
    and "pc s + 2 * int (length ds) \<le> int (mem_len (mem s))"
  shows "\<exists>s'. run (length ds) s = Running s' \<and> mem s' = mem s \<and> inputs s' = inputs s
           \<and> outputs s' = outputs s \<and> relative_base s' = relative_base s + sum_list ds
           \<and> pc s' = pc s + 2 * int (length ds)"
  using adjust_block_run [OF assms] by simp

theorem adjust_block_witness:
  "\<exists>s'. run 2 (init_vm [109, 3, 109, -7, 99]) = Running s'
     \<and> mem s' = mem (init_vm [109, 3, 109, -7, 99]) \<and> inputs s' = [] \<and> outputs s' = []
     \<and> relative_base s' = -4 \<and> pc s' = 4"
proof -
  from adjust_block [OF adjust_demo_layout] show ?thesis
    by (simp add: init_vm_def numeral_2_eq_2)
qed

subsection \<open>The other instructions, branch by branch\<close>

text \<open>C1: the four three-operand instructions write \<open>a + b\<close>, \<open>a * b\<close>,
  \<open>a < b\<close> and \<open>a = b\<close> (as 1 or 0) at their target and advance by 4.\<close>

theorem step_arith:
  assumes pc: "pc s < int (mem_len (mem s))"
    and dec: "decode (mem s) (pc s) = Inr (opcode, n, ps)"
    and op: "opcode \<in> {ADD, MULTIPLY, LESS_THAN, EQUAL_TO}"
    and a: "resolve_parameter_value (mem s) (relative_base s) (ps ! 0) = Inr a"
    and b: "resolve_parameter_value (mem s) (relative_base s) (ps ! 1) = Inr b"
    and t: "resolve_parameter_target_addr (relative_base s) (ps ! 2) = Inr t"
  shows "step s = Inr (Stepped (s\<lparr>mem := write_memory (mem s) t
           (if opcode = ADD then a + b else if opcode = MULTIPLY then a * b
            else if opcode = LESS_THAN then (if a < b then 1 else 0)
            else (if a = b then 1 else 0)), pc := pc s + 4\<rparr>))"
proof -
  from dec op have n: "n = 4" by (auto simp: map_of_inst_size dest!: decode_size)
  have "step s = execute s opcode n ps" using pc dec by (rule step_decoded)
  with op a b t n show ?thesis by (auto simp: execute_def arith_instr_def)
qed

theorem step_arith_witness:
  "pc (init_vm [1101, 5, 6, 0, 99]) < int (mem_len (mem (init_vm [1101, 5, 6, 0, 99])))
   \<and> decode (mem (init_vm [1101, 5, 6, 0, 99])) (pc (init_vm [1101, 5, 6, 0, 99])) =
       Inr (1, 4, [\<lparr>param_value = 5, param_mode = 1\<rparr>, \<lparr>param_value = 6, param_mode = 1\<rparr>,
                   \<lparr>param_value = 0, param_mode = 0\<rparr>])
   \<and> step (init_vm [1101, 5, 6, 0, 99]) =
       Inr (Stepped ((init_vm [1101, 5, 6, 0, 99])\<lparr>
         mem := write_memory (mem (init_vm [1101, 5, 6, 0, 99])) 0 11, pc := 4\<rparr>))"
proof -
  let ?s = "init_vm [1101, 5, 6, 0, 99]"
  let ?ps = "[\<lparr>param_value = 5, param_mode = 1\<rparr>, \<lparr>param_value = 6, param_mode = 1\<rparr>,
              \<lparr>param_value = 0, param_mode = 0::int\<rparr>]"
  have pc: "pc ?s < int (mem_len (mem ?s))" by code_simp
  have d: "decode (mem ?s) (pc ?s) = Inr (1, 4, ?ps)" by code_simp
  have a: "resolve_parameter_value (mem ?s) (relative_base ?s) (?ps ! 0) = Inr 5" by code_simp
  have b: "resolve_parameter_value (mem ?s) (relative_base ?s) (?ps ! 1) = Inr 6" by code_simp
  have t: "resolve_parameter_target_addr (relative_base ?s) (?ps ! 2) = Inr 0" by code_simp
  from step_arith [OF pc d _ a b t] pc d show ?thesis by (simp add: init_vm_def)
qed

text \<open>C4: INPUT on a non-empty queue stores the front value at its target, removes
  it and advances by 2; on an empty queue the thread parks and nothing changes.\<close>

theorem step_input:
  assumes pc: "pc s < int (mem_len (mem s))"
    and dec: "decode (mem s) (pc s) = Inr (INPUT, n, ps)"
    and t: "resolve_parameter_target_addr (relative_base s) (ps ! 0) = Inr a"
  shows "step s = (case inputs s of
                     [] \<Rightarrow> Inr Blocked
                   | v # rest \<Rightarrow> Inr (Stepped (s\<lparr>mem := write_memory (mem s) a v,
                                                 inputs := rest, pc := pc s + 2\<rparr>)))"
proof -
  from dec have n: "n = 2" by (auto simp: map_of_inst_size dest!: decode_size)
  have "step s = execute s INPUT n ps" using pc dec by (rule step_decoded)
  with t n show ?thesis
    by (cases "inputs s") (simp_all add: execute_opcode_simps input_instr_def)
qed

theorem step_input_witness:
  "pc (vm_send_input (init_vm [3, 0, 99]) 7) < int (mem_len (mem (vm_send_input (init_vm [3, 0, 99]) 7)))
   \<and> decode (mem (vm_send_input (init_vm [3, 0, 99]) 7)) (pc (vm_send_input (init_vm [3, 0, 99]) 7)) =
       Inr (3, 2, [\<lparr>param_value = 0, param_mode = 0\<rparr>])
   \<and> step (vm_send_input (init_vm [3, 0, 99]) 7) =
       Inr (Stepped ((init_vm [3, 0, 99])\<lparr>mem := write_memory (mem (init_vm [3, 0, 99])) 0 7, pc := 2\<rparr>))"
proof -
  let ?s = "vm_send_input (init_vm [3, 0, 99]) 7"
  have pc: "pc ?s < int (mem_len (mem ?s))" by code_simp
  have d: "decode (mem ?s) (pc ?s) = Inr (3, 2, [\<lparr>param_value = 0, param_mode = 0\<rparr>])" by code_simp
  have t: "resolve_parameter_target_addr (relative_base ?s) ([\<lparr>param_value = 0, param_mode = 0\<rparr>] ! 0) = Inr 0"
    by code_simp
  from step_input [OF pc d t] pc d show ?thesis
    by (simp add: init_vm_def vm_send_input_def send_input_def)
qed

text \<open>C5: OUTPUT hands its value to the output handler after all earlier outputs,
  records it as the last output and advances by 2, leaving memory, queue and
  relative base alone.\<close>

theorem step_output:
  assumes pc: "pc s < int (mem_len (mem s))"
    and dec: "decode (mem s) (pc s) = Inr (OUTPUT, n, ps)"
    and v: "resolve_parameter_value (mem s) (relative_base s) (ps ! 0) = Inr v"
  shows "step s = Inr (Stepped (s\<lparr>outputs := outputs s @ [v], last_output := v, pc := pc s + 2\<rparr>))"
proof -
  from dec have n: "n = 2" by (auto simp: map_of_inst_size dest!: decode_size)
  have "step s = execute s OUTPUT n ps" using pc dec by (rule step_decoded)
  with v n show ?thesis by (simp add: execute_def output_instr_def)
qed

theorem step_output_witness:
  "pc (init_vm [104, 9, 99]) < int (mem_len (mem (init_vm [104, 9, 99])))
   \<and> decode (mem (init_vm [104, 9, 99])) (pc (init_vm [104, 9, 99])) =
       Inr (4, 2, [\<lparr>param_value = 9, param_mode = 1\<rparr>])
   \<and> step (init_vm [104, 9, 99]) =
       Inr (Stepped ((init_vm [104, 9, 99])\<lparr>outputs := [9], last_output := 9, pc := 2\<rparr>))"
proof -
  let ?s = "init_vm [104, 9, 99]"
  have pc: "pc ?s < int (mem_len (mem ?s))" by code_simp
  have d: "decode (mem ?s) (pc ?s) = Inr (4, 2, [\<lparr>param_value = 9, param_mode = 1\<rparr>])" by code_simp
  have v: "resolve_parameter_value (mem ?s) (relative_base ?s) ([\<lparr>param_value = 9, param_mode = 1\<rparr>] ! 0) = Inr 9"
    by code_simp
  from step_output [OF pc d v] pc d show ?thesis by (simp add: init_vm_def)
qed

text \<open>C8: INPUT on an empty queue is the only suspension point: a run that ends
  waiting ends at an INPUT instruction with an empty queue.\<close>

theorem only_input_blocks:
  "run n s = Waiting s' \<Longrightarrow>
     inputs s' = [] \<and> (\<exists>k ps. decode (mem s') (pc s') = Inr (INPUT, k, ps))"
  by (blast dest: run_Waiting step_Blocked)

theorem only_input_blocks_witness:
  "run 5 (init_vm [3, 0, 99]) = Waiting (init_vm [3, 0, 99])
   \<and> inputs (init_vm [3, 0, 99]) = []
   \<and> (\<exists>k ps. decode (mem (init_vm [3, 0, 99])) (pc (init_vm [3, 0, 99])) = Inr (INPUT, k, ps))"
proof -
  have r: "run 5 (init_vm [3, 0, 99]) = Waiting (init_vm [3, 0, 99])" by code_simp
  from only_input_blocks [OF r] r show ?thesis by simp
qed

lemma run_Halted:
  "run n s = Halted s' \<Longrightarrow> step s' = Inr Exited"
  unfolding run_def by (rule run_loop_Halted)

lemma step_Exited:
  "step s = Inr Exited \<Longrightarrow>
     int (mem_len (mem s)) \<le> pc s \<or> (\<exists>n ps. decode (mem s) (pc s) = Inr (HALT, n, ps))"
  unfolding step_def by (auto simp: bind_err_eq_Inr split: if_splits dest: execute_Exited)

text \<open>C9: the loop is left only by a \<open>HALT\<close> instruction or by the program counter
  running past the end of memory: a run that ends halted ends at a decoded
  \<open>HALT\<close> or at \<open>i \<ge> len(memory)\<close>; no other instruction, and no error, stops the
  thread without an exception.\<close>

theorem only_halt_exits:
  "run n s = Halted s' \<Longrightarrow>
     int (mem_len (mem s')) \<le> pc s' \<or> (\<exists>k ps. decode (mem s') (pc s') = Inr (HALT, k, ps))"
  by (blast dest: run_Halted step_Exited)

theorem only_halt_exits_witness:
  "run 5 (init_vm [1101, 2, 3, 0, 99]) = Halted ((init_vm [1101, 2, 3, 0, 99])\<lparr>mem := [(0, 5), (1, 2), (2, 3), (3, 0), (4, 99)], pc := 4\<rparr>)
   \<and> (\<exists>k ps. decode [(0, 5), (1, 2), (2, 3), (3, 0), (4, 99)] 4 = Inr (HALT, k, ps))"
proof -
  have r: "run 5 (init_vm [1101, 2, 3, 0, 99]) = Halted ((init_vm [1101, 2, 3, 0, 99])\<lparr>mem := [(0, 5), (1, 2), (2, 3), (3, 0), (4, 99)], pc := 4\<rparr>)"
    by code_simp
  have l: "\<not> int (mem_len [(0, 5), (1, 2), (2, 3), (3, 0), (4, 99)]) \<le> 4" by code_simp
  from only_halt_exits [OF r] r l show ?thesis by (simp add: init_vm_def)
qed

subsection \<open>Fatal errors\<close>

text \<open>C12: an instruction word whose opcode is not in the size table raises
  \<open>ValueError\<close> ("is not a valid opcode").\<close>

theorem step_invalid_opcode:
  "pc s < int (mem_len (mem s)) \<Longrightarrow> mem_get (mem s) (pc s) = Inr w \<Longrightarrow>
     map_of OPCODE_TO_INST_SIZE (w mod 100) = None \<Longrightarrow>
     step s = Inl (InvalidOpcode (w mod 100))"
  by (simp add: step_def decode_def)

theorem step_invalid_opcode_witness:
  "pc (init_vm [42]) < int (mem_len (mem (init_vm [42])))
   \<and> mem_get (mem (init_vm [42])) (pc (init_vm [42])) = Inr 42
   \<and> map_of OPCODE_TO_INST_SIZE (42 mod 100) = None
   \<and> step (init_vm [42]) = Inl (InvalidOpcode 42)"
proof -
  have pc: "pc (init_vm [42]) < int (mem_len (mem (init_vm [42])))" by code_simp
  have w: "mem_get (mem (init_vm [42])) (pc (init_vm [42])) = Inr 42" by code_simp
  have t: "map_of OPCODE_TO_INST_SIZE (42 mod 100) = None" by code_simp
  from step_invalid_opcode [OF pc w t] pc w t show ?thesis by simp
qed

text \<open>A three-operand instruction whose target parameter is in immediate mode
  raises \<open>ValueError\<close> ("Unsupported parameter mode 1") once its two values
  are resolved.\<close>

theorem step_immediate_target:
  assumes pc: "pc s < int (mem_len (mem s))"
    and dec: "decode (mem s) (pc s) = Inr (opcode, n, ps)"
    and op: "opcode \<in> {ADD, MULTIPLY, LESS_THAN, EQUAL_TO}"
    and a: "resolve_parameter_value (mem s) (relative_base s) (ps ! 0) = Inr a"
    and b: "resolve_parameter_value (mem s) (relative_base s) (ps ! 1) = Inr b"
    and m: "param_mode (ps ! 2) = IMMEDIATE_MODE"
  shows "step s = Inl (UnsupportedMode IMMEDIATE_MODE)"
proof -
  have "step s = execute s opcode n ps" using pc dec by (rule step_decoded)
  with op a b m show ?thesis
    by (auto simp: execute_def arith_instr_def resolve_parameter_target_addr_def)
qed

theorem step_immediate_target_witness:
  "pc (init_vm [11101, 1, 1, 0]) < int (mem_len (mem (init_vm [11101, 1, 1, 0])))
   \<and> decode (mem (init_vm [11101, 1, 1, 0])) 0 =
       Inr (1, 4, [\<lparr>param_value = 1, param_mode = 1\<rparr>, \<lparr>param_value = 1, param_mode = 1\<rparr>,
                   \<lparr>param_value = 0, param_mode = 1\<rparr>])
   \<and> step (init_vm [11101, 1, 1, 0]) = Inl (UnsupportedMode 1)"
proof -
  let ?s = "init_vm [11101, 1, 1, 0]"
  let ?ps = "[\<lparr>param_value = 1, param_mode = 1\<rparr>, \<lparr>param_value = 1, param_mode = 1\<rparr>,
              \<lparr>param_value = 0, param_mode = 1::int\<rparr>]"
  have pc: "pc ?s < int (mem_len (mem ?s))" by code_simp
  have d: "decode (mem ?s) (pc ?s) = Inr (1, 4, ?ps)" by code_simp
  have a: "resolve_parameter_value (mem ?s) (relative_base ?s) (?ps ! 0) = Inr 1" by code_simp
  have b: "resolve_parameter_value (mem ?s) (relative_base ?s) (?ps ! 1) = Inr 1" by code_simp
  from step_immediate_target [OF pc d _ a b] pc d show ?thesis by (simp add: init_vm_def)
qed

end
