(* ===== verification/ListVM.thy ===== *)
theory ListVM
  imports Decoder Channel Loop
begin

text \<open>
  The two list-based revisions of the machine. \<open>IntcodeComputer\<close> of
  src/day-07.py (lines 10--137) keeps the program in the Python list it was given:
  \<open>self.__memory[k]\<close> counts a negative \<open>k\<close> from the end, raises
  \<open>IndexError\<close> past either end, and never grows. Its decoder has no relative mode
  and no \<open>ADJUST_REL_BASE\<close>; \<open>resolve_parameter_value\<close> reads any mode other
  than 1 as position mode; a write goes to \<open>memory[parameter.value]\<close> whatever the
  target's mode; and INPUT evaluates \<open>self.__get_next_input()\<close> before the
  subscript it assigns. \<open>run_program\<close> of src/day-05.py (lines 39--96) is the same
  loop without the object: INPUT reads standard input, which raises \<open>EOFError\<close>
  when it is exhausted instead of waiting, and OUTPUT prints. Both are iterations
  for the shared driver \<open>Loop.run_loop\<close>. A crash returns the state before the
  failing iteration; the queue value that a failing INPUT has already taken is the
  only field this differs in.
\<close>

definition OPCODE_TO_INST_SIZE_LIST :: "(int \<times> nat) list" where
  "OPCODE_TO_INST_SIZE_LIST =
     [(ADD, 4), (MULTIPLY, 4), (INPUT, 2), (OUTPUT, 2), (JUMP_IF_TRUE, 3),
      (JUMP_IF_FALSE, 3), (LESS_THAN, 4), (EQUAL_TO, 4), (HALT, 1)]"

record list_vm =
  lmemory :: "int list"
  linputs :: channel
  llast_output :: int
  loutputs :: "int list"
  li :: int

text \<open>\<open>__init__\<close> (day-07 lines 37--45): the list itself is the memory.\<close>

definition init_list_vm :: "int list \<Rightarrow> list_vm" where
  "init_list_vm memory =
     \<lparr>lmemory = memory, linputs = [], llast_output = 0, loutputs = [], li = 0\<rparr>"

fun fetch_list_parameters :: "int list \<Rightarrow> int \<Rightarrow> nat \<Rightarrow> nat \<Rightarrow> int \<Rightarrow> error + parameter list" where
  "fetch_list_parameters m i j 0 pm = Inr []"
| "fetch_list_parameters m i j (Suc k) pm =
     bind_err (py_get m (i + int j)) (\<lambda>v.
     bind_err (fetch_list_parameters m i (Suc j) k (pm div 10)) (\<lambda>ps.
     Inr (\<lparr>param_value = v, param_mode = pm mod 10\<rparr> # ps)))"

definition list_decode :: "int list \<Rightarrow> int \<Rightarrow> error + (int \<times> nat \<times> parameter list)" where
  "list_decode m i =
     bind_err (py_get m i) (\<lambda>mem_value.
       let opcode = mem_value mod 100 in
       case map_of OPCODE_TO_INST_SIZE_LIST opcode of
         None \<Rightarrow> Inl (InvalidOpcode opcode)
       | Some inst_size \<Rightarrow>
           bind_err (fetch_list_parameters m i 1 (inst_size - 1) (mem_value div 100))
             (\<lambda>parameters. Inr (opcode, inst_size, parameters)))"

text \<open>\<open>resolve_parameter_value\<close> (day-07 lines 70--71, day-05 lines 42--43).\<close>

definition list_resolve :: "int list \<Rightarrow> parameter \<Rightarrow> error + int" where
  "list_resolve m parameter =
     (if param_mode parameter = IMMEDIATE_MODE then Inr (param_value parameter)
      else py_get m (param_value parameter))"

text \<open>ADD, MULTIPLY, LESS_THAN, EQUAL_TO: \<open>memory[parameters[2].value] = \<dots>\<close>.\<close>

definition list_arith ::
  "list_vm \<Rightarrow> nat \<Rightarrow> parameter list \<Rightarrow> (int \<Rightarrow> int \<Rightarrow> int) \<Rightarrow> error + list_vm step_result" where
  "list_arith s inst_size parameters f =
     bind_err (list_resolve (lmemory s) (parameters ! 0)) (\<lambda>value1.
     bind_err (list_resolve (lmemory s) (parameters ! 1)) (\<lambda>value2.
     bind_err (py_set (lmemory s) (param_value (parameters ! 2)) (f value1 value2)) (\<lambda>memory.
       Inr (Stepped (s\<lparr>lmemory := memory, li := li s + int inst_size\<rparr>)))))"

definition list_jump ::
  "list_vm \<Rightarrow> nat \<Rightarrow> parameter list \<Rightarrow> (int \<Rightarrow> bool) \<Rightarrow> error + list_vm step_result" where
  "list_jump s inst_size parameters taken =
     bind_err (list_resolve (lmemory s) (parameters ! 0)) (\<lambda>value.
       if taken value
       then bind_err (list_resolve (lmemory s) (parameters ! 1))
              (\<lambda>target. Inr (Stepped (s\<lparr>li := target\<rparr>)))
       else Inr (Stepped (s\<lparr>li := li s + int inst_size\<rparr>)))"

text \<open>INPUT of day-07 (lines 99--100): the value is taken from the queue, waiting
  while it is empty, before the subscript is assigned.\<close>

definition list_input :: "list_vm \<Rightarrow> nat \<Rightarrow> parameter list \<Rightarrow> error + list_vm step_result" where
  "list_input s inst_size parameters =
     (case get_next_input (linputs s) of
        None \<Rightarrow> Inr Blocked
      | Some (input, rest) \<Rightarrow>
          bind_err (py_set (lmemory s) (param_value (parameters ! 0)) input) (\<lambda>memory.
            Inr (Stepped (s\<lparr>lmemory := memory, linputs := rest, li := li s + int inst_size\<rparr>))))"

text \<open>OUTPUT of day-07 (lines 101--106): the handler, then \<open>__last_output\<close>.\<close>

definition list_output :: "list_vm \<Rightarrow> nat \<Rightarrow> parameter list \<Rightarrow> error + list_vm step_result" where
  "list_output s inst_size parameters =
     bind_err (list_resolve (lmemory s) (parameters ! 0)) (\<lambda>output.
       Inr (Stepped (s\<lparr>loutputs := loutputs s @ [output], llast_output := output,
                      li := li s + int inst_size\<rparr>)))"

definition list_execute :: "list_vm \<Rightarrow> int \<Rightarrow> nat \<Rightarrow> parameter list \<Rightarrow> error + list_vm step_result" where
  "list_execute s opcode inst_size parameters =
     (if opcode = ADD then list_arith s inst_size parameters (+)
      else if opcode = MULTIPLY then list_arith s inst_size parameters (*)
      else if opcode = INPUT then list_input s inst_size parameters
      else if opcode = OUTPUT then list_output s inst_size parameters
      else if opcode = JUMP_IF_TRUE then list_jump s inst_size parameters (\<lambda>v. v \<noteq> 0)
      else if opcode = JUMP_IF_FALSE then list_jump s inst_size parameters (\<lambda>v. v = 0)
      else if opcode = LESS_THAN then
        list_arith s inst_size parameters (\<lambda>value1 value2. if value1 < value2 then 1 else 0)
      else if opcode = EQUAL_TO then
        list_arith s inst_size parameters (\<lambda>value1 value2. if value1 = value2 then 1 else 0)
      else if opcode = HALT then Inr Exited
      else Inr (Stepped (s\<lparr>li := li s + int inst_size\<rparr>)))"

text \<open>One iteration of \<open>while i < len(self.__memory)\<close> (day-07 lines 75--129).\<close>

definition list_step :: "list_vm \<Rightarrow> error + list_vm step_result" where
  "list_step s =
     (if li s < int (length (lmemory s))
      then bind_err (list_decode (lmemory s) (li s)) (\<lambda>(opcode, inst_size, parameters).
             list_execute s opcode inst_size parameters)
      else Inr Exited)"

definition list_run :: "nat \<Rightarrow> list_vm \<Rightarrow> list_vm run_state" where
  "list_run = run_loop list_step"

definition list_send_input :: "list_vm \<Rightarrow> int \<Rightarrow> list_vm" where
  "list_send_input s value = s\<lparr>linputs := send_input (linputs s) value\<rparr>"

subsection \<open>The function of src/day-05.py\<close>

text \<open>INPUT of day-05 (line 70): \<open>int(input())\<close> on exhausted standard input raises
  \<open>EOFError\<close>. OUTPUT (lines 71--73) prints; there is no last output.\<close>

definition stdin_input :: "list_vm \<Rightarrow> nat \<Rightarrow> parameter list \<Rightarrow> error + list_vm step_result" where
  "stdin_input s inst_size parameters =
     (case linputs s of
        [] \<Rightarrow> Inl EOFError
      | input # rest \<Rightarrow>
          bind_err (py_set (lmemory s) (param_value (parameters ! 0)) input) (\<lambda>memory.
            Inr (Stepped (s\<lparr>lmemory := memory, linputs := rest, li := li s + int inst_size\<rparr>))))"

definition print_output :: "list_vm \<Rightarrow> nat \<Rightarrow> parameter list \<Rightarrow> error + list_vm step_result" where
  "print_output s inst_size parameters =
     bind_err (list_resolve (lmemory s) (parameters ! 0)) (\<lambda>output.
       Inr (Stepped (s\<lparr>loutputs := loutputs s @ [output], li := li s + int inst_size\<rparr>)))"

definition run_program05_execute ::
  "list_vm \<Rightarrow> int \<Rightarrow> nat \<Rightarrow> parameter list \<Rightarrow> error + list_vm step_result" where
  "run_program05_execute s opcode inst_size parameters =
     (if opcode = ADD then list_arith s inst_size parameters (+)
      else if opcode = MULTIPLY then list_arith s inst_size parameters (*)
      else if opcode = INPUT then stdin_input s inst_size parameters
      else if opcode = OUTPUT then print_output s inst_size parameters
      else if opcode = JUMP_IF_TRUE then list_jump s inst_size parameters (\<lambda>v. v \<noteq> 0)
      else if opcode = JUMP_IF_FALSE then list_jump s inst_size parameters (\<lambda>v. v = 0)
      else if opcode = LESS_THAN then
        list_arith s inst_size parameters (\<lambda>value1 value2. if value1 < value2 then 1 else 0)
      else if opcode = EQUAL_TO then
        list_arith s inst_size parameters (\<lambda>value1 value2. if value1 = value2 then 1 else 0)
      else if opcode = HALT then Inr Exited
      else Inr (Stepped (s\<lparr>li := li s + int inst_size\<rparr>)))"

definition run_program05_step :: "list_vm \<Rightarrow> error + list_vm step_result" where
  "run_program05_step s =
     (if li s < int (length (lmemory s))
      then bind_err (list_decode (lmemory s) (li s)) (\<lambda>(opcode, inst_size, parameters).
             run_program05_execute s opcode inst_size parameters)
      else Inr Exited)"

text \<open>\<open>run_program(memory)\<close> with the lines of standard input \<open>stdin\<close>, run with fuel.\<close>

definition run_program05 :: "nat \<Rightarrow> int list \<Rightarrow> int list \<Rightarrow> list_vm run_state" where
  "run_program05 fuel memory stdin =
     run_loop run_program05_step fuel ((init_list_vm memory)\<lparr>linputs := stdin\<rparr>)"

text \<open>The input/output frame of one step: outputs only grow at the end, inputs are
  only consumed at the front.\<close>

definition io_frame :: "list_vm \<Rightarrow> list_vm \<Rightarrow> bool" where
  "io_frame s s' \<longleftrightarrow> (\<exists>ys. loutputs s' = loutputs s @ ys) \<and> (\<exists>xs. linputs s = xs @ linputs s')"

subsection \<open>Frame lemmas\<close>

lemma io_frame_same [intro]:
  "loutputs s' = loutputs s \<Longrightarrow> linputs s' = linputs s \<Longrightarrow> io_frame s s'"
  by (auto simp: io_frame_def)

lemma list_arith_io: "list_arith s n ps f = Inr (Stepped s') \<Longrightarrow> io_frame s s'"
  by (auto simp: list_arith_def bind_err_eq_Inr)

lemma list_jump_io: "list_jump s n ps c = Inr (Stepped s') \<Longrightarrow> io_frame s s'"
  by (auto simp: list_jump_def bind_err_eq_Inr split: if_splits)

lemma list_input_io: "list_input s n ps = Inr (Stepped s') \<Longrightarrow> io_frame s s'"
  by (cases "linputs s") (auto simp: list_input_def bind_err_eq_Inr io_frame_def)

lemma list_output_io: "list_output s n ps = Inr (Stepped s') \<Longrightarrow> io_frame s s'"
  by (auto simp: list_output_def bind_err_eq_Inr io_frame_def)

lemma list_execute_io:
  "list_execute s opcode n ps = Inr (Stepped s') \<Longrightarrow> io_frame s s'"
  unfolding list_execute_def
  apply (simp only: split: if_split_asm)
  apply (erule list_arith_io | erule list_input_io | erule list_output_io | erule list_jump_io)+
  apply (simp only: sum.inject step_result.distinct)
  apply (simp only: sum.inject step_result.inject)
  apply (erule subst)
  apply (rule io_frame_same; simp)+
  done

lemma list_step_io:
  "list_step s = Inr (Stepped s') \<Longrightarrow> io_frame s s'"
  by (auto simp: list_step_def bind_err_eq_Inr split: if_splits intro: list_execute_io)

subsection \<open>The memory keeps its length\<close>

lemmas list_branch_defs = list_arith_def list_input_def list_output_def list_jump_def
  stdin_input_def print_output_def

lemma list_branches_length:
  "list_arith s n ps f = Inr (Stepped s') \<Longrightarrow> length (lmemory s') = length (lmemory s)"
  "list_input s n ps = Inr (Stepped s') \<Longrightarrow> length (lmemory s') = length (lmemory s)"
  "list_output s n ps = Inr (Stepped s') \<Longrightarrow> length (lmemory s') = length (lmemory s)"
  "list_jump s n ps c = Inr (Stepped s') \<Longrightarrow> length (lmemory s') = length (lmemory s)"
  "stdin_input s n ps = Inr (Stepped s') \<Longrightarrow> length (lmemory s') = length (lmemory s)"
  "print_output s n ps = Inr (Stepped s') \<Longrightarrow> length (lmemory s') = length (lmemory s)"
  by (fastforce simp: list_branch_defs bind_err_eq_Inr dest: py_set_length
           split: option.splits list.splits if_splits)+

lemma list_execute_length:
  "list_execute s opcode n ps = Inr (Stepped s') \<Longrightarrow> length (lmemory s') = length (lmemory s)"
  "run_program05_execute s opcode n ps = Inr (Stepped s') \<Longrightarrow> length (lmemory s') = length (lmemory s)"
  unfolding list_execute_def run_program05_execute_def
  by (auto split: if_splits dest: list_branches_length)

lemma list_step_length:
  "list_step s = Inr (Stepped s') \<Longrightarrow> length (lmemory s') = length (lmemory s)"
  "run_program05_step s = Inr (Stepped s') \<Longrightarrow> length (lmemory s') = length (lmemory s)"
  by (auto simp: list_step_def run_program05_step_def bind_err_eq_Inr split: if_splits
           dest: list_execute_length)

text \<open>The list machines never resize their memory: every write is a subscript
  assignment, so on every run of day-07's machine and of day-05's function the list
  keeps the length of the loaded program.\<close>

theorem list_memory_length:
  "length (lmemory (state_of (list_run n s))) = length (lmemory s) \<and>
   length (lmemory (state_of (run_program05 n program stdin))) = length program"
proof
  show "length (lmemory (state_of (list_run n s))) = length (lmemory s)"
    unfolding list_run_def
    by (rule run_loop_induct_rel[where R = "\<lambda>x y. length (lmemory y) = length (lmemory x)"])
       (auto dest: list_step_length)
  have "length (lmemory (state_of (run_loop run_program05_step n ((init_list_vm program)\<lparr>linputs := stdin\<rparr>)))) =
          length (lmemory ((init_list_vm program)\<lparr>linputs := stdin\<rparr>))"
    by (rule run_loop_induct_rel[where R = "\<lambda>x y. length (lmemory y) = length (lmemory x)"])
       (auto dest: list_step_length)
  then show "length (lmemory (state_of (run_program05 n program stdin))) = length program"
    by (simp add: run_program05_def init_list_vm_def)
qed

end
