(* ===== verification/Network.thy ===== *)
theory Network
  imports ListVM "HOL-Library.Multiset"
begin

text \<open>The orchestration in \<open>main\<close> of src/day-07.py (lines 140--177).
  Part 1 (lines 144--157) runs, for every ordering of the phase settings, five
  amplifiers one after the other: each is started, given its phase and the previous
  amplifier's last output, and joined (\<open>amplifier_chain\<close>); the largest final
  output wins (\<open>max_thruster_signal\<close>). \<open>itertools.permutations\<close> is
  \<open>permutations\<close>, which for distinct settings yields the orderings in the same
  order. Part 2 (lines 159--177) wires the five amplifiers into a ring: the output
  handler of amplifier \<open>i\<close> is \<open>amplifiers[(i+1) % 5].send_input\<close>, called
  inside the producer's thread during its OUTPUT instruction, so an output and its
  delivery are one atomic step (\<open>ring_update\<close>). The five threads then run
  concurrently; \<open>ring_step\<close> is the interleaving semantics (any instance that can
  execute an instruction does so), \<open>ring_run\<close> a round-robin scheduler with fuel,
  and \<open>feedback_signal\<close> the joins followed by \<open>amplifiers[4].get_last_output()\<close>,
  undefined when a thread is still parked (the join would never return).\<close>

function permutations :: "'a list \<Rightarrow> 'a list list" where
  "permutations [] = [[]]"
| "permutations (y # ys) =
     concat (map (\<lambda>x. map ((#) x) (permutations (remove1 x (y # ys)))) (y # ys))"
  by pat_completeness auto
termination
  by (relation "measure length") (auto simp: length_remove1 dest: length_pos_if_in_set)

fun amplifier_chain :: "nat \<Rightarrow> int list \<Rightarrow> int list \<Rightarrow> int \<Rightarrow> int option" where
  "amplifier_chain fuel program [] last_output = Some last_output"
| "amplifier_chain fuel program (phase # phases) last_output =
     (case list_run fuel (list_send_input (list_send_input (init_list_vm program) phase) last_output) of
        Halted s \<Rightarrow> amplifier_chain fuel program phases (llast_output s)
      | Crashed e s \<Rightarrow> amplifier_chain fuel program phases (llast_output s)
      | _ \<Rightarrow> None)"

definition max_thruster_signal :: "nat \<Rightarrow> int list \<Rightarrow> int list \<Rightarrow> int option" where
  "max_thruster_signal fuel program settings =
     fold (\<lambda>values acc. case acc of
                          None \<Rightarrow> None
                        | Some max_output \<Rightarrow>
                            (case amplifier_chain fuel program values 0 of
                               None \<Rightarrow> None
                             | Some last_output \<Rightarrow>
                                 Some (if last_output > max_output then last_output else max_output)))
       (permutations settings) (Some 0)"

type_synonym ring = "list_vm list"

definition deliver :: "ring \<Rightarrow> nat \<Rightarrow> int list \<Rightarrow> ring" where
  "deliver N i ys =
     N[Suc i mod length N := foldl list_send_input (N ! (Suc i mod length N)) ys]"

definition ring_update :: "ring \<Rightarrow> nat \<Rightarrow> list_vm \<Rightarrow> ring" where
  "ring_update N i s' = deliver (N[i := s']) i (drop (length (loutputs (N ! i))) (loutputs s'))"

inductive ring_step :: "ring \<Rightarrow> ring \<Rightarrow> bool" where
  step: "i < length N \<Longrightarrow> list_step (N ! i) = Inr (Stepped s') \<Longrightarrow> ring_step N (ring_update N i s')"

definition feedback_ring :: "int list \<Rightarrow> int list \<Rightarrow> ring" where
  "feedback_ring program phases =
     (case map (list_send_input (init_list_vm program)) phases of
        [] \<Rightarrow> []
      | a # rest \<Rightarrow> list_send_input a 0 # rest)"

fun ring_round :: "nat list \<Rightarrow> ring \<Rightarrow> ring \<times> bool" where
  "ring_round [] N = (N, False)"
| "ring_round (i # is) N =
     (case list_step (N ! i) of
        Inr (Stepped s') \<Rightarrow> (fst (ring_round is (ring_update N i s')), True)
      | _ \<Rightarrow> ring_round is N)"

fun ring_run :: "nat \<Rightarrow> ring \<Rightarrow> ring option" where
  "ring_run 0 N = None"
| "ring_run (Suc fuel) N =
     (let (N', progress) = ring_round [0..<length N] N in
      if progress then ring_run fuel N' else Some N)"

definition feedback_signal :: "nat \<Rightarrow> int list \<Rightarrow> int list \<Rightarrow> int option" where
  "feedback_signal fuel program values =
     (case ring_run fuel (feedback_ring program values) of
        None \<Rightarrow> None
      | Some N \<Rightarrow> if list_all (\<lambda>s. list_step s \<noteq> Inr Blocked) N then Some (llast_output (N ! 4)) else None)"

definition max_feedback_signal :: "nat \<Rightarrow> int list \<Rightarrow> int list \<Rightarrow> int option" where
  "max_feedback_signal fuel program settings =
     fold (\<lambda>values acc. case acc of
                          None \<Rightarrow> None
                        | Some max_output \<Rightarrow>
                            (case feedback_signal fuel program values of
                               None \<Rightarrow> None
                             | Some last_output \<Rightarrow>
                                 Some (if last_output > max_output then last_output else max_output)))
       (permutations settings) (Some 0)"

definition ring_prev :: "nat \<Rightarrow> nat \<Rightarrow> nat" where
  "ring_prev n j = (j + n - 1) mod n"

subsection \<open>Lemmas\<close>

lemma linputs_foldl_send [simp]:
  "linputs (foldl list_send_input s ys) = linputs s @ ys"
  by (induction ys arbitrary: s) (simp_all add: list_send_input_def send_input_def)

lemma loutputs_foldl_send [simp]:
  "loutputs (foldl list_send_input s ys) = loutputs s"
  by (induction ys arbitrary: s) (simp_all add: list_send_input_def)

lemma length_ring_update [simp]: "length (ring_update N i s') = length N"
  by (simp add: ring_update_def deliver_def)

lemma ring_prev_iff:
  assumes "j < n" "i < n"
  shows "ring_prev n j = i \<longleftrightarrow> j = Suc i mod n"
proof (cases j)
  case 0
  then show ?thesis using assms
    by (cases "Suc i = n") (auto simp: ring_prev_def)
next
  case (Suc k)
  then show ?thesis using assms
    by (cases "Suc i = n") (auto simp: ring_prev_def)
qed

lemma ring_prev_less: "j < n \<Longrightarrow> ring_prev n j < n"
  by (simp add: ring_prev_def)

lemma ring_update_nth:
  assumes "j < length N" "i < length N"
  shows "linputs (ring_update N i s' ! j) =
           linputs (if j = i then s' else N ! j)
           @ (if ring_prev (length N) j = i then drop (length (loutputs (N ! i))) (loutputs s') else [])"
    and "loutputs (ring_update N i s' ! j) = loutputs (if j = i then s' else N ! j)"
  using assms
  by (cases "j = Suc i mod length N"; auto simp: ring_update_def deliver_def nth_list_update ring_prev_iff)+

lemma ring_step_frame:
  assumes "ring_step N N'"
  obtains i s' ys xs where "i < length N" "N' = ring_update N i s'"
    "loutputs s' = loutputs (N ! i) @ ys" "linputs (N ! i) = xs @ linputs s'"
    "drop (length (loutputs (N ! i))) (loutputs s') = ys"
  using assms
  by (cases rule: ring_step.cases) (auto simp: io_frame_def dest!: list_step_io)

lemma ring_wiring_step:
  assumes "ring_step N N'"
    and "\<forall>j < length N. \<exists>c. c @ linputs (N ! j) = I j @ loutputs (N ! ring_prev (length N) j)"
    and "j < length N'"
  shows "\<exists>c. c @ linputs (N' ! j) = I j @ loutputs (N' ! ring_prev (length N') j)"
proof -
  obtain i s' ys xs where i: "i < length N" and N': "N' = ring_update N i s'"
    and out: "loutputs s' = loutputs (N ! i) @ ys" and inp: "linputs (N ! i) = xs @ linputs s'"
    and ys: "drop (length (loutputs (N ! i))) (loutputs s') = ys"
    using assms(1) by (rule ring_step_frame)
  have j: "j < length N" using assms(3) N' by simp
  have p: "ring_prev (length N) j < length N"
    using j by (rule ring_prev_less)
  obtain c where c: "c @ linputs (N ! j) = I j @ loutputs (N ! ring_prev (length N) j)"
    using assms(2) j by blast
  have "(c @ (if j = i then xs else [])) @ linputs (N' ! j) =
          I j @ loutputs (N' ! ring_prev (length N') j)"
    using c inp out ys j p i
    by (auto simp: N' ring_update_nth)
  then show ?thesis by blast
qed

lemma ring_round_sound:
  "ring_round is N = (N', b) \<Longrightarrow> \<forall>i\<in>set is. i < length N \<Longrightarrow>
   ring_step\<^sup>*\<^sup>* N N' \<and> length N' = length N \<and>
   (\<not> b \<longrightarrow> N' = N \<and> (\<forall>i\<in>set is. \<forall>s'. list_step (N ! i) \<noteq> Inr (Stepped s')))"
proof (induction "is" arbitrary: N N' b)
  case Nil
  then show ?case by simp
next
  case (Cons i "is")
  show ?case
  proof (cases "\<exists>s'. list_step (N ! i) = Inr (Stepped s')")
    case True
    then obtain s' where s': "list_step (N ! i) = Inr (Stepped s')" by blast
    obtain N'' b'' where r: "ring_round is (ring_update N i s') = (N'', b'')" by fastforce
    have "ring_step N (ring_update N i s')"
      using Cons.prems(2) s' by (auto intro: ring_step.step)
    moreover have "ring_step\<^sup>*\<^sup>* (ring_update N i s') N' \<and> length N' = length N \<and> b"
      using Cons.IH[OF r] Cons.prems s' r by auto
    ultimately show ?thesis by (auto intro: converse_rtranclp_into_rtranclp)
  next
  case False
    then have "ring_round (i # is) N = ring_round is N"
      by (auto split: sum.split step_result.split)
    with Cons.IH[of N N' b] Cons.prems False show ?thesis by auto
  qed
qed

lemma permutations_nonempty:
  "xs \<noteq> [] \<Longrightarrow> permutations xs = concat (map (\<lambda>x. map ((#) x) (permutations (remove1 x xs))) xs)"
  by (cases xs) simp_all

lemma mset_cons_remove1: "x \<in> set xs \<Longrightarrow> mset (x # p) = mset xs \<longleftrightarrow> mset p = mset (remove1 x xs)"
  by (metis add_mset_remove_trivial insert_DiffM mset.simps(2) mset_remove1 set_mset_mset)

lemma fold_max_option:
  fixes f :: "'b \<Rightarrow> int option"
  defines "F \<equiv> \<lambda>values acc. case acc of
                          None \<Rightarrow> None
                        | Some max_output \<Rightarrow>
                            (case f values of
                               None \<Rightarrow> None
                             | Some last_output \<Rightarrow>
                                 Some (if last_output > max_output then last_output else max_output))"
  assumes "\<forall>p \<in> set ps. f p \<noteq> None"
  shows "\<exists>m. fold F ps (Some a) = Some m \<and> a \<le> m \<and> (\<forall>p \<in> set ps. \<forall>v. f p = Some v \<longrightarrow> v \<le> m) \<and>
             (m = a \<or> (\<exists>p \<in> set ps. f p = Some m))"
  using assms(2)
proof (induction ps arbitrary: a)
  case Nil
  then show ?case by simp
next
  case (Cons p ps)
  then obtain v where v: "f p = Some v" by auto
  define a' where "a' = (if v > a then v else a)"
  have unfold: "fold F (p # ps) (Some a) = fold F ps (Some a')"
    using v by (simp add: F_def a'_def)
  obtain m where m: "fold F ps (Some a') = Some m" "a' \<le> m"
      "\<forall>p \<in> set ps. \<forall>v. f p = Some v \<longrightarrow> v \<le> m" "m = a' \<or> (\<exists>p \<in> set ps. f p = Some m)"
    using Cons.IH[of a'] Cons.prems by auto
  have "a \<le> m" "v \<le> m" "m = a \<or> (\<exists>p \<in> set (p # ps). f p = Some m)"
    using m(2,4) v by (auto simp: a'_def split: if_splits)
  then show ?case using m(1,3) v unfold by auto
qed

subsection \<open>Properties\<close>

text \<open>\<open>permutations xs\<close> lists exactly the rearrangements of \<open>xs\<close>: a list is
  produced iff it has the same multiset of elements.\<close>

theorem permutations_mset: "set (permutations xs) = {ys. mset ys = mset xs}"
proof (induction xs rule: permutations.induct)
  case 1
  then show ?case by simp
next
  case (2 y ys)
  define xs where "xs = y # ys"
  have IH: "x \<in> set xs \<Longrightarrow> p \<in> set (permutations (remove1 x xs)) \<longleftrightarrow> mset p = mset (remove1 x xs)"
    for x p using 2 unfolding xs_def by simp
  have ne: "xs \<noteq> []" by (simp add: xs_def)
  have P: "zs \<in> set (permutations xs) \<longleftrightarrow>
             (\<exists>x p. x \<in> set xs \<and> p \<in> set (permutations (remove1 x xs)) \<and> zs = x # p)" for zs
    by (subst permutations_nonempty[OF ne]) auto
  have "zs \<in> set (permutations xs) \<longleftrightarrow> mset zs = mset xs" for zs
  proof
    assume "zs \<in> set (permutations xs)"
    then obtain x p where x: "x \<in> set xs" and "p \<in> set (permutations (remove1 x xs))" and zs: "zs = x # p"
      using P by blast
    then have "mset p = mset (remove1 x xs)" using IH by simp
    then show "mset zs = mset xs" by (simp only: zs mset_cons_remove1[OF x])
  next
    assume m: "mset zs = mset xs"
    then obtain x p where zs: "zs = x # p" using ne by (cases zs) auto
    then have x: "x \<in> set xs" using m by (metis list.set_intros(1) set_mset_mset)
    then have "mset p = mset (remove1 x xs)" using mset_cons_remove1[OF x] m zs by simp
    then have "p \<in> set (permutations (remove1 x xs))" using IH[OF x] by simp
    then show "zs \<in> set (permutations xs)" using x zs P by blast
  qed
  then show ?case unfolding xs_def by blast
qed

text \<open>C17: when every ordering of the settings leads to a defined chain result, part 1
  returns the maximum of those results and of the initial 0, and the value returned is
  attained (or is the initial 0).\<close>

theorem max_thruster_signal_max:
  assumes "\<forall>p \<in> set (permutations settings). amplifier_chain fuel program p 0 \<noteq> None"
  shows "\<exists>m. max_thruster_signal fuel program settings = Some m \<and> 0 \<le> m \<and>
           (\<forall>p \<in> set (permutations settings). \<forall>v. amplifier_chain fuel program p 0 = Some v \<longrightarrow> v \<le> m) \<and>
           (m = 0 \<or> (\<exists>p \<in> set (permutations settings). amplifier_chain fuel program p 0 = Some m))"
  unfolding max_thruster_signal_def by (rule fold_max_option[OF assms])

text \<open>C16: in every reachable state of the ring (any interleaving of the instances'
  instructions), each instance's pending queue is a suffix of its initial queue
  followed by all outputs its predecessor has produced so far, in order: the wiring
  loses, duplicates and reorders nothing.\<close>

theorem ring_wiring_fifo:
  assumes "ring_step\<^sup>*\<^sup>* N0 N"
    and "\<forall>k < length N0. loutputs (N0 ! k) = []"
  shows "length N = length N0 \<and>
         (\<forall>j < length N. \<exists>c. c @ linputs (N ! j) =
                               linputs (N0 ! j) @ loutputs (N ! ring_prev (length N) j))"
  using assms(1)
proof (induction rule: rtranclp_induct)
  case base
  then show ?case using assms(2) by (fastforce dest: ring_prev_less)
next
  case (step N N')
  then show ?case
    by (auto elim: ring_step.cases intro: ring_wiring_step[OF step.hyps(2)])
qed

text \<open>The round-robin scheduler is sound for the interleaving semantics: the
  ring it returns is reachable by \<open>ring_step\<close>, and no instance of it can
  execute another instruction.\<close>

theorem ring_run_sound:
  "ring_run fuel N = Some N' \<Longrightarrow>
   ring_step\<^sup>*\<^sup>* N N' \<and> (\<forall>i < length N'. \<forall>s'. list_step (N' ! i) \<noteq> Inr (Stepped s'))"
proof (induction fuel arbitrary: N)
  case 0
  then show ?case by simp
next
  case (Suc fuel)
  obtain N'' b where r: "ring_round [0..<length N] N = (N'', b)" by fastforce
  note sound = ring_round_sound[OF r]
  show ?case
  proof (cases b)
    case True
    then have "ring_run fuel N'' = Some N'" using Suc.prems r by simp
    then have "ring_step\<^sup>*\<^sup>* N'' N' \<and> (\<forall>i < length N'. \<forall>s'. list_step (N' ! i) \<noteq> Inr (Stepped s'))"
      by (rule Suc.IH)
    with sound show ?thesis by (auto intro: rtranclp_trans)
  next
    case False
    then show ?thesis using Suc.prems r sound by auto
  qed
qed

theorem max_thruster_signal_max_witness:
  "permutations [4, 3 :: int] = [[4, 3], [3, 4]]
   \<and> amplifier_chain 50 [3, 15, 3, 16, 1002, 16, 10, 16, 1, 16, 15, 15, 4, 15, 99, 0, 0] [4, 3] 0 = Some 43
   \<and> amplifier_chain 50 [3, 15, 3, 16, 1002, 16, 10, 16, 1, 16, 15, 15, 4, 15, 99, 0, 0] [3, 4] 0 = Some 34
   \<and> max_thruster_signal 50 [3, 15, 3, 16, 1002, 16, 10, 16, 1, 16, 15, 15, 4, 15, 99, 0, 0] [4, 3] = Some 43"
proof -
  have h: "\<forall>p \<in> set (permutations [4, 3]). amplifier_chain 50 [3, 15, 3, 16, 1002, 16, 10, 16, 1, 16, 15, 15, 4, 15, 99, 0, 0] p 0 \<noteq> None"
    by code_simp
  have c: "permutations [4, 3 :: int] = [[4, 3], [3, 4]]"
    "amplifier_chain 50 [3, 15, 3, 16, 1002, 16, 10, 16, 1, 16, 15, 15, 4, 15, 99, 0, 0] [4, 3] 0 = Some 43"
    "amplifier_chain 50 [3, 15, 3, 16, 1002, 16, 10, 16, 1, 16, 15, 15, 4, 15, 99, 0, 0] [3, 4] 0 = Some 34"
    by code_simp+
  obtain m where m: "max_thruster_signal 50 [3, 15, 3, 16, 1002, 16, 10, 16, 1, 16, 15, 15, 4, 15, 99, 0, 0] [4, 3] = Some m"
    "\<forall>p \<in> set (permutations [4, 3]). \<forall>v. amplifier_chain 50 [3, 15, 3, 16, 1002, 16, 10, 16, 1, 16, 15, 15, 4, 15, 99, 0, 0] p 0 = Some v \<longrightarrow> v \<le> m"
    "m = 0 \<or> (\<exists>p \<in> set (permutations [4, 3]). amplifier_chain 50 [3, 15, 3, 16, 1002, 16, 10, 16, 1, 16, 15, 15, 4, 15, 99, 0, 0] p 0 = Some m)"
    using max_thruster_signal_max[OF h] by blast
  have "m = 43" using m(2,3) c by auto
  then show ?thesis using c m(1) by simp
qed

theorem ring_wiring_fifo_witness:
  "ring_step\<^sup>*\<^sup>* [list_send_input (init_list_vm [3, 0, 4, 0, 99]) 7, init_list_vm [3, 0, 4, 0, 99]]
     (ring_update [list_send_input (init_list_vm [3, 0, 4, 0, 99]) 7, init_list_vm [3, 0, 4, 0, 99]] 0
        ((init_list_vm [7, 0, 4, 0, 99])\<lparr>li := 2\<rparr>))
   \<and> loutputs ([list_send_input (init_list_vm [3, 0, 4, 0, 99]) 7, init_list_vm [3, 0, 4, 0, 99]] ! 0) = [] \<and> loutputs ([list_send_input (init_list_vm [3, 0, 4, 0, 99]) 7, init_list_vm [3, 0, 4, 0, 99]] ! 1) = []
   \<and> (\<exists>c. c @ linputs ((ring_update [list_send_input (init_list_vm [3, 0, 4, 0, 99]) 7, init_list_vm [3, 0, 4, 0, 99]] 0
        ((init_list_vm [7, 0, 4, 0, 99])\<lparr>li := 2\<rparr>)) ! 0) =
          linputs ([list_send_input (init_list_vm [3, 0, 4, 0, 99]) 7, init_list_vm [3, 0, 4, 0, 99]] ! 0) @ loutputs ((ring_update [list_send_input (init_list_vm [3, 0, 4, 0, 99]) 7, init_list_vm [3, 0, 4, 0, 99]] 0
        ((init_list_vm [7, 0, 4, 0, 99])\<lparr>li := 2\<rparr>)) ! ring_prev 2 0))
   \<and> (\<exists>c. c @ linputs ((ring_update [list_send_input (init_list_vm [3, 0, 4, 0, 99]) 7, init_list_vm [3, 0, 4, 0, 99]] 0
        ((init_list_vm [7, 0, 4, 0, 99])\<lparr>li := 2\<rparr>)) ! 1) =
          linputs ([list_send_input (init_list_vm [3, 0, 4, 0, 99]) 7, init_list_vm [3, 0, 4, 0, 99]] ! 1) @ loutputs ((ring_update [list_send_input (init_list_vm [3, 0, 4, 0, 99]) 7, init_list_vm [3, 0, 4, 0, 99]] 0
        ((init_list_vm [7, 0, 4, 0, 99])\<lparr>li := 2\<rparr>)) ! ring_prev 2 1))"
proof -
  have s: "list_step ([list_send_input (init_list_vm [3, 0, 4, 0, 99]) 7, init_list_vm [3, 0, 4, 0, 99]] ! 0) = Inr (Stepped ((init_list_vm [7, 0, 4, 0, 99])\<lparr>li := 2\<rparr>))"
    by code_simp
  have r: "ring_step\<^sup>*\<^sup>* [list_send_input (init_list_vm [3, 0, 4, 0, 99]) 7, init_list_vm [3, 0, 4, 0, 99]]
     (ring_update [list_send_input (init_list_vm [3, 0, 4, 0, 99]) 7, init_list_vm [3, 0, 4, 0, 99]] 0
        ((init_list_vm [7, 0, 4, 0, 99])\<lparr>li := 2\<rparr>))"
    by (rule r_into_rtranclp, rule ring_step.step[OF _ s]) simp
  have o: "\<forall>k < length [list_send_input (init_list_vm [3, 0, 4, 0, 99]) 7, init_list_vm [3, 0, 4, 0, 99]]. loutputs ([list_send_input (init_list_vm [3, 0, 4, 0, 99]) 7, init_list_vm [3, 0, 4, 0, 99]] ! k) = []"
    by code_simp
  have "\<forall>j < 2. \<exists>c. c @ linputs ((ring_update [list_send_input (init_list_vm [3, 0, 4, 0, 99]) 7, init_list_vm [3, 0, 4, 0, 99]] 0
        ((init_list_vm [7, 0, 4, 0, 99])\<lparr>li := 2\<rparr>)) ! j) =
          linputs ([list_send_input (init_list_vm [3, 0, 4, 0, 99]) 7, init_list_vm [3, 0, 4, 0, 99]] ! j) @ loutputs ((ring_update [list_send_input (init_list_vm [3, 0, 4, 0, 99]) 7, init_list_vm [3, 0, 4, 0, 99]] 0
        ((init_list_vm [7, 0, 4, 0, 99])\<lparr>li := 2\<rparr>)) ! ring_prev 2 j)"
    using ring_wiring_fifo[OF r o] by (simp add: numeral_2_eq_2)
  then show ?thesis using r o by (simp add: numeral_2_eq_2 All_less_Suc)
qed

theorem ring_run_sound_witness:
  "ring_run 10 [list_send_input (init_list_vm [3, 0, 4, 0, 99]) 7, init_list_vm [3, 0, 4, 0, 99]] = Some (the (ring_run 10 [list_send_input (init_list_vm [3, 0, 4, 0, 99]) 7, init_list_vm [3, 0, 4, 0, 99]]))
   \<and> ring_step\<^sup>*\<^sup>* [list_send_input (init_list_vm [3, 0, 4, 0, 99]) 7, init_list_vm [3, 0, 4, 0, 99]] (the (ring_run 10 [list_send_input (init_list_vm [3, 0, 4, 0, 99]) 7, init_list_vm [3, 0, 4, 0, 99]]))
   \<and> list_step (the (ring_run 10 [list_send_input (init_list_vm [3, 0, 4, 0, 99]) 7, init_list_vm [3, 0, 4, 0, 99]]) ! 0) = Inr Exited
   \<and> list_step (the (ring_run 10 [list_send_input (init_list_vm [3, 0, 4, 0, 99]) 7, init_list_vm [3, 0, 4, 0, 99]]) ! 1) = Inr Exited"
proof -
  have h: "ring_run 10 [list_send_input (init_list_vm [3, 0, 4, 0, 99]) 7, init_list_vm [3, 0, 4, 0, 99]] \<noteq> None"
    "list_step (the (ring_run 10 [list_send_input (init_list_vm [3, 0, 4, 0, 99]) 7, init_list_vm [3, 0, 4, 0, 99]]) ! 0) = Inr Exited"
    "list_step (the (ring_run 10 [list_send_input (init_list_vm [3, 0, 4, 0, 99]) 7, init_list_vm [3, 0, 4, 0, 99]]) ! 1) = Inr Exited"
    by code_simp+
  then have e: "ring_run 10 [list_send_input (init_list_vm [3, 0, 4, 0, 99]) 7, init_list_vm [3, 0, 4, 0, 99]] = Some (the (ring_run 10 [list_send_input (init_list_vm [3, 0, 4, 0, 99]) 7, init_list_vm [3, 0, 4, 0, 99]]))"
    by simp
  then show ?thesis using h ring_run_sound[OF e] by blast
qed

end
