(* ===== verification/Day02.thy ===== *)
theory Day02
  imports Prelude
begin

text \<open>The first interpreter, \<open>run_program\<close> of src/day-02.py (lines 30--51), and
  the search of \<open>main\<close> (lines 8--27). The interpreter walks the list with
  \<open>enumerate\<close> and acts only at the index \<open>next_opcode\<close>; the list is modified in
  place by subscript assignment, which never changes its length, so the walk is the
  index list \<open>[0..<len(values)]\<close> and each iteration reads the current
  \<open>values[i]\<close>. An opcode other than 1, 2, 99 is skipped with \<open>continue\<close> without
  moving \<open>next_opcode\<close>, so every later index is skipped too. Subscripts are Python
  list subscripts (\<open>py_get\<close>, \<open>py_set\<close>: negative indices count from the end, an
  index out of range raises \<open>IndexError\<close>).\<close>

definition PART_2_TARGET_VALUE :: int where
  "PART_2_TARGET_VALUE = 19690720"

text \<open>Lines 37--40 (and 43--46): the three operand words, the two reads, then the
  subscript assignment.\<close>

definition day02_arith :: "int list \<Rightarrow> nat \<Rightarrow> (int \<Rightarrow> int \<Rightarrow> int) \<Rightarrow> error + int list" where
  "day02_arith values i f =
     bind_err (py_get values (int i + 1)) (\<lambda>input1_index.
     bind_err (py_get values (int i + 2)) (\<lambda>input2_index.
     bind_err (py_get values (int i + 3)) (\<lambda>target_index.
     bind_err (py_get values input1_index) (\<lambda>value1.
     bind_err (py_get values input2_index) (\<lambda>value2.
       py_set values target_index (f value1 value2))))))"

text \<open>The \<open>for i, opcode in enumerate(values)\<close> loop (lines 32--51) over the indices
  still to visit.\<close>

fun run_program02_loop :: "int list \<Rightarrow> nat list \<Rightarrow> int \<Rightarrow> error + int list" where
  "run_program02_loop values [] next_opcode = Inr values"
| "run_program02_loop values (i # is) next_opcode =
     (let opcode = values ! i in
      if int i \<noteq> next_opcode then run_program02_loop values is next_opcode
      else if opcode = 1 then
        bind_err (day02_arith values i (+)) (\<lambda>values'. run_program02_loop values' is (int i + 4))
      else if opcode = 2 then
        bind_err (day02_arith values i (*)) (\<lambda>values'. run_program02_loop values' is (int i + 4))
      else if opcode = 99 then Inr values
      else run_program02_loop values is next_opcode)"

definition run_program02 :: "int list \<Rightarrow> error + int list" where
  "run_program02 values = run_program02_loop values [0..<length values] 0"

text \<open>\<open>memory = values[:]; memory[1] = noun; memory[2] = verb; run_program(memory)\<close>
  (lines 13--16 and 21--24).\<close>

definition run_with :: "int list \<Rightarrow> int \<Rightarrow> int \<Rightarrow> error + int list" where
  "run_with values noun verb =
     bind_err (py_set values 1 noun) (\<lambda>memory.
     bind_err (py_set memory 2 verb) (\<lambda>memory.
       run_program02 memory))"

text \<open>Part 1 (lines 13--17): the value printed is \<open>memory[0]\<close>.\<close>

definition day02_part1 :: "int list \<Rightarrow> error + int" where
  "day02_part1 values = bind_err (run_with values 12 2) (\<lambda>memory. py_get memory 0)"

text \<open>Part 2 (lines 19--27): the first pair in the order of the nested loops whose run
  leaves the target at address 0 gives \<open>100 * noun + verb\<close>; an exception in any run
  ends the search with that exception.\<close>

fun day02_search :: "int list \<Rightarrow> (int \<times> int) list \<Rightarrow> error + int option" where
  "day02_search values [] = Inr None"
| "day02_search values ((noun, verb) # rest) =
     bind_err (run_with values noun verb) (\<lambda>memory.
     bind_err (py_get memory 0) (\<lambda>v.
       if v = PART_2_TARGET_VALUE then Inr (Some (100 * noun + verb))
       else day02_search values rest))"

definition day02_part2 :: "int list \<Rightarrow> error + int option" where
  "day02_part2 values =
     day02_search values (List.product (map int [0..<100]) (map int [0..<100]))"

subsection \<open>Part 2\<close>

lemma day02_search_Some:
  "day02_search values ps = Inr (Some r) \<longleftrightarrow>
     (\<exists>k < length ps.
        (\<forall>j < k. \<exists>x. bind_err (run_with values (fst (ps ! j)) (snd (ps ! j))) (\<lambda>memory. py_get memory 0) = Inr x
                    \<and> x \<noteq> PART_2_TARGET_VALUE) \<and>
        bind_err (run_with values (fst (ps ! k)) (snd (ps ! k))) (\<lambda>memory. py_get memory 0) = Inr PART_2_TARGET_VALUE \<and>
        r = 100 * fst (ps ! k) + snd (ps ! k))"
proof (induction ps)
  case Nil
  then show ?case by simp
next
  case (Cons p ps)
  obtain noun verb where p: "p = (noun, verb)" by fastforce
  let ?out = "bind_err (run_with values noun verb) (\<lambda>memory. py_get memory 0)"
  have unf: "day02_search values (p # ps) =
      bind_err ?out (\<lambda>v. if v = PART_2_TARGET_VALUE then Inr (Some (100 * noun + verb)) else day02_search values ps)"
    by (cases "run_with values noun verb") (simp_all add: p)
  show ?case
  proof (cases ?out)
    case (Inl e)
    then show ?thesis unfolding unf by (simp add: Ex_less_Suc2 All_less_Suc2 p)
  next
    case (Inr x)
    show ?thesis
    proof (cases "x = PART_2_TARGET_VALUE")
      case True
      then show ?thesis unfolding unf using Inr by (auto simp: Ex_less_Suc2 All_less_Suc2 p)
    next
      case False
      have "day02_search values (p # ps) = day02_search values ps" unfolding unf using Inr False by simp
      then show ?thesis using Cons.IH Inr False by (simp add: Ex_less_Suc2 All_less_Suc2 p)
    qed
  qed
qed

lemma part2_pairs_nth:
  "k < 10000 \<Longrightarrow> List.product (map int [0..<100]) (map int [0..<100]) ! k = (int k div 100, int k mod 100)"
  by (simp add: product_nth zdiv_int zmod_int)

text \<open>C19: part 2 answers \<open>r\<close> exactly when \<open>r\<close> encodes a pair \<open>(r div 100, r mod 100)\<close>
  of the search range whose run leaves the target at address 0, and every pair before
  it in the order of the nested loops runs without an exception and misses the target.
  The answer \<open>100 * noun + verb\<close> thus determines the pair, and the search stops at
  the first hit.\<close>

theorem day02_part2_first:
  "day02_part2 values = Inr (Some r) \<longleftrightarrow>
     0 \<le> r \<and> r < 10000 \<and>
     bind_err (run_with values (r div 100) (r mod 100)) (\<lambda>memory. py_get memory 0) = Inr PART_2_TARGET_VALUE \<and>
     (\<forall>noun verb. 0 \<le> noun \<longrightarrow> 0 \<le> verb \<longrightarrow> verb < 100 \<longrightarrow> 100 * noun + verb < r \<longrightarrow>
        (\<exists>x. bind_err (run_with values noun verb) (\<lambda>memory. py_get memory 0) = Inr x \<and> x \<noteq> PART_2_TARGET_VALUE))"
  (is "?l \<longleftrightarrow> ?r")
proof
  assume ?l
  then obtain k where k: "k < 10000"
    and before: "\<forall>j < k. \<exists>x. bind_err (run_with values (int j div 100) (int j mod 100)) (\<lambda>memory. py_get memory 0) = Inr x
                    \<and> x \<noteq> PART_2_TARGET_VALUE"
    and hit: "bind_err (run_with values (int k div 100) (int k mod 100)) (\<lambda>memory. py_get memory 0) = Inr PART_2_TARGET_VALUE"
    and r: "r = 100 * (int k div 100) + int k mod 100"
    unfolding day02_part2_def day02_search_Some by (auto simp: part2_pairs_nth)
  have rk: "r = int k" using r by simp
  show ?r
  proof (intro conjI allI impI)
    fix noun verb :: int
    assume "0 \<le> noun" "0 \<le> verb" "verb < 100" "100 * noun + verb < r"
    moreover have "nat (100 * noun + verb) < k" using calculation rk by linarith
    ultimately show "\<exists>x. bind_err (run_with values noun verb) (\<lambda>memory. py_get memory 0) = Inr x \<and> x \<noteq> PART_2_TARGET_VALUE"
      using before[rule_format, of "nat (100 * noun + verb)"] by simp
  qed (use k hit rk in simp_all)
next
  assume ?r
  then have r0: "0 \<le> r" and r1: "r < 10000"
    and hit: "bind_err (run_with values (r div 100) (r mod 100)) (\<lambda>memory. py_get memory 0) = Inr PART_2_TARGET_VALUE"
    and before: "\<forall>noun verb. 0 \<le> noun \<longrightarrow> 0 \<le> verb \<longrightarrow> verb < 100 \<longrightarrow> 100 * noun + verb < r \<longrightarrow>
        (\<exists>x. bind_err (run_with values noun verb) (\<lambda>memory. py_get memory 0) = Inr x \<and> x \<noteq> PART_2_TARGET_VALUE)"
    by auto
  let ?ps = "List.product (map int [0..<100]) (map int [0..<100])"
  have k: "nat r < length ?ps" using r1 by simp
  have "\<forall>j < nat r. \<exists>x. bind_err (run_with values (fst (?ps ! j)) (snd (?ps ! j))) (\<lambda>memory. py_get memory 0) = Inr x
                  \<and> x \<noteq> PART_2_TARGET_VALUE"
  proof (intro allI impI)
    fix j assume j: "j < nat r"
    then have "j < 10000" using r1 by linarith
    moreover have "100 * (int j div 100) + int j mod 100 < r" using j by simp
    ultimately show "\<exists>x. bind_err (run_with values (fst (?ps ! j)) (snd (?ps ! j))) (\<lambda>memory. py_get memory 0) = Inr x
                  \<and> x \<noteq> PART_2_TARGET_VALUE"
      using before[rule_format, of "int j div 100" "int j mod 100"] by (simp add: part2_pairs_nth)
  qed
  moreover have "?ps ! nat r = (r div 100, r mod 100)" using r0 r1 part2_pairs_nth[of "nat r"] by simp
  ultimately show ?l unfolding day02_part2_def day02_search_Some using k hit r0
    by (intro exI[of _ "nat r"]) simp
qed

theorem day02_part2_first_witness:
  "day02_part2 [1, 0, 0, 0, 99, 19690719] = Inr (Some 5)"
proof -
  let ?out = "\<lambda>noun verb. bind_err (run_with [1, 0, 0, 0, 99, 19690719] noun verb) (\<lambda>memory. py_get memory 0)"
  have hit: "?out (5 div 100) (5 mod 100) = Inr PART_2_TARGET_VALUE" by code_simp
  have o: "?out 0 0 = Inr 2" "?out 0 1 = Inr 1" "?out 0 2 = Inr 3" "?out 0 3 = Inr 1" "?out 0 4 = Inr 100"
    by code_simp+
  have miss: "\<exists>x. ?out 0 verb = Inr x \<and> x \<noteq> PART_2_TARGET_VALUE" if "0 \<le> verb" "verb < 5" for verb :: int
  proof -
    from that have "verb = 0 \<or> verb = 1 \<or> verb = 2 \<or> verb = 3 \<or> verb = 4" by arith
    then show ?thesis by (elim disjE) (simp_all add: o PART_2_TARGET_VALUE_def)
  qed
  have "\<forall>noun verb. 0 \<le> noun \<longrightarrow> 0 \<le> verb \<longrightarrow> verb < 100 \<longrightarrow> 100 * noun + verb < (5::int) \<longrightarrow>
          (\<exists>x. ?out noun verb = Inr x \<and> x \<noteq> PART_2_TARGET_VALUE)"
  proof (intro allI impI)
    fix noun verb :: int
    assume "0 \<le> noun" "0 \<le> verb" "verb < 100" "100 * noun + verb < 5"
    moreover from calculation have "noun = 0" by arith
    ultimately show "\<exists>x. ?out noun verb = Inr x \<and> x \<noteq> PART_2_TARGET_VALUE" using miss by simp
  qed
  with hit show ?thesis by (intro day02_part2_first[THEN iffD2]) simp
qed

end
