(* ===== verification/AddMul.thy ===== *)
theory AddMul
  imports Loop
begin

text \<open>The reference semantics of the spec's first testable property: a program that
  uses only ADD, MULTIPLY and HALT, evaluated directly, instruction after instruction
  from address 0, on a list whose every operand address is in range. \<open>addmul_eval\<close>
  is \<open>None\<close> when the program leaves that fragment (another opcode, an operand word
  or an address out of range, or the end of the list without HALT). The generic
  simulation lemma \<open>addmul_simulation\<close> is the interface the machines implement:
  any step function that performs one reference instruction per step and stops at
  HALT reaches the reference result.\<close>

definition addr_ok :: "int list \<Rightarrow> int \<Rightarrow> bool" where
  "addr_ok xs a \<longleftrightarrow> 0 \<le> a \<and> a < int (length xs)"

definition addmul_ok :: "int list \<Rightarrow> nat \<Rightarrow> bool" where
  "addmul_ok xs p \<longleftrightarrow>
     (xs ! p = 1 \<or> xs ! p = 2) \<and> p + 3 < length xs \<and>
     addr_ok xs (xs ! (p + 1)) \<and> addr_ok xs (xs ! (p + 2)) \<and> addr_ok xs (xs ! (p + 3))"

definition addmul_op :: "int list \<Rightarrow> nat \<Rightarrow> int list" where
  "addmul_op xs p =
     xs[nat (xs ! (p + 3)) :=
          (if xs ! p = 1 then xs ! nat (xs ! (p + 1)) + xs ! nat (xs ! (p + 2))
           else xs ! nat (xs ! (p + 1)) * xs ! nat (xs ! (p + 2)))]"

function addmul_eval :: "int list \<Rightarrow> nat \<Rightarrow> int list option" where
  "addmul_eval xs p =
     (if p < length xs \<and> xs ! p = 99 then Some xs
      else if addmul_ok xs p then addmul_eval (addmul_op xs p) (p + 4)
      else None)"
  by pat_completeness auto
termination
  by (relation "measure (\<lambda>(xs, p). length xs - p)") (auto simp: addmul_ok_def addmul_op_def)

declare addmul_eval.simps [simp del]

lemma addmul_eval_halt:
  "p < length xs \<Longrightarrow> xs ! p = 99 \<Longrightarrow> addmul_eval xs p = Some xs"
  by (simp add: addmul_eval.simps)

lemma addmul_eval_op:
  "addmul_ok xs p \<Longrightarrow> addmul_eval xs p = addmul_eval (addmul_op xs p) (p + 4)"
  by (subst addmul_eval.simps) (auto simp: addmul_ok_def)

lemma addmul_eval_SomeE:
  assumes "addmul_eval xs p = Some ys"
  obtains (halt) "p < length xs" "xs ! p = 99" "ys = xs"
    | (op) "addmul_ok xs p" "xs ! p \<noteq> 99" "addmul_eval (addmul_op xs p) (p + 4) = Some ys"
  using assms by (subst (asm) addmul_eval.simps) (auto split: if_splits simp: addmul_ok_def)

lemma length_addmul_op [simp]: "length (addmul_op xs p) = length xs"
  by (simp add: addmul_op_def)

lemma addmul_simulation:
  assumes adv: "\<And>s xs p. R s xs \<Longrightarrow> P s = int p \<Longrightarrow> addmul_ok xs p \<Longrightarrow>
                 \<exists>s'. g s = Inr (Stepped s') \<and> R s' (addmul_op xs p) \<and> P s' = int (p + 4)"
    and stop: "\<And>s xs p. R s xs \<Longrightarrow> P s = int p \<Longrightarrow> p < length xs \<Longrightarrow> xs ! p = 99 \<Longrightarrow>
                 g s = Inr Exited"
  shows "addmul_eval xs p = Some ys \<Longrightarrow> R s xs \<Longrightarrow> P s = int p \<Longrightarrow>
           \<exists>n s'. run_loop g n s = Halted s' \<and> R s' ys"
proof (induction xs p arbitrary: s rule: addmul_eval.induct)
  case (1 xs p)
  from "1.prems"(1) show ?case
  proof (cases rule: addmul_eval_SomeE)
    case halt
    then have "run_loop g (Suc 0) s = Halted s" using stop[OF "1.prems"(2,3) halt(1,2)] by simp
    then show ?thesis using halt(3) "1.prems"(2) by blast
  next
    case o: op
    then obtain s' where s': "g s = Inr (Stepped s')" "R s' (addmul_op xs p)" "P s' = int (p + 4)"
      using adv "1.prems"(2,3) o(1) by blast
    obtain n s'' where "run_loop g n s' = Halted s''" "R s'' ys"
      using "1.IH"[OF _ o(1) o(3) s'(2,3)] o(2) by blast
    then have "run_loop g (Suc n) s = Halted s''" using s'(1) by simp
    then show ?thesis using \<open>R s'' ys\<close> by blast
  qed
qed

end
