(* ===== verification/Refinement.thy ===== *)
theory Refinement
  imports Machine Network Day02 AddMul
begin

text \<open>The refinements of the spec's ADD/MULTIPLY/HALT property by the three revisions
  of the machine: day-02's \<open>run_program\<close>, the dictionary machine of day-09 and
  the list machines of day-07 and day-05 each compute \<open>AddMul.addmul_eval\<close>. The
  machines are connected to the reference by one-step simulation lemmas
  (\<open>step_addmul_sim\<close>, \<open>list_step_addmul_sim\<close>, \<open>run_program05_step_addmul_sim\<close>
  and their HALT counterparts), which instantiate the interface
  \<open>AddMul.addmul_simulation\<close>; day-02 is related directly by computation
  induction.\<close>

subsection \<open>Day 2\<close>

lemma run_program02_skip:
  "\<forall>j \<in> set js. int j \<noteq> nx \<Longrightarrow> run_program02_loop v (js @ rest) nx = run_program02_loop v rest nx"
  by (induction js) auto

lemma upt_split_instr:
  "p + 3 < n \<Longrightarrow> [p..<n] = p # [Suc p, Suc (Suc p), Suc (Suc (Suc p))] @ [p + 4..<n]"
  by (simp add: upt_conv_Cons numeral_eq_Suc)

lemma addmul_ok_nth [simp]:
  "addmul_ok xs p \<Longrightarrow> p < length xs \<and> Suc p < length xs \<and> Suc (Suc p) < length xs \<and>
     Suc (Suc (Suc p)) < length xs"
  by (simp add: addmul_ok_def)

lemma day02_arith_ok:
  "addmul_ok xs p \<Longrightarrow> xs ! p = 1 \<Longrightarrow> day02_arith xs p (+) = Inr (addmul_op xs p)"
  "addmul_ok xs p \<Longrightarrow> xs ! p = 2 \<Longrightarrow> day02_arith xs p (*) = Inr (addmul_op xs p)"
  by (auto simp: day02_arith_def addmul_ok_def addr_ok_def addmul_op_def nat_add_distrib)

lemma addmul_day02:
  "addmul_eval xs p = Some ys \<Longrightarrow> run_program02_loop xs [p..<length xs] (int p) = Inr ys"
proof (induction xs p rule: addmul_eval.induct)
  case (1 xs p)
  from "1.prems" show ?case
  proof (cases rule: addmul_eval_SomeE)
    case halt
    then show ?thesis by (simp add: upt_conv_Cons)
  next
    case op
    have "run_program02_loop xs [p..<length xs] (int p) =
            run_program02_loop (addmul_op xs p) [p + 4..<length (addmul_op xs p)] (int (p + 4))"
      using op(1) day02_arith_ok[OF op(1)]
      by (auto simp: upt_split_instr run_program02_skip addmul_ok_def)
    then show ?thesis using "1.IH"[OF _ op(1) op(3)] op(2) by simp
  qed
qed

subsection \<open>The dictionary machine\<close>

lemma map_update_absent:
  "k \<notin> fst ` set al \<Longrightarrow> map (\<lambda>(k', v'). (k', if k' = k then v else v')) al = al"
  by (induction al) auto

lemma update_alist_map:
  "distinct (map fst al) \<Longrightarrow> k \<in> fst ` set al \<Longrightarrow>
     AList.update k v al = map (\<lambda>(k', v'). (k', if k' = k then v else v')) al"
  by (induction al) (auto simp: map_update_absent)

lemma write_init_memory:
  "addr_ok xs a \<Longrightarrow> write_memory (init_memory xs) a v = init_memory (xs[nat a := v])"
proof -
  assume a: "addr_ok xs a"
  have d: "distinct (map fst (init_memory xs))" using wf_init_memory by (simp add: wf_memory_def)
  have k: "a \<in> fst ` set (init_memory xs)"
    using a by (auto simp: init_memory_def addr_ok_def set_zip image_iff intro!: exI[of _ "nat a"])
  show ?thesis
    unfolding write_memory_def update_alist_map[OF d k]
    using a by (intro nth_equalityI) (auto simp: init_memory_def nth_list_update addr_ok_def)
qed

lemma read_init_memory:
  "addr_ok xs a \<Longrightarrow> read_memory (init_memory xs) a = xs ! nat a"
  by (rule mem_get_read_memory) (simp add: mem_get_init_memory addr_ok_def)

lemma mem_get_init_nth:
  "i < length xs \<Longrightarrow> mem_get (init_memory xs) (int i) = Inr (xs ! i)"
  by (simp add: mem_get_init_memory)

lemma fetch_init_position:
  "p + 3 < length xs \<Longrightarrow> fetch_parameters (init_memory xs) (int p) (Suc 0) 3 0 =
     Inr [\<lparr>param_value = xs ! (p + 1), param_mode = 0\<rparr>,
          \<lparr>param_value = xs ! (p + 2), param_mode = 0\<rparr>,
          \<lparr>param_value = xs ! (p + 3), param_mode = 0\<rparr>]"
  by (simp add: numeral_3_eq_3 mem_get_init_memory nat_add_distrib)

lemma decode_init_addmul:
  assumes ok: "addmul_ok xs p"
  shows "decode (init_memory xs) (int p) =
     Inr (xs ! p, 4, [\<lparr>param_value = xs ! (p + 1), param_mode = 0\<rparr>,
                      \<lparr>param_value = xs ! (p + 2), param_mode = 0\<rparr>,
                      \<lparr>param_value = xs ! (p + 3), param_mode = 0\<rparr>])"
proof -
  have w: "xs ! p = 1 \<or> xs ! p = 2" and l: "p + 3 < length xs" using ok by (simp_all add: addmul_ok_def)
  then have m: "xs ! p mod 100 = xs ! p" "xs ! p div 100 = 0" by auto
  have t: "map_of OPCODE_TO_INST_SIZE (xs ! p) = Some 4" using w by (auto simp: OPCODE_TO_INST_SIZE_def)
  show ?thesis
    unfolding decode_def using l
    by (simp add: mem_get_init_nth m t fetch_init_position Let_def)
qed

lemma decode_init_halt:
  "p < length xs \<Longrightarrow> xs ! p = 99 \<Longrightarrow> decode (init_memory xs) (int p) = Inr (99, 1, [])"
  by (simp add: decode_def mem_get_init_nth OPCODE_TO_INST_SIZE_def)

lemma arith_instr_position:
  assumes "mem s = init_memory xs" "addr_ok xs a" "addr_ok xs b"
  shows "arith_instr s n [\<lparr>param_value = a, param_mode = 0\<rparr>, \<lparr>param_value = b, param_mode = 0\<rparr>,
                         \<lparr>param_value = t, param_mode = 0\<rparr>] f =
           Inr (Stepped (s\<lparr>mem := write_memory (mem s) t (f (xs ! nat a) (xs ! nat b)), pc := pc s + int n\<rparr>))"
  using assms by (simp add: arith_instr_def resolve_parameter_value_def resolve_parameter_target_addr_def
                            read_init_memory)

lemma step_addmul_sim:
  assumes m: "mem s = init_memory xs" and pc: "pc s = int p" and ok: "addmul_ok xs p"
  shows "\<exists>s'. step s = Inr (Stepped s') \<and> mem s' = init_memory (addmul_op xs p) \<and> pc s' = int (p + 4)"
proof -
  let ?ps = "[\<lparr>param_value = xs ! (p + 1), param_mode = 0::int\<rparr>,
              \<lparr>param_value = xs ! (p + 2), param_mode = 0::int\<rparr>,
              \<lparr>param_value = xs ! (p + 3), param_mode = 0::int\<rparr>]"
  have st: "step s = execute s (xs ! p) 4 ?ps"
    using m pc ok decode_init_addmul[OF ok] by (intro step_decoded) simp_all
  have a: "addr_ok xs (xs ! (p + 1))" "addr_ok xs (xs ! (p + 2))" and t: "addr_ok xs (xs ! (p + 3))"
    using ok by (simp_all add: addmul_ok_def)
  consider "xs ! p = 1" | "xs ! p = 2" using ok by (auto simp: addmul_ok_def)
  then show ?thesis
  proof cases
    case 1
    then have "step s = arith_instr s 4 ?ps (+)" using st by (simp add: execute_def)
    then show ?thesis using arith_instr_position[OF m a] m pc 1
      by (simp add: write_init_memory[OF t] addmul_op_def)
  next
    case 2
    then have "step s = arith_instr s 4 ?ps (*)" using st by (simp add: execute_def)
    then show ?thesis using arith_instr_position[OF m a] m pc 2
      by (simp add: write_init_memory[OF t] addmul_op_def)
  qed
qed

lemma step_halt_sim:
  "mem s = init_memory xs \<Longrightarrow> pc s = int p \<Longrightarrow> p < length xs \<Longrightarrow> xs ! p = 99 \<Longrightarrow> step s = Inr Exited"
  by (subst step_decoded[where opcode = 99 and n = 1 and ps = "[]"]) (simp_all add: decode_init_halt execute_def)

subsection \<open>The list machines\<close>

lemma fetch_list_position:
  "p + 3 < length xs \<Longrightarrow> fetch_list_parameters xs (int p) (Suc 0) 3 0 =
     Inr [\<lparr>param_value = xs ! (p + 1), param_mode = 0\<rparr>,
          \<lparr>param_value = xs ! (p + 2), param_mode = 0\<rparr>,
          \<lparr>param_value = xs ! (p + 3), param_mode = 0\<rparr>]"
  by (simp add: numeral_3_eq_3 nat_add_distrib)

lemma list_decode_addmul:
  assumes ok: "addmul_ok xs p"
  shows "list_decode xs (int p) =
     Inr (xs ! p, 4, [\<lparr>param_value = xs ! (p + 1), param_mode = 0\<rparr>,
                      \<lparr>param_value = xs ! (p + 2), param_mode = 0\<rparr>,
                      \<lparr>param_value = xs ! (p + 3), param_mode = 0\<rparr>])"
proof -
  have w: "xs ! p = 1 \<or> xs ! p = 2" and l: "p + 3 < length xs" using ok by (simp_all add: addmul_ok_def)
  then have m: "xs ! p mod 100 = xs ! p" "xs ! p div 100 = 0" by auto
  have t: "map_of OPCODE_TO_INST_SIZE_LIST (xs ! p) = Some 4"
    using w by (auto simp: OPCODE_TO_INST_SIZE_LIST_def)
  show ?thesis
    unfolding list_decode_def using l
    by (simp add: m t fetch_list_position Let_def)
qed

lemma list_decode_halt:
  "p < length xs \<Longrightarrow> xs ! p = 99 \<Longrightarrow> list_decode xs (int p) = Inr (99, 1, [])"
  by (simp add: list_decode_def OPCODE_TO_INST_SIZE_LIST_def)

lemma list_arith_position:
  assumes "lmemory s = xs" "addr_ok xs a" "addr_ok xs b" "addr_ok xs t"
  shows "list_arith s n [\<lparr>param_value = a, param_mode = 0\<rparr>, \<lparr>param_value = b, param_mode = 0\<rparr>,
                        \<lparr>param_value = t, param_mode = 0\<rparr>] f =
           Inr (Stepped (s\<lparr>lmemory := xs[nat t := f (xs ! nat a) (xs ! nat b)], li := li s + int n\<rparr>))"
  using assms by (simp add: list_arith_def list_resolve_def addr_ok_def)

lemma list_addmul_sim:
  assumes m: "lmemory s = xs" and pc: "li s = int p" and ok: "addmul_ok xs p"
    and ex: "\<And>ps. exec s 1 4 ps = list_arith s 4 ps (+)" "\<And>ps. exec s 2 4 ps = list_arith s 4 ps (*)"
  shows "\<exists>s'. (if li s < int (length (lmemory s))
               then bind_err (list_decode (lmemory s) (li s)) (\<lambda>(opcode, inst_size, parameters).
                      exec s opcode inst_size parameters)
               else Inr Exited) = Inr (Stepped s') \<and>
             lmemory s' = addmul_op xs p \<and> li s' = int (p + 4)"
proof -
  have a: "addr_ok xs (xs ! (p + 1))" "addr_ok xs (xs ! (p + 2))" "addr_ok xs (xs ! (p + 3))"
    and l: "p < length xs"
    using ok by (simp_all add: addmul_ok_def)
  consider "xs ! p = 1" | "xs ! p = 2" using ok by (auto simp: addmul_ok_def)
  then show ?thesis
    by cases (use m pc l list_decode_addmul[OF ok] list_arith_position[OF m a] in
              \<open>simp_all add: ex addmul_op_def\<close>)
qed

lemma list_step_addmul_sim:
  "lmemory s = xs \<Longrightarrow> li s = int p \<Longrightarrow> addmul_ok xs p \<Longrightarrow>
     \<exists>s'. list_step s = Inr (Stepped s') \<and> lmemory s' = addmul_op xs p \<and> li s' = int (p + 4)"
  unfolding list_step_def by (rule list_addmul_sim) (simp_all add: list_execute_def)

lemma run_program05_step_addmul_sim:
  "lmemory s = xs \<Longrightarrow> li s = int p \<Longrightarrow> addmul_ok xs p \<Longrightarrow>
     \<exists>s'. run_program05_step s = Inr (Stepped s') \<and> lmemory s' = addmul_op xs p \<and> li s' = int (p + 4)"
  unfolding run_program05_step_def by (rule list_addmul_sim) (simp_all add: run_program05_execute_def)

lemma list_step_halt_sim:
  "lmemory s = xs \<Longrightarrow> li s = int p \<Longrightarrow> p < length xs \<Longrightarrow> xs ! p = 99 \<Longrightarrow> list_step s = Inr Exited"
  by (simp add: list_step_def list_decode_halt list_execute_def)

lemma run_program05_step_halt_sim:
  "lmemory s = xs \<Longrightarrow> li s = int p \<Longrightarrow> p < length xs \<Longrightarrow> xs ! p = 99 \<Longrightarrow>
     run_program05_step s = Inr Exited"
  by (simp add: run_program05_step_def list_decode_halt run_program05_execute_def)

subsection \<open>Properties\<close>

text \<open>C15: day-02's \<open>run_program\<close>, which walks the list with \<open>enumerate\<close> and
  skips to \<open>next_opcode\<close>, computes the direct evaluation of every ADD/MULTIPLY/HALT
  program whose operands are in range.\<close>

theorem addmul_day02_refines:
  "AddMul.addmul_eval xs 0 = Some ys \<Longrightarrow> run_program02 xs = Inr ys"
  using addmul_day02[of xs 0 ys] by (simp add: run_program02_def)

text \<open>C13: the dictionary machine of day-09 halts on every such program, with enough
  fuel, and its memory is then the dictionary of the directly evaluated list.\<close>

theorem addmul_day09_refines:
  assumes "AddMul.addmul_eval xs 0 = Some ys"
  shows "\<exists>n s. run n (init_vm xs) = Halted s \<and> mem s = init_memory ys"
  unfolding run_def
  by (rule addmul_simulation[where R = "\<lambda>(s::vm) xs. mem s = init_memory xs" and P = pc])
     (fact step_addmul_sim step_halt_sim assms | simp add: init_vm_def)+

text \<open>C14: the list machines of day-07 and day-05 halt on every such program, with
  enough fuel, and leave the directly evaluated list in memory.\<close>

theorem addmul_list_refines:
  assumes "AddMul.addmul_eval xs 0 = Some ys"
  shows "(\<exists>n s. list_run n (init_list_vm xs) = Halted s \<and> lmemory s = ys) \<and>
         (\<exists>n s. run_program05 n xs stdin = Halted s \<and> lmemory s = ys)"
proof
  show "\<exists>n s. list_run n (init_list_vm xs) = Halted s \<and> lmemory s = ys"
    unfolding list_run_def
    by (rule addmul_simulation[where R = "\<lambda>(s::list_vm) xs. lmemory s = xs" and P = li])
       (fact list_step_addmul_sim list_step_halt_sim assms | simp add: init_list_vm_def)+
  show "\<exists>n s. run_program05 n xs stdin = Halted s \<and> lmemory s = ys"
    unfolding run_program05_def
    by (rule addmul_simulation[where R = "\<lambda>(s::list_vm) xs. lmemory s = xs" and P = li])
       (fact run_program05_step_addmul_sim run_program05_step_halt_sim assms | simp add: init_list_vm_def)+
qed

theorem addmul_day02_refines_witness:
  "AddMul.addmul_eval [1, 9, 10, 3, 2, 3, 11, 0, 99, 30, 40, 50] 0 = Some [3500, 9, 10, 70, 2, 3, 11, 0, 99, 30, 40, 50]
   \<and> run_program02 [1, 9, 10, 3, 2, 3, 11, 0, 99, 30, 40, 50] = Inr [3500, 9, 10, 70, 2, 3, 11, 0, 99, 30, 40, 50]"
proof -
  have h: "AddMul.addmul_eval [1, 9, 10, 3, 2, 3, 11, 0, 99, 30, 40, 50] 0 =
             Some [3500, 9, 10, 70, 2, 3, 11, 0, 99, 30, 40, 50]" by code_simp
  show ?thesis using h addmul_day02_refines[OF h] by simp
qed

theorem addmul_day09_refines_witness:
  "AddMul.addmul_eval [1, 9, 10, 3, 2, 3, 11, 0, 99, 30, 40, 50] 0 = Some [3500, 9, 10, 70, 2, 3, 11, 0, 99, 30, 40, 50]
   \<and> (\<exists>n s. run n (init_vm [1, 9, 10, 3, 2, 3, 11, 0, 99, 30, 40, 50]) = Halted s \<and>
         mem s = init_memory [3500, 9, 10, 70, 2, 3, 11, 0, 99, 30, 40, 50])"
proof -
  have h: "AddMul.addmul_eval [1, 9, 10, 3, 2, 3, 11, 0, 99, 30, 40, 50] 0 =
             Some [3500, 9, 10, 70, 2, 3, 11, 0, 99, 30, 40, 50]" by code_simp
  show ?thesis using h addmul_day09_refines[OF h] by simp
qed

theorem addmul_list_refines_witness:
  "AddMul.addmul_eval [1, 9, 10, 3, 2, 3, 11, 0, 99, 30, 40, 50] 0 = Some [3500, 9, 10, 70, 2, 3, 11, 0, 99, 30, 40, 50]
   \<and> (\<exists>n s. list_run n (init_list_vm [1, 9, 10, 3, 2, 3, 11, 0, 99, 30, 40, 50]) = Halted s \<and>
         lmemory s = [3500, 9, 10, 70, 2, 3, 11, 0, 99, 30, 40, 50])
   \<and> (\<exists>n s. run_program05 n [1, 9, 10, 3, 2, 3, 11, 0, 99, 30, 40, 50] [] = Halted s \<and>
         lmemory s = [3500, 9, 10, 70, 2, 3, 11, 0, 99, 30, 40, 50])"
proof -
  have h: "AddMul.addmul_eval [1, 9, 10, 3, 2, 3, 11, 0, 99, 30, 40, 50] 0 =
             Some [3500, 9, 10, 70, 2, 3, 11, 0, 99, 30, 40, 50]" by code_simp
  show ?thesis using h addmul_list_refines[OF h, of "[]"] by simp
qed

end
