(* ===== verification/Robot.thy ===== *)
theory Robot
  imports Machine
begin

text \<open>The painting robot of src/day-11.py. Its machine is the day-09 class
  verbatim (lines 46--175), so the dictionary machine of \<open>Machine\<close> is reused.
  \<open>main\<close> (lines 178--242) installs \<open>handle_computer_output\<close> (lines 189--221) as
  output handler: the handler runs inside the machine's thread, during OUTPUT, and
  its \<open>computer.send_input\<close> feeds the same machine's queue. The handler's
  \<open>nonlocal\<close> variables are the record \<open>robot\<close>; \<open>robot_step\<close> is one instruction of
  the thread followed by the handler on the value it emitted. The first input, sent by
  \<open>main\<close> right after \<open>start_program\<close>, is modelled as queued before the first
  instruction (the thread cannot consume it earlier, and the handler sends nothing
  before the program's second output).\<close>

abbreviation (input) DIRECTION_UP :: int where "DIRECTION_UP \<equiv> 0"
abbreviation (input) DIRECTION_RIGHT :: int where "DIRECTION_RIGHT \<equiv> 1"
abbreviation (input) DIRECTION_DOWN :: int where "DIRECTION_DOWN \<equiv> 2"
abbreviation (input) DIRECTION_LEFT :: int where "DIRECTION_LEFT \<equiv> 3"

type_synonym point = "int \<times> int"

record robot =
  white_panels :: "point set"
  white_panels_all :: "point set"
  robot_location :: point
  robot_direction :: int
  is_output_for_color :: bool

text \<open>Lines 183--187 (and 231--234 for part 2).\<close>

definition init_robot :: "point set \<Rightarrow> robot" where
  "init_robot panels =
     \<lparr>white_panels = panels, white_panels_all = {}, robot_location = (0, 0),
      robot_direction = DIRECTION_UP, is_output_for_color = True\<rparr>"

text \<open>Lines 207--214: one unit in the robot's direction.\<close>

definition move :: "int \<Rightarrow> point \<Rightarrow> point" where
  "move d p =
     (case p of (x, y) \<Rightarrow>
        if d = DIRECTION_UP then (x, y + 1)
        else if d = DIRECTION_RIGHT then (x + 1, y)
        else if d = DIRECTION_DOWN then (x, y - 1)
        else if d = DIRECTION_LEFT then (x - 1, y)
        else (x, y))"

text \<open>\<open>handle_computer_output\<close> (lines 189--221); the list returned holds the values
  the handler passes to \<open>computer.send_input\<close>.\<close>

definition handle_robot_output :: "robot \<Rightarrow> int \<Rightarrow> robot \<times> int list" where
  "handle_robot_output r output =
     (if is_output_for_color r then
        ((if output = 0 then r\<lparr>white_panels := white_panels r - {robot_location r}\<rparr>
          else if output = 1 then
            r\<lparr>white_panels := insert (robot_location r) (white_panels r),
              white_panels_all := insert (robot_location r) (white_panels_all r)\<rparr>
          else r)\<lparr>is_output_for_color := False\<rparr>, [])
      else
        (let direction = (if output = 0 then (robot_direction r - 1) mod 4
                          else if output = 1 then (robot_direction r + 1) mod 4
                          else robot_direction r);
             location = move direction (robot_location r)
         in (r\<lparr>robot_direction := direction, robot_location := location,
               is_output_for_color := True\<rparr>,
             [if location \<in> white_panels r then 1 else 0])))"

fun handle_robot_outputs :: "robot \<Rightarrow> int list \<Rightarrow> robot \<times> int list" where
  "handle_robot_outputs r [] = (r, [])"
| "handle_robot_outputs r (v # vs) =
     (let (r1, sent1) = handle_robot_output r v;
          (r2, sent2) = handle_robot_outputs r1 vs
      in (r2, sent1 @ sent2))"

text \<open>One instruction of the thread, then the handler on what it emitted.\<close>

definition robot_step :: "vm \<times> robot \<Rightarrow> error + (vm \<times> robot) step_result" where
  "robot_step sr =
     (case sr of (s, r) \<Rightarrow>
        (case step s of
           Inl e \<Rightarrow> Inl e
         | Inr (Stepped s') \<Rightarrow>
             (case handle_robot_outputs r (drop (length (outputs s)) (outputs s')) of
                (r', sends) \<Rightarrow> Inr (Stepped (foldl vm_send_input s' sends, r')))
         | Inr Blocked \<Rightarrow> Inr Blocked
         | Inr Exited \<Rightarrow> Inr Exited))"

text \<open>\<open>start_program\<close>, \<open>send_input(first)\<close>, \<open>wait_for_exit\<close>: the thread is a daemon,
  so an exception ends it and \<open>main\<close> goes on; a thread parked forever never lets the
  join loop end.\<close>

definition robot_run :: "nat \<Rightarrow> int list \<Rightarrow> point set \<Rightarrow> int \<Rightarrow> (vm \<times> robot) option" where
  "robot_run fuel program panels first =
     (case run_loop robot_step fuel (vm_send_input (init_vm program) first, init_robot panels) of
        Halted sr \<Rightarrow> Some sr
      | Crashed e sr \<Rightarrow> Some sr
      | _ \<Rightarrow> None)"

text \<open>Part 1 (lines 182--228): the number of panels painted white at least once.\<close>

definition robot_part1 :: "nat \<Rightarrow> int list \<Rightarrow> nat option" where
  "robot_part1 fuel program =
     map_option (\<lambda>(s, r). card (white_panels_all r)) (robot_run fuel program {} 0)"

text \<open>Part 2 (lines 230--242): the white panels, starting on a white panel.\<close>

definition robot_part2 :: "nat \<Rightarrow> int list \<Rightarrow> point set option" where
  "robot_part2 fuel program =
     map_option (\<lambda>(s, r). white_panels r) (robot_run fuel program {(0, 0)} 1)"

text \<open>The handler's invariant: the direction stays one of the four constants, and
  every white panel is an initial one or was painted white.\<close>

definition robot_inv :: "point set \<Rightarrow> robot \<Rightarrow> bool" where
  "robot_inv P r \<longleftrightarrow>
     0 \<le> robot_direction r \<and> robot_direction r < 4 \<and> white_panels r \<subseteq> white_panels_all r \<union> P"

lemma handle_robot_output_inv:
  "robot_inv P r \<Longrightarrow> robot_inv P (fst (handle_robot_output r v))"
  by (auto simp: handle_robot_output_def robot_inv_def Let_def)

lemma handle_robot_outputs_inv:
  "robot_inv P r \<Longrightarrow> robot_inv P (fst (handle_robot_outputs r vs))"
proof (induction vs arbitrary: r)
  case Nil
  then show ?case by simp
next
  case (Cons v vs)
  then show ?case
    using handle_robot_output_inv[OF Cons.prems, of v]
    by (auto split: prod.split dest: Cons.IH)
qed

lemma robot_step_inv:
  "robot_step (s, r) = Inr (Stepped (s', r')) \<Longrightarrow> robot_inv P r \<Longrightarrow> robot_inv P r'"
proof -
  assume h: "robot_step (s, r) = Inr (Stepped (s', r'))" and i: "robot_inv P r"
  obtain s1 where "step s = Inr (Stepped s1)"
    and "r' = fst (handle_robot_outputs r (drop (length (outputs s)) (outputs s1)))"
    using h by (auto simp: robot_step_def split: sum.splits step_result.splits prod.splits)
  then show ?thesis using handle_robot_outputs_inv[OF i] by simp
qed

text \<open>C35: on every run of the robot, from a state satisfying the invariant, the
  direction stays in 0..3 and the white panels stay within the initial and the
  painted ones.\<close>

theorem robot_invariant:
  "robot_inv P (snd sr) \<Longrightarrow> robot_inv P (snd (state_of (run_loop robot_step n sr)))"
  using run_loop_induct_rel[where R = "\<lambda>x y. robot_inv P (snd x) \<longrightarrow> robot_inv P (snd y)"]
  by (metis prod.collapse robot_step_inv)

theorem robot_invariant_witness:
  "robot_inv {} (snd (vm_send_input (init_vm [104, 1, 104, 0, 3, 100, 99]) 0, init_robot {}))
   \<and> robot_inv {} (snd (state_of (run_loop robot_step 20
        (vm_send_input (init_vm [104, 1, 104, 0, 3, 100, 99]) 0, init_robot {}))))"
proof -
  have h: "robot_inv {} (snd (vm_send_input (init_vm [104, 1, 104, 0, 3, 100, 99]) 0, init_robot {}))"
    by (simp add: robot_inv_def init_robot_def)
  show ?thesis using h robot_invariant[OF h] by simp
qed

end
