(* ===== verification/Arcade.thy ===== *)
theory Arcade
  imports Machine
begin

text \<open>The arcade cabinet of src/day-13.py. The machine is the day-09 class with one
  addition, the flag \<open>__is_waiting_for_input\<close> (lines 51, 150--161): it is set while
  \<open>__get_next_input\<close> waits on an empty queue and cleared once the thread has
  woken up and left the wait loop. \<open>handle_computer_output\<close> (lines 193--218)
  decodes the output triples x, y, tile (or the score when x = -1, y = 0). The
  controller loop of part 2 (lines 234--242) polls \<open>has_exited()\<close> and
  \<open>waiting_for_input()\<close> from the main thread, without the queue's lock, and sends
  the joystick position. The two threads are the interleaving relation
  \<open>cabinet_step\<close>: the machine's thread executes an instruction, parks, or ends; the
  controller, whenever it sees the flag set, sends.\<close>

abbreviation (input) TILE_EMPTY :: int where "TILE_EMPTY \<equiv> 0"
abbreviation (input) TILE_WALL :: int where "TILE_WALL \<equiv> 1"
abbreviation (input) TILE_BLOCK :: int where "TILE_BLOCK \<equiv> 2"
abbreviation (input) TILE_PADDLE :: int where "TILE_PADDLE \<equiv> 3"
abbreviation (input) TILE_BALL :: int where "TILE_BALL \<equiv> 4"

text \<open>The handler's \<open>nonlocal\<close> variables (lines 190--192); \<open>tiles\<close> is a dictionary
  from points to tile ids.\<close>

record arcade =
  tiles :: "((int \<times> int) \<times> int) list"
  output_num :: int
  ax :: int
  ay :: int
  tile_id :: int
  score :: int
  ball_x :: int
  paddle_x :: int

definition init_arcade :: arcade where
  "init_arcade =
     \<lparr>tiles = [], output_num = 0, ax = 0, ay = 0, tile_id = 0, score = 0, ball_x = 0, paddle_x = 0\<rparr>"

definition handle_arcade_output :: "arcade \<Rightarrow> int \<Rightarrow> arcade" where
  "handle_arcade_output a output =
     (if output_num a = 0 then a\<lparr>ax := output\<rparr>
      else if output_num a = 1 then a\<lparr>ay := output\<rparr>
      else if ax a = -1 \<and> ay a = 0 then a\<lparr>score := output\<rparr>
      else
        (let a1 = a\<lparr>tile_id := output\<rparr>;
             a2 = (if output = TILE_BALL then a1\<lparr>ball_x := ax a\<rparr>
                   else if output = TILE_PADDLE then a1\<lparr>paddle_x := ax a\<rparr> else a1)
         in a2\<lparr>tiles := AList.update (ax a, ay a) output (tiles a)\<rparr>))
     \<lparr>output_num := (output_num a + 1) mod 3\<rparr>"

text \<open>Lines 236--241: the joystick follows the ball.\<close>

definition joystick :: "arcade \<Rightarrow> int" where
  "joystick a = (if ball_x a < paddle_x a then -1 else if ball_x a > paddle_x a then 1 else 0)"

text \<open>Line 225: the number of block tiles on the screen.\<close>

definition block_count :: "arcade \<Rightarrow> nat" where
  "block_count a = length (filter (\<lambda>(p, t). t = TILE_BLOCK) (tiles a))"

text \<open>The machine object with its thread: the day-09 state, the flag, whether the
  thread is alive, and the handler's state.\<close>

record cabinet =
  cpu :: vm
  waiting :: bool
  alive :: bool
  screen :: arcade

definition init_cabinet :: "int list \<Rightarrow> cabinet" where
  "init_cabinet program =
     \<lparr>cpu = init_vm program, waiting = False, alive = True, screen = init_arcade\<rparr>"

inductive cabinet_step :: "cabinet \<Rightarrow> cabinet \<Rightarrow> bool" where
  run: "alive c \<Longrightarrow> step (cpu c) = Inr (Stepped s') \<Longrightarrow>
        cabinet_step c (c\<lparr>cpu := s', waiting := False,
          screen := foldl handle_arcade_output (screen c) (drop (length (outputs (cpu c))) (outputs s'))\<rparr>)"
| park: "alive c \<Longrightarrow> step (cpu c) = Inr Blocked \<Longrightarrow> cabinet_step c (c\<lparr>waiting := True\<rparr>)"
| halt: "alive c \<Longrightarrow> step (cpu c) = Inr Exited \<Longrightarrow> cabinet_step c (c\<lparr>alive := False\<rparr>)"
| crash: "alive c \<Longrightarrow> step (cpu c) = Inl e \<Longrightarrow> cabinet_step c (c\<lparr>alive := False\<rparr>)"
| control: "alive c \<Longrightarrow> waiting c \<Longrightarrow>
            cabinet_step c (c\<lparr>cpu := vm_send_input (cpu c) (joystick (screen c))\<rparr>)"

text \<open>Part 1 (lines 220--226): the program runs without input to its end.\<close>

definition arcade_part1 :: "nat \<Rightarrow> int list \<Rightarrow> nat option" where
  "arcade_part1 fuel program =
     (case run fuel (init_vm program) of
        Halted s \<Rightarrow> Some (block_count (foldl handle_arcade_output init_arcade (outputs s)))
      | Crashed e s \<Rightarrow> Some (block_count (foldl handle_arcade_output init_arcade (outputs s)))
      | _ \<Rightarrow> None)"

text \<open>Part 2 (lines 228--233): \<open>memory[0] = 2\<close> and a new machine; the handler and
  its variables are those of part 1.\<close>

definition arcade_part2_start :: "int list \<Rightarrow> arcade \<Rightarrow> error + cabinet" where
  "arcade_part2_start input_values a =
     bind_err (py_set input_values 0 2) (\<lambda>memory. Inr ((init_cabinet memory)\<lparr>screen := a\<rparr>))"

text \<open>The schedule the controller loop is written for (lines 234--242): the thread
  runs until it parks, the controller then sends one joystick value, and the loop
  ends when the thread has ended. With fuel.\<close>

fun arcade_play :: "nat \<Rightarrow> cabinet \<Rightarrow> cabinet option" where
  "arcade_play 0 c = None"
| "arcade_play (Suc n) c =
     (if \<not> alive c then Some c
      else case step (cpu c) of
        Inl e \<Rightarrow> Some (c\<lparr>alive := False\<rparr>)
      | Inr Exited \<Rightarrow> Some (c\<lparr>alive := False\<rparr>)
      | Inr (Stepped s') \<Rightarrow>
          arcade_play n (c\<lparr>cpu := s', waiting := False,
            screen := foldl handle_arcade_output (screen c) (drop (length (outputs (cpu c))) (outputs s'))\<rparr>)
      | Inr Blocked \<Rightarrow>
          arcade_play n (c\<lparr>waiting := True, cpu := vm_send_input (cpu c) (joystick (screen c))\<rparr>))"

subsection \<open>Lemmas\<close>

lemma vm_send_input_frame [simp]:
  "mem (vm_send_input s v) = mem s" "pc (vm_send_input s v) = pc s"
  "relative_base (vm_send_input s v) = relative_base s" "outputs (vm_send_input s v) = outputs s"
  by (simp_all add: vm_send_input_def)

lemma handle_arcade_output_num:
  "0 \<le> output_num (handle_arcade_output a v) \<and> output_num (handle_arcade_output a v) < 3"
  by (simp add: handle_arcade_output_def Let_def)

lemma cabinet_waiting_at_input:
  "cabinet_step\<^sup>*\<^sup>* (init_cabinet p) c \<Longrightarrow> waiting c \<Longrightarrow> alive c \<Longrightarrow>
     pc (cpu c) < int (mem_len (mem (cpu c))) \<and> (\<exists>n ps. decode (mem (cpu c)) (pc (cpu c)) = Inr (INPUT, n, ps))"
proof (induction rule: rtranclp_induct)
  case base
  then show ?case by (simp add: init_cabinet_def)
next
  case (step c c')
  from step.hyps(2) step.prems step.IH show ?case
    by (cases rule: cabinet_step.cases) (auto dest: step_Blocked)
qed

lemma arcade_play_sound:
  "arcade_play n c = Some c' \<Longrightarrow> cabinet_step\<^sup>*\<^sup>* c c'"
proof (induction n c rule: arcade_play.induct)
  case (1 c)
  then show ?case by simp
next
  case (2 n c)
  show ?case
  proof (cases "alive c")
    case False
    then show ?thesis using "2.prems" by simp
  next
    case True
    show ?thesis
    proof (cases "step (cpu c)")
      case (Inl e)
      then show ?thesis using "2.prems" True by (auto intro: cabinet_step.crash)
    next
      case (Inr r)
      then show ?thesis
      proof (cases r)
        case (Stepped s')
        then show ?thesis using "2.prems" "2.IH"(1) True Inr
          by (auto intro: converse_rtranclp_into_rtranclp cabinet_step.run)
      next
        case Blocked
        have "cabinet_step c (c\<lparr>waiting := True\<rparr>)" using True Inr Blocked by (auto intro: cabinet_step.park)
        moreover have "cabinet_step (c\<lparr>waiting := True\<rparr>)
            (c\<lparr>waiting := True, cpu := vm_send_input (cpu c) (joystick (screen c))\<rparr>)"
          using True cabinet_step.control[of "c\<lparr>waiting := True\<rparr>"] by simp
        ultimately show ?thesis using "2.prems" "2.IH"(2) True Inr Blocked
          by (auto intro: converse_rtranclp_into_rtranclp)
      next
        case Exited
        then show ?thesis using "2.prems" True Inr by (auto intro: cabinet_step.halt)
      qed
    qed
  qed
qed

subsection \<open>Properties\<close>

text \<open>C36: the flag is set only at an INPUT instruction, but it stays set after the
  controller has sent until the machine's thread wakes up, so from every reachable
  parked state the controller can queue a second joystick value for the same INPUT;
  the surplus value is consumed by a later INPUT, with a stale ball position.\<close>

theorem controller_double_send:
  assumes "cabinet_step\<^sup>*\<^sup>* (init_cabinet p) c" and "waiting c" and "alive c"
  shows "(\<exists>n ps. decode (mem (cpu c)) (pc (cpu c)) = Inr (INPUT, n, ps)) \<and>
         cabinet_step\<^sup>*\<^sup>* (init_cabinet p)
           (c\<lparr>cpu := vm_send_input (vm_send_input (cpu c) (joystick (screen c))) (joystick (screen c))\<rparr>)"
proof
  show "\<exists>n ps. decode (mem (cpu c)) (pc (cpu c)) = Inr (INPUT, n, ps)"
    using cabinet_waiting_at_input[OF assms] by blast
  have "cabinet_step c (c\<lparr>cpu := vm_send_input (cpu c) (joystick (screen c))\<rparr>)"
    by (rule cabinet_step.control[OF assms(3,2)])
  moreover have "cabinet_step (c\<lparr>cpu := vm_send_input (cpu c) (joystick (screen c))\<rparr>)
      (c\<lparr>cpu := vm_send_input (vm_send_input (cpu c) (joystick (screen c))) (joystick (screen c))\<rparr>)"
    using assms(2,3) cabinet_step.control[of "c\<lparr>cpu := vm_send_input (cpu c) (joystick (screen c))\<rparr>"]
    by simp
  ultimately show "cabinet_step\<^sup>*\<^sup>* (init_cabinet p)
      (c\<lparr>cpu := vm_send_input (vm_send_input (cpu c) (joystick (screen c))) (joystick (screen c))\<rparr>)"
    using assms(1) by (meson rtranclp.rtrancl_into_rtrancl)
qed

theorem controller_double_send_witness:
  "cabinet_step\<^sup>*\<^sup>* (init_cabinet [3, 100, 99]) ((init_cabinet [3, 100, 99])\<lparr>waiting := True\<rparr>)
   \<and> (\<exists>n ps. decode (mem (cpu (init_cabinet [3, 100, 99]))) (pc (cpu (init_cabinet [3, 100, 99]))) = Inr (INPUT, n, ps))
   \<and> cabinet_step\<^sup>*\<^sup>* (init_cabinet [3, 100, 99])
       ((init_cabinet [3, 100, 99])\<lparr>waiting := True,
          cpu := vm_send_input (vm_send_input (init_vm [3, 100, 99]) 0) 0\<rparr>)"
proof -
  have b: "step (cpu (init_cabinet [3, 100, 99])) = Inr Blocked" by code_simp
  have r: "cabinet_step\<^sup>*\<^sup>* (init_cabinet [3, 100, 99]) ((init_cabinet [3, 100, 99])\<lparr>waiting := True\<rparr>)"
    by (rule r_into_rtranclp, rule cabinet_step.park[OF _ b]) (simp add: init_cabinet_def)
  have w: "waiting ((init_cabinet [3, 100, 99])\<lparr>waiting := True\<rparr>)" "alive ((init_cabinet [3, 100, 99])\<lparr>waiting := True\<rparr>)"
    by (simp_all add: init_cabinet_def)
  have j: "joystick (screen (init_cabinet [3, 100, 99])) = 0" by code_simp
  show ?thesis using controller_double_send[OF r w] r j by (simp add: init_cabinet_def)
qed

end
