(* ===== verification/Thread.thy ===== *)
theory Thread
  imports Machine
begin

text \<open>\<open>main\<close> of src/day-09.py (lines 170--184) and the thread interface of
  \<open>IntcodeComputer\<close> (lines 151--167): \<open>start_program\<close> starts the thread,
  \<open>send_input\<close> puts the program's input into the queue while the thread runs, and
  \<open>wait_for_exit\<close> joins it before \<open>get_last_output\<close> is read. The send is atomic
  under the queue's condition, so the interleavings are: the thread runs \<open>k\<close>
  iterations (it may park on an empty queue first), the value is queued, and the
  thread runs on until it returns.\<close>

definition start_send_join :: "nat \<Rightarrow> nat \<Rightarrow> vm \<Rightarrow> int \<Rightarrow> vm run_state" where
  "start_send_join k fuel s value =
     (case run k s of
        Running s' \<Rightarrow> run fuel (vm_send_input s' value)
      | Waiting s' \<Rightarrow> run fuel (vm_send_input s' value)
      | Halted s' \<Rightarrow> Halted (vm_send_input s' value)
      | Crashed e s' \<Rightarrow> Crashed e (vm_send_input s' value))"

definition get_last_output :: "vm run_state \<Rightarrow> int" where
  "get_last_output r = last_output (state_of r)"

text \<open>Both parts of \<open>main\<close>: the same program with input 1 and with input 2.\<close>

definition day09_main :: "nat \<Rightarrow> nat \<Rightarrow> int list \<Rightarrow> int \<times> int" where
  "day09_main k fuel input_values =
     (get_last_output (start_send_join k fuel (init_vm input_values) 1),
      get_last_output (start_send_join k fuel (init_vm input_values) 2))"

subsection \<open>Queueing a value commutes with the instructions\<close>

lemma execute_inputs_frame:
  "opcode \<noteq> INPUT \<Longrightarrow>
   execute (s\<lparr>inputs := q\<rparr>) opcode n ps = map_sum id (map_step_result (\<lambda>t. t\<lparr>inputs := q\<rparr>)) (execute s opcode n ps)"
  unfolding execute_def arith_instr_def output_instr_def jump_instr_def adjust_instr_def
  by (simp add: bind_err_def split: sum.splits)

lemma execute_keeps_inputs:
  "opcode \<noteq> INPUT \<Longrightarrow> execute s opcode n ps = Inr (Stepped s') \<Longrightarrow> inputs s' = inputs s"
  unfolding execute_def
  by (simp only: split: if_split_asm)
     (auto dest!: arith_instr_Stepped output_instr_Stepped jump_instr_Stepped adjust_instr_Stepped)

lemma input_instr_send:
  "input_instr s n ps = Inr (Stepped s') \<Longrightarrow>
     input_instr (vm_send_input s v) n ps = Inr (Stepped (vm_send_input s' v))"
  "input_instr s n ps = Inl e \<Longrightarrow> input_instr (vm_send_input s v) n ps = Inl e"
  by (auto simp: input_instr_def vm_send_input_def send_input_def bind_err_eq_Inr bind_err_def
           split: option.splits sum.splits elim: get_next_input.elims)

lemma execute_send:
  assumes "execute s opcode n ps = Inr (Stepped s')"
  shows "execute (vm_send_input s v) opcode n ps = Inr (Stepped (vm_send_input s' v))"
proof (cases "opcode = INPUT")
  case True
  then show ?thesis using assms input_instr_send(1) by (simp add: execute_def)
next
  case False
  have "inputs s' = inputs s" using execute_keeps_inputs[OF False assms] .
  then show ?thesis
    using execute_inputs_frame[OF False, where s = s and q = "send_input (inputs s) v" and n = n and ps = ps] assms
    by (simp add: vm_send_input_def)
qed

lemma execute_send_final:
  "execute s opcode n ps = Inl e \<Longrightarrow> execute (vm_send_input s v) opcode n ps = Inl e"
  "execute s opcode n ps = Inr Exited \<Longrightarrow> execute (vm_send_input s v) opcode n ps = Inr Exited"
proof -
  assume a: "execute s opcode n ps = Inl e"
  show "execute (vm_send_input s v) opcode n ps = Inl e"
  proof (cases "opcode = INPUT")
    case True
    then show ?thesis using a input_instr_send(2) by (simp add: execute_def)
  next
    case False
    then show ?thesis using execute_inputs_frame[OF False, where s = s and q = "send_input (inputs s) v" and n = n and ps = ps] a
      by (simp add: vm_send_input_def)
  qed
next
  assume a: "execute s opcode n ps = Inr Exited"
  then have "opcode = HALT" by (rule execute_Exited)
  then show "execute (vm_send_input s v) opcode n ps = Inr Exited" using a by (simp add: execute_def)
qed

lemma send_fields: "mem (vm_send_input s v) = mem s" "pc (vm_send_input s v) = pc s"
  by (simp_all add: vm_send_input_def)

lemma step_send:
  "step s = Inr (Stepped s') \<Longrightarrow> step (vm_send_input s v) = Inr (Stepped (vm_send_input s' v))"
  "step s = Inl e \<Longrightarrow> step (vm_send_input s v) = Inl e"
  "step s = Inr Exited \<Longrightarrow> step (vm_send_input s v) = Inr Exited"
  by (auto simp: step_def bind_err_eq_Inr bind_err_eq_Inl send_fields
           split: if_splits intro: execute_send execute_send_final)

lemma run_send:
  "(case run k s of
      Running s1 \<Rightarrow> \<forall>m. run (k + m) (vm_send_input s v) = run m (vm_send_input s1 v)
    | Waiting s1 \<Rightarrow> \<exists>j. \<forall>m. run (j + m) (vm_send_input s v) = run m (vm_send_input s1 v)
    | Halted s1 \<Rightarrow> run k (vm_send_input s v) = Halted (vm_send_input s1 v)
    | Crashed e s1 \<Rightarrow> run k (vm_send_input s v) = Crashed e (vm_send_input s1 v))"
proof (induction k arbitrary: s)
  case 0
  then show ?case by (simp add: run_def)
next
  case (Suc k)
  show ?case
  proof (cases "step s")
    case (Inl e)
    then show ?thesis by (simp add: run_def step_send(2))
  next
    case (Inr r)
    then show ?thesis
    proof (cases r)
      case (Stepped s')
      have st: "step (vm_send_input s v) = Inr (Stepped (vm_send_input s' v))"
        using Inr Stepped by (simp add: step_send(1))
      have run_s: "run (Suc k) s = run k s'" using Inr Stepped by (simp add: run_def)
      have run_t: "run (Suc j) (vm_send_input s v) = run j (vm_send_input s' v)" for j
        using st by (simp add: run_def)
      show ?thesis
      proof (cases "run k s'")
        case (Waiting s1)
        then obtain j where "\<forall>m. run (j + m) (vm_send_input s' v) = run m (vm_send_input s1 v)"
          using Suc.IH[of s'] by auto
        then have "\<forall>m. run (Suc j + m) (vm_send_input s v) = run m (vm_send_input s1 v)"
          by (simp add: run_t)
        then have "\<exists>j. \<forall>m. run (j + m) (vm_send_input s v) = run m (vm_send_input s1 v)"
          by (rule exI[of _ "Suc j"])
        then show ?thesis unfolding run_s using Waiting by simp
      qed (use Suc.IH[of s'] in \<open>simp_all add: run_s run_t\<close>)
    next
      case Blocked
      have "\<exists>j. \<forall>m. run (j + m) (vm_send_input s v) = run m (vm_send_input s v)"
        by (rule exI[of _ 0]) simp
      then show ?thesis using Inr Blocked by (simp add: run_def)
    next
      case Exited
      then show ?thesis using Inr by (simp add: run_def step_send(3))
    qed
  qed
qed

lemma run_final_stable: "run n s = r \<Longrightarrow> \<forall>s'. r \<noteq> Running s' \<Longrightarrow> n \<le> m \<Longrightarrow> run m s = r"
  unfolding run_def by (rule run_loop_final_stable)

text \<open>C10: \<open>main\<close>'s send is race-free: wherever the thread is when the input
  is queued (after any number \<open>k\<close> of iterations, parked on the empty queue or not),
  the joined thread ends as it does when the input is queued before it starts.\<close>

theorem send_race_free:
  assumes "run n (vm_send_input s v) = r" "(\<exists>t. r = Halted t) \<or> (\<exists>e t. r = Crashed e t)"
  shows "\<exists>fuel. start_send_join k fuel s v = r"
proof -
  have fin: "\<forall>s'. r \<noteq> Running s'" using assms(2) by auto
  have stable: "run m (vm_send_input s v) = r" if "n \<le> m" for m
    using run_final_stable[OF assms(1) fin that] .
  show ?thesis
  proof (cases "run k s")
    case (Running s1)
    then have "run (k + n) (vm_send_input s v) = run n (vm_send_input s1 v)"
      using run_send[of k s v] by simp
    then have "start_send_join k n s v = r" using Running stable[of "k + n"] by (simp add: start_send_join_def)
    then show ?thesis by blast
  next
    case (Waiting s1)
    then obtain j where "run (j + n) (vm_send_input s v) = run n (vm_send_input s1 v)"
      using run_send[of k s v] by auto
    then have "start_send_join k n s v = r" using Waiting stable[of "j + n"] by (simp add: start_send_join_def)
    then show ?thesis by blast
  next
    case (Halted s1)
    then have h: "run k (vm_send_input s v) = Halted (vm_send_input s1 v)"
      using run_send[of k s v] by simp
    have "run (max n k) (vm_send_input s v) = Halted (vm_send_input s1 v)"
      using run_final_stable[OF h] by simp
    then have "start_send_join k 0 s v = r" using Halted stable[of "max n k"] by (simp add: start_send_join_def)
    then show ?thesis by blast
  next
    case (Crashed e s1)
    then have h: "run k (vm_send_input s v) = Crashed e (vm_send_input s1 v)"
      using run_send[of k s v] by simp
    have "run (max n k) (vm_send_input s v) = Crashed e (vm_send_input s1 v)"
      using run_final_stable[OF h] by simp
    then have "start_send_join k 0 s v = r" using Crashed stable[of "max n k"] by (simp add: start_send_join_def)
    then show ?thesis by blast
  qed
qed

theorem send_race_free_witness:
  "\<exists>fuel. start_send_join 1 fuel (init_vm [3, 0, 4, 0, 99]) 42 =
     run 3 (vm_send_input (init_vm [3, 0, 4, 0, 99]) 42)"
proof -
  have "case run 3 (vm_send_input (init_vm [3, 0, 4, 0, 99]) 42) of Halted t \<Rightarrow> True | _ \<Rightarrow> False"
    by code_simp
  then have "\<exists>t. run 3 (vm_send_input (init_vm [3, 0, 4, 0, 99]) 42) = Halted t"
    by (auto split: run_state.splits)
  then show ?thesis using send_race_free[OF refl] by blast
qed

text \<open>The echo program \<open>3,0,4,0,99\<close> prints its input: \<open>main\<close> prints 1 and 2,
  whether the thread has parked on its INPUT before the send or not.\<close>

lemma day09_main_example:
  "day09_main 0 5 [3, 0, 4, 0, 99] = (1, 2) \<and> day09_main 3 5 [3, 0, 4, 0, 99] = (1, 2)"
  by code_simp

end
