(* ===== verification/Day01.thy ===== *)
theory Day01
  imports Prelude
begin

text \<open>The fuel calculation of src/day-01.py. \<open>get_fuel\<close> (lines 18--22) is
  recursive when \<open>recurse\<close> is set: the fuel needed for the fuel, until a step needs
  none. Python integers are unbounded, so the model uses \<open>int\<close>; \<open>//\<close> is floor
  division, HOL's \<open>div\<close>. The recursion stops because a positive fuel is smaller
  than the mass it is computed from.\<close>

function get_fuel :: "int \<Rightarrow> bool \<Rightarrow> int" where
  "get_fuel value recurse =
     (let fuel = max (value div 3 - 2) 0 in
      if fuel = 0 then fuel
      else if \<not> recurse then fuel else fuel + get_fuel fuel recurse)"
  by pat_completeness auto
termination
  by (relation "measure (\<lambda>(value, recurse). nat value)") (auto simp: Let_def)

declare get_fuel.simps [simp del]

text \<open>\<open>main\<close> (lines 11--15): the sums over all module masses.\<close>

definition day01_part1 :: "int list \<Rightarrow> int" where
  "day01_part1 values = sum_list (map (\<lambda>value. get_fuel value False) values)"

definition day01_part2 :: "int list \<Rightarrow> int" where
  "day01_part2 values = sum_list (map (\<lambda>value. get_fuel value True) values)"

lemma get_fuel_unfold:
  "get_fuel value recurse =
     (if value div 3 - 2 \<le> 0 then 0
      else if \<not> recurse then value div 3 - 2
      else (value div 3 - 2) + get_fuel (value div 3 - 2) recurse)"
  by (subst get_fuel.simps) (auto simp: Let_def max_def)

lemma get_fuel_False: "get_fuel mass False = max 0 (mass div 3 - 2)"
  by (simp add: get_fuel_unfold[of mass])

lemma get_fuel_True_bounds:
  "recurse \<Longrightarrow> max 0 (mass div 3 - 2) \<le> get_fuel mass recurse \<and> get_fuel mass recurse \<le> max 0 (mass div 2)"
proof (induction mass recurse rule: get_fuel.induct)
  case (1 mass recurse)
  show ?case
  proof (cases "mass div 3 - 2 \<le> 0")
    case True
    then show ?thesis by (simp add: get_fuel_unfold[of mass])
  next
    case False
    then have "max 0 ((mass div 3 - 2) div 3 - 2) \<le> get_fuel (mass div 3 - 2) recurse \<and>
               get_fuel (mass div 3 - 2) recurse \<le> max 0 ((mass div 3 - 2) div 2)"
      using "1.IH"[of "mass div 3 - 2"] "1.prems" by (simp add: Let_def max_def)
    then show ?thesis using False "1.prems"
      by (simp add: get_fuel_unfold[of mass]) linarith
  qed
qed

text \<open>C18: the fuel is never negative, never more than half the mass, and the
  recursive fuel is at least the plain one.\<close>

theorem get_fuel_bounds:
  "0 \<le> get_fuel mass recurse \<and> get_fuel mass recurse \<le> max 0 (mass div 2)
   \<and> get_fuel mass False \<le> get_fuel mass True"
  using get_fuel_True_bounds[of True mass]
  by (cases recurse) (auto simp: get_fuel_False)

text \<open>The puzzle's examples: a mass of 1969 needs 654 fuel, and 966 with the fuel
  for the fuel; 14 needs 2 either way; 100756 needs 50346 in all.\<close>

lemma get_fuel_examples:
  "get_fuel 1969 False = 654 \<and> get_fuel 1969 True = 966 \<and> get_fuel 14 True = 2
   \<and> get_fuel 100756 True = 50346 \<and> day01_part1 [12, 14, 1969] = 658"
  by code_simp

end
