(* ===== verification/Day03.thy ===== *)
theory Day03
  imports Prelude
begin

text \<open>The crossed wires of src/day-03.py. \<open>main\<close> (lines 6--37) traces each wire from
  the origin, one unit move per iteration of the innermost loop (lines 19--24),
  recording in the dictionary \<open>wire_points\<close> the step count at which a point is first
  reached; a point already recorded keeps its first count. The direction is looked up
  in \<open>moves\<close> inside that loop, so an unknown direction raises \<open>KeyError\<close> only when
  its count is positive. A step of the input is the pair of \<open>step[:1]\<close> and
  \<open>int(step[1:])\<close>; the split of the line and the \<open>int\<close> parse are the input's
  parsing. Part 1 is the least Manhattan distance of a point common to all wires, part
  2 the least sum of the first two wires' step counts there; \<open>min\<close> of no
  intersection raises \<open>ValueError\<close>, \<open>set.intersection()\<close> of no wires
  \<open>TypeError\<close>, and \<open>points[1]\<close> of a single wire \<open>IndexError\<close>.\<close>

datatype day03_error =
    MoveKeyError string
  | MinEmptyError
  | IntersectionTypeError
  | PointsIndexError

definition moves :: "(string \<times> (int \<times> int)) list" where
  "moves = [(''U'', (0, 1)), (''D'', (0, -1)), (''R'', (1, 0)), (''L'', (-1, 0))]"

text \<open>The locals of one wire's trace (lines 13--15).\<close>

record wire_scan =
  wire_points :: "((int \<times> int) \<times> int) list"
  point :: "int \<times> int"
  distance :: int

definition init_scan :: wire_scan where
  "init_scan = \<lparr>wire_points = [], point = (0, 0), distance = 1\<rparr>"

text \<open>The body of the innermost loop (lines 20--24), once the direction is known.\<close>

definition move_once :: "int \<times> int \<Rightarrow> wire_scan \<Rightarrow> wire_scan" where
  "move_once d st =
     (let p = (fst (point st) + fst d, snd (point st) + snd d) in
      st\<lparr>point := p,
         wire_points := (if map_of (wire_points st) p = None
                         then AList.update p (distance st) (wire_points st) else wire_points st),
         distance := distance st + 1\<rparr>)"

text \<open>\<open>for _ in range(move_count)\<close> (line 19), with \<open>moves[move_dir]\<close> evaluated
  in every iteration.\<close>

fun walk :: "nat \<Rightarrow> string \<Rightarrow> wire_scan \<Rightarrow> day03_error + wire_scan" where
  "walk 0 move_dir st = Inr st"
| "walk (Suc n) move_dir st =
     (case map_of moves move_dir of
        None \<Rightarrow> Inl (MoveKeyError move_dir)
      | Some d \<Rightarrow> walk n move_dir (move_once d st))"

text \<open>\<open>for step in wire\<close> (lines 16--24); \<open>range\<close> of a negative count is empty.\<close>

fun trace_steps :: "wire_scan \<Rightarrow> (string \<times> int) list \<Rightarrow> day03_error + wire_scan" where
  "trace_steps st [] = Inr st"
| "trace_steps st ((move_dir, move_count) # steps) =
     bind_err (walk (nat move_count) move_dir st) (\<lambda>st'. trace_steps st' steps)"

definition trace_wire :: "(string \<times> int) list \<Rightarrow> day03_error + ((int \<times> int) \<times> int) list" where
  "trace_wire wire = bind_err (trace_steps init_scan wire) (\<lambda>st. Inr (wire_points st))"

text \<open>\<open>for wire in wires\<close> (lines 12--25), building \<open>points\<close> in order.\<close>

fun trace_wires :: "(string \<times> int) list list \<Rightarrow> day03_error + ((int \<times> int) \<times> int) list list" where
  "trace_wires [] = Inr []"
| "trace_wires (wire # wires) =
     bind_err (trace_wire wire) (\<lambda>p. bind_err (trace_wires wires) (\<lambda>ps. Inr (p # ps)))"

text \<open>\<open>set.intersection(*[set(x) for x in points])\<close> (line 27), as the list of the
  first wire's points that every other wire reaches; only its set is used.\<close>

definition intersections :: "((int \<times> int) \<times> int) list list \<Rightarrow> day03_error + (int \<times> int) list" where
  "intersections points =
     (case points of
        [] \<Rightarrow> Inl IntersectionTypeError
      | p # ps \<Rightarrow> Inr (filter (\<lambda>x. list_all (\<lambda>q. map_of q x \<noteq> None) ps) (map fst p)))"

definition manhattan :: "int \<times> int \<Rightarrow> int" where
  "manhattan x = \<bar>fst x\<bar> + \<bar>snd x\<bar>"

text \<open>Part 1 (lines 29--32): the printed value is the key of the minimising point,
  the least key.\<close>

definition day03_part1 :: "(string \<times> int) list list \<Rightarrow> day03_error + int" where
  "day03_part1 wires =
     bind_err (trace_wires wires) (\<lambda>points. bind_err (intersections points) (\<lambda>I.
       if I = [] then Inl MinEmptyError else Inr (Min (manhattan ` set I))))"

text \<open>Part 2 (lines 34--37): \<open>min\<close> calls the key on every point, so a single
  wire raises \<open>IndexError\<close> unless there is no point at all.\<close>

definition day03_part2 :: "(string \<times> int) list list \<Rightarrow> day03_error + int" where
  "day03_part2 wires =
     bind_err (trace_wires wires) (\<lambda>points. bind_err (intersections points) (\<lambda>I.
       if I = [] then Inl MinEmptyError
       else if length points < 2 then Inl PointsIndexError
       else Inr (Min ((\<lambda>x. the (map_of (points ! 0) x) + the (map_of (points ! 1) x)) ` set I))))"

subsection \<open>The reference: the path of a wire\<close>

text \<open>The points a wire passes, in order, one per unit move.\<close>

fun seg :: "int \<times> int \<Rightarrow> int \<times> int \<Rightarrow> nat \<Rightarrow> (int \<times> int) list" where
  "seg pos d 0 = []"
| "seg pos d (Suc n) = (fst pos + fst d, snd pos + snd d) # seg (fst pos + fst d, snd pos + snd d) d n"

fun wire_path_from :: "int \<times> int \<Rightarrow> (string \<times> int) list \<Rightarrow> (int \<times> int) list" where
  "wire_path_from pos [] = []"
| "wire_path_from pos ((move_dir, move_count) # steps) =
     (let s = seg pos (the (map_of moves move_dir)) (nat move_count)
      in s @ wire_path_from (last (pos # s)) steps)"

definition wire_path :: "(string \<times> int) list \<Rightarrow> (int \<times> int) list" where
  "wire_path wire = wire_path_from (0, 0) wire"

fun first_index :: "'a list \<Rightarrow> 'a \<Rightarrow> nat" where
  "first_index [] x = 0"
| "first_index (y # ys) x = (if y = x then 0 else Suc (first_index ys x))"

definition valid_wire :: "(string \<times> int) list \<Rightarrow> bool" where
  "valid_wire wire = list_all (\<lambda>(move_dir, move_count). move_count \<le> 0 \<or> map_of moves move_dir \<noteq> None) wire"

text \<open>The trace after the path \<open>P\<close>: at its end, one more than its length, and the
  first-visit count of each point of \<open>P\<close>.\<close>

definition visits_ok :: "(int \<times> int) list \<Rightarrow> wire_scan \<Rightarrow> bool" where
  "visits_ok P st \<longleftrightarrow>
     point st = last ((0, 0) # P) \<and> distance st = int (length P) + 1 \<and>
     distinct (map fst (wire_points st)) \<and>
     map_of (wire_points st) = (\<lambda>p. if p \<in> set P then Some (int (first_index P p) + 1) else None)"

subsection \<open>Lemmas\<close>

lemma first_index_snoc_in: "p \<in> set P \<Longrightarrow> first_index (P @ [x]) p = first_index P p"
  by (induction P) auto

lemma first_index_snoc_new: "p \<notin> set P \<Longrightarrow> first_index (P @ [p]) p = length P"
  by (induction P) auto

lemma last_Cons_append: "last (a # P @ s) = last (last (a # P) # s)"
  by (cases s rule: rev_cases) auto

lemma visits_ok_init: "visits_ok [] init_scan"
  by (simp add: visits_ok_def init_scan_def)

lemma move_once_ok:
  assumes "visits_ok P st"
  shows "visits_ok (P @ [(fst (point st) + fst d, snd (point st) + snd d)]) (move_once d st)"
proof -
  let ?q = "(fst (point st) + fst d, snd (point st) + snd d)"
  have m: "map_of (wire_points st) = (\<lambda>p. if p \<in> set P then Some (int (first_index P p) + 1) else None)"
    using assms by (simp add: visits_ok_def)
  show ?thesis
  proof (cases "?q \<in> set P")
    case True
    then show ?thesis using assms
      by (auto simp: visits_ok_def move_once_def Let_def first_index_snoc_in)
  next
    case False
    then have "map_of (wire_points st) ?q = None" by (simp add: m)
    then show ?thesis using assms False
      by (auto simp: visits_ok_def move_once_def Let_def first_index_snoc_in first_index_snoc_new
               distinct_update fun_eq_iff)
  qed
qed

lemma walk_ok:
  "map_of moves move_dir = Some d \<Longrightarrow> visits_ok P st \<Longrightarrow>
   \<exists>st'. walk n move_dir st = Inr st' \<and> visits_ok (P @ seg (point st) d n) st'"
proof (induction n arbitrary: P st)
  case 0
  then show ?case by simp
next
  case (Suc n)
  have "visits_ok (P @ [(fst (point st) + fst d, snd (point st) + snd d)]) (move_once d st)"
    using Suc.prems(2) by (rule move_once_ok)
  from Suc.IH[OF Suc.prems(1) this] show ?case
    using Suc.prems(1) by (simp add: move_once_def Let_def)
qed

lemma walk_Inl_iff: "(\<exists>e. walk n move_dir st = Inl e) \<longleftrightarrow> 0 < n \<and> map_of moves move_dir = None"
  by (induction n arbitrary: st) (auto split: option.splits)

lemma trace_steps_ok:
  "valid_wire steps \<Longrightarrow> visits_ok P st \<Longrightarrow>
   \<exists>st'. trace_steps st steps = Inr st' \<and> visits_ok (P @ wire_path_from (point st) steps) st'"
proof (induction steps arbitrary: P st)
  case Nil
  then show ?case by simp
next
  case (Cons step steps)
  obtain move_dir move_count where step: "step = (move_dir, move_count)" by fastforce
  let ?s = "seg (point st) (the (map_of moves move_dir)) (nat move_count)"
  have valid: "valid_wire steps" and ok: "move_count \<le> 0 \<or> map_of moves move_dir \<noteq> None"
    using Cons.prems(1) by (simp_all add: valid_wire_def step)
  have "\<exists>st'. walk (nat move_count) move_dir st = Inr st' \<and> visits_ok (P @ ?s) st'"
  proof (cases "move_count \<le> 0")
    case True
    then show ?thesis using Cons.prems(2) by simp
  next
    case False
    then obtain d where "map_of moves move_dir = Some d" using ok by auto
    then show ?thesis using walk_ok[OF _ Cons.prems(2)] by simp
  qed
  then obtain st' where w: "walk (nat move_count) move_dir st = Inr st'" and
    st': "visits_ok (P @ ?s) st'" by blast
  have "point st' = last (point st # ?s)"
    using st' Cons.prems(2) by (simp add: visits_ok_def last_Cons_append)
  with Cons.IH[OF valid st'] show ?case
    by (simp add: step w Let_def)
qed

lemma trace_steps_Inl_iff: "(\<exists>e. trace_steps st steps = Inl e) \<longleftrightarrow> \<not> valid_wire steps"
proof (induction steps arbitrary: st)
  case Nil
  then show ?case by (simp add: valid_wire_def)
next
  case (Cons step steps)
  obtain move_dir move_count where step: "step = (move_dir, move_count)" by fastforce
  show ?case
  proof (cases "walk (nat move_count) move_dir st")
    case (Inl e)
    then show ?thesis using walk_Inl_iff[of "nat move_count" move_dir st]
      by (auto simp: step valid_wire_def)
  next
    case (Inr st')
    then have "\<not> (0 < nat move_count \<and> map_of moves move_dir = None)"
      using walk_Inl_iff[of "nat move_count" move_dir st] by auto
    then show ?thesis using Inr Cons.IH[of st'] by (auto simp: step valid_wire_def)
  qed
qed

lemma trace_wire_visits:
  assumes "valid_wire wire"
  obtains pts where "trace_wire wire = Inr pts" "distinct (map fst pts)"
    "map_of pts = (\<lambda>p. if p \<in> set (wire_path wire) then Some (int (first_index (wire_path wire) p) + 1) else None)"
proof -
  obtain st' where "trace_steps init_scan wire = Inr st'" "visits_ok (wire_path wire) st'"
    using trace_steps_ok[OF assms visits_ok_init]
    by (auto simp: wire_path_def init_scan_def)
  then show ?thesis using that by (simp add: trace_wire_def visits_ok_def)
qed

text \<open>C20: for a wire whose every positive step has a known direction, the trace
  returns a dictionary whose keys are the points of the wire's path, each mapped to
  the number of unit moves up to its first visit.\<close>

theorem trace_wire_first_visits:
  "valid_wire wire \<Longrightarrow>
   \<exists>pts. trace_wire wire = Inr pts \<and> distinct (map fst pts) \<and>
     (\<forall>p. map_of pts p =
        (if p \<in> set (wire_path wire) then Some (int (first_index (wire_path wire) p) + 1) else None))"
  by (erule trace_wire_visits) auto

theorem trace_wire_first_visits_witness:
  "\<exists>pts. trace_wire [(''R'', 2), (''U'', 1), (''L'', 1), (''D'', 1)] = Inr pts \<and>
     map_of pts (1, 0) = Some 1 \<and> map_of pts (1, 1) = Some 4 \<and> map_of pts (0, 0) = None"
proof -
  have v: "valid_wire [(''R'', 2), (''U'', 1), (''L'', 1), (''D'', 1)]"
    by (simp add: valid_wire_def moves_def)
  have p: "wire_path [(''R'', 2), (''U'', 1), (''L'', 1), (''D'', 1)] = [(1, 0), (2, 0), (2, 1), (1, 1), (1, 0)]"
    by code_simp
  show ?thesis using trace_wire_first_visits[OF v] unfolding p by auto
qed

text \<open>C22: tracing a wire raises \<open>KeyError\<close> exactly when some step with a positive
  count has a direction outside \<open>moves\<close>: the lookup sits inside the unit-move loop,
  so a step with an unknown direction and count 0 passes silently.\<close>

theorem trace_wire_error:
  "(\<exists>e. trace_wire wire = Inl e) \<longleftrightarrow> \<not> valid_wire wire"
  using trace_steps_Inl_iff[of init_scan wire]
  by (cases "trace_steps init_scan wire") (auto simp: trace_wire_def)

theorem trace_wire_error_witness:
  "(\<exists>e. trace_wire [(''R'', 1), (''X'', 2)] = Inl e) \<and> \<not> valid_wire [(''R'', 1), (''X'', 2)]
   \<and> trace_wire [(''R'', 1), (''X'', 0)] = Inr [((1, 0), 1)]"
proof -
  have v: "\<not> valid_wire [(''R'', 1), (''X'', 2)]" by code_simp
  have t: "trace_wire [(''R'', 1), (''X'', 0)] = Inr [((1, 0), 1)]" by code_simp
  from trace_wire_error[of "[(''R'', 1), (''X'', 2)]"] v t show ?thesis by simp
qed

text \<open>With no wires at all both parts raise \<open>TypeError\<close> (the intersection of no sets).\<close>

lemma day03_no_wires:
  "day03_part1 [] = Inl IntersectionTypeError \<and> day03_part2 [] = Inl IntersectionTypeError"
  by (simp add: day03_part1_def day03_part2_def intersections_def)

lemma trace_two_wires:
  assumes "valid_wire w0" "valid_wire w1"
  obtains pts0 pts1 I where "trace_wires [w0, w1] = Inr [pts0, pts1]"
    "intersections [pts0, pts1] = Inr I" "set I = set (wire_path w0) \<inter> set (wire_path w1)"
    "\<And>x. x \<in> set I \<Longrightarrow> the (map_of pts0 x) + the (map_of pts1 x) =
           int (first_index (wire_path w0) x) + int (first_index (wire_path w1) x) + 2"
proof -
  obtain pts0 where t0: "trace_wire w0 = Inr pts0" and
    m0: "map_of pts0 = (\<lambda>p. if p \<in> set (wire_path w0) then Some (int (first_index (wire_path w0) p) + 1) else None)"
    using assms(1) by (rule trace_wire_visits)
  obtain pts1 where t1: "trace_wire w1 = Inr pts1" and
    m1: "map_of pts1 = (\<lambda>p. if p \<in> set (wire_path w1) then Some (int (first_index (wire_path w1) p) + 1) else None)"
    using assms(2) by (rule trace_wire_visits)
  have "dom (map_of pts0) = set (wire_path w0)"
    by (auto simp: m0 dom_def split: if_splits)
  then have keys0: "set (map fst pts0) = set (wire_path w0)"
    by (simp add: dom_map_of_conv_image_fst)
  let ?I = "filter (\<lambda>x. list_all (\<lambda>q. map_of q x \<noteq> None) [pts1]) (map fst pts0)"
  have "set ?I = set (wire_path w0) \<inter> set (wire_path w1)"
    using keys0 by (auto simp: m1)
  moreover have "\<And>x. x \<in> set ?I \<Longrightarrow> the (map_of pts0 x) + the (map_of pts1 x) =
      int (first_index (wire_path w0) x) + int (first_index (wire_path w1) x) + 2"
    using keys0 by (auto simp: m0 m1)
  ultimately show ?thesis using that[of pts0 pts1 ?I] t0 t1 by (simp add: intersections_def)
qed

text \<open>C21: for two valid wires that cross, part 1 is the least Manhattan distance of a
  point on both paths and part 2 the least sum of the first-visit step counts of such
  a point.\<close>

theorem day03_crossings:
  assumes "valid_wire w0" "valid_wire w1" "set (wire_path w0) \<inter> set (wire_path w1) \<noteq> {}"
  shows "day03_part1 [w0, w1] = Inr (Min (manhattan ` (set (wire_path w0) \<inter> set (wire_path w1)))) \<and>
    day03_part2 [w0, w1] = Inr (Min ((\<lambda>p. int (first_index (wire_path w0) p) +
       int (first_index (wire_path w1) p) + 2) ` (set (wire_path w0) \<inter> set (wire_path w1))))"
proof -
  obtain pts0 pts1 I where t: "trace_wires [w0, w1] = Inr [pts0, pts1]"
    and i: "intersections [pts0, pts1] = Inr I" and s: "set I = set (wire_path w0) \<inter> set (wire_path w1)"
    and k: "\<And>x. x \<in> set I \<Longrightarrow> the (map_of pts0 x) + the (map_of pts1 x) =
           int (first_index (wire_path w0) x) + int (first_index (wire_path w1) x) + 2"
    by (rule trace_two_wires[OF assms(1,2)]) blast
  have ne: "I \<noteq> []" using s assms(3) by auto
  have "(\<lambda>x. the (map_of pts0 x) + the (map_of pts1 x)) ` set I =
        (\<lambda>p. int (first_index (wire_path w0) p) + int (first_index (wire_path w1) p) + 2) ` set I"
    by (rule image_cong) (simp_all add: k)
  then show ?thesis using t i ne by (simp add: day03_part1_def day03_part2_def s)
qed

theorem day03_crossings_witness:
  "day03_part1 [[(''R'', 8), (''U'', 5), (''L'', 5), (''D'', 3)], [(''U'', 7), (''R'', 6), (''D'', 4), (''L'', 4)]] = Inr 6 \<and>
   day03_part2 [[(''R'', 8), (''U'', 5), (''L'', 5), (''D'', 3)], [(''U'', 7), (''R'', 6), (''D'', 4), (''L'', 4)]] = Inr 30"
proof -
  let ?A = "[(''R'', 8), (''U'', 5), (''L'', 5), (''D'', 3)] :: (string \<times> int) list"
  let ?B = "[(''U'', 7), (''R'', 6), (''D'', 4), (''L'', 4)] :: (string \<times> int) list"
  have v: "valid_wire ?A" "valid_wire ?B" by (simp_all add: valid_wire_def moves_def)
  have ne: "set (wire_path ?A) \<inter> set (wire_path ?B) \<noteq> {}" by code_simp
  have m1: "Min (manhattan ` (set (wire_path ?A) \<inter> set (wire_path ?B))) = 6" by code_simp
  have m2: "Min ((\<lambda>p. int (first_index (wire_path ?A) p) + int (first_index (wire_path ?B) p) + 2) `
      (set (wire_path ?A) \<inter> set (wire_path ?B))) = 30" by code_simp
  show ?thesis using day03_crossings[OF v ne] m1 m2 by simp
qed

end
