(* ===== verification/Day04.thy ===== *)
theory Day04
  imports Prelude
begin

text \<open>The password rules of src/day-04.py. \<open>get_digits\<close> (lines 25--30) peels the
  decimal digits off with \<open>% 10\<close> and \<open>//= 10\<close>; \<open>is_increasing\<close> (lines 52--56)
  returns at the first descent; \<open>min_adjacent_duplicates\<close> (lines 33--49) scans the
  digits once, keeping the current digit, the length of the current run, the least
  length of a finished run of at least 2 (starting from the sentinel 100) and whether
  any digit repeats its predecessor. \<open>main\<close> (lines 4--22) counts the numbers of a
  range that pass part 1 (a run of at least two) and part 2 (a run of exactly two).\<close>

fun get_digits_loop :: "int \<Rightarrow> int list \<Rightarrow> int list" where
  "get_digits_loop value digits =
     (if value > 0 then get_digits_loop (value div 10) ((value mod 10) # digits) else digits)"

declare get_digits_loop.simps [simp del]

definition get_digits :: "int \<Rightarrow> int list" where
  "get_digits value = get_digits_loop value []"

text \<open>The state of the \<open>for\<close> loop of \<open>min_adjacent_duplicates\<close>.\<close>

record scan =
  has_adjacent :: bool
  run_count :: nat
  run_min :: nat
  current :: int

text \<open>One iteration, at index \<open>i\<close>; \<open>digits[i - 1]\<close> is a Python subscript, the last
  digit when \<open>i = 0\<close>.\<close>

definition scan_step :: "int list \<Rightarrow> scan \<Rightarrow> nat \<Rightarrow> scan" where
  "scan_step digits st i =
     (if current st \<noteq> digits ! i then
        st\<lparr>current := digits ! i,
           run_min := (if run_count st \<ge> 2 \<and> run_count st < run_min st then run_count st else run_min st),
           run_count := 1\<rparr>
      else if current st = digits ! (if i = 0 then length digits - 1 else i - 1) then
        st\<lparr>has_adjacent := True, run_count := run_count st + 1\<rparr>
      else st)"

definition min_adjacent_duplicates :: "int list \<Rightarrow> nat" where
  "min_adjacent_duplicates digits =
     (let st = foldl (scan_step digits)
                 \<lparr>has_adjacent = False, run_count = 0, run_min = 100, current = -1\<rparr>
                 [0..<length digits];
          m = (if run_count st \<ge> 2 \<and> run_count st < run_min st then run_count st else run_min st)
      in if has_adjacent st then m else 0)"

text \<open>The loop returns \<open>False\<close> at the first index whose digit is below its
  predecessor, and \<open>True\<close> when there is none.\<close>

definition is_increasing :: "int list \<Rightarrow> bool" where
  "is_increasing digits = list_all (\<lambda>i. \<not> digits ! i < digits ! (i - 1)) [1..<length digits]"

text \<open>\<open>main\<close>: the two counters over \<open>range(lower_bound, upper_bound + 1)\<close>.\<close>

definition day04_counts :: "int \<Rightarrow> int \<Rightarrow> nat \<times> nat" where
  "day04_counts lower_bound upper_bound =
     foldl (\<lambda>(count1, count2) i.
              let digits = get_digits i in
              if is_increasing digits then
                (let min_adjacent = min_adjacent_duplicates digits in
                 (if min_adjacent \<ge> 2 then count1 + 1 else count1,
                  if min_adjacent = 2 then count2 + 1 else count2))
              else (count1, count2))
       (0, 0) [lower_bound..upper_bound]"

subsection \<open>Reference definitions\<close>

text \<open>The lengths of the maximal blocks of equal adjacent digits, and the least
  length of at least 2 capped at the sentinel 100.\<close>

function runs :: "int list \<Rightarrow> nat list" where
  "runs [] = []"
| "runs (x # xs) = Suc (length (takeWhile ((=) x) xs)) # runs (dropWhile ((=) x) xs)"
  by pat_completeness auto
termination
  by (relation "measure length") (auto simp: le_imp_less_Suc length_dropWhile_le)

definition cap_min :: "nat list \<Rightarrow> nat" where
  "cap_min rs = fold min (filter (\<lambda>r. 2 \<le> r) rs) 100"

definition digits_value :: "int list \<Rightarrow> int" where
  "digits_value ds = foldl (\<lambda>n d. 10 * n + d) 0 ds"

subsection \<open>Lemmas\<close>

lemma takeWhile_replicate_snoc:
  "takeWhile ((=) y) (replicate n y @ [x]) = replicate n y @ (if x = y then [x] else [])"
  by (induction n) auto

lemma dropWhile_replicate_snoc:
  "dropWhile ((=) y) (replicate n y @ [x]) = (if x = y then [] else [x])"
  by (induction n) auto

lemma runs_replicate: "runs (y # replicate n y) = [Suc n]"
proof -
  have "takeWhile ((=) y) (replicate n y) = replicate n y" "dropWhile ((=) y) (replicate n y) = []"
    by (induction n) auto
  then show ?thesis by simp
qed

lemma runs_replicate_snoc:
  "runs (y # replicate n y @ [x]) = (if y = x then [Suc (Suc n)] else [Suc n, 1])"
  by (simp add: takeWhile_replicate_snoc dropWhile_replicate_snoc)

lemma last_replicate_Cons: "last (y # replicate n (y::int)) = y"
  by (induction n) auto

lemma runs_snoc_replicate:
  "runs ((y # replicate n y) @ [x]) =
    (if (y # replicate n y) \<noteq> [] \<and> last (y # replicate n y) = x
     then butlast (runs (y # replicate n y)) @ [Suc (last (runs (y # replicate n y)))]
     else runs (y # replicate n y) @ [1])"
proof -
  have a: "runs ((y # replicate n y) @ [x]) = (if y = x then [Suc (Suc n)] else [Suc n, 1])"
    using runs_replicate_snoc[of y n x] by (simp only: append_Cons)
  show ?thesis unfolding a last_replicate_Cons runs_replicate by simp
qed

lemma runs_snoc:
  "runs (p @ [x]) = (if p \<noteq> [] \<and> last p = x then butlast (runs p) @ [Suc (last (runs p))] else runs p @ [1])"
proof (induction p rule: runs.induct)
  case 1
  then show ?case by simp
next
  case (2 y ys)
  show ?case
  proof (cases "\<forall>z \<in> set ys. z = y")
    case True
    then have "ys = replicate (length ys) y" by (rule replicate_length_same[symmetric])
    then obtain n where ys: "ys = replicate n y" by blast
    show ?thesis unfolding ys by (rule runs_snoc_replicate)
  next
    case False
    then have ne: "dropWhile ((=) y) ys \<noteq> []" by (auto simp: dropWhile_eq_Nil_conv)
    then have t: "takeWhile ((=) y) (ys @ [x]) = takeWhile ((=) y) ys"
      "dropWhile ((=) y) (ys @ [x]) = dropWhile ((=) y) ys @ [x]"
      using False by (auto simp: takeWhile_append1 dropWhile_append1)
    have "ys \<noteq> []" using ne by auto
    then have "last (y # ys) = last (takeWhile ((=) y) ys @ dropWhile ((=) y) ys)" by simp
    also have "\<dots> = last (dropWhile ((=) y) ys)" using ne by (rule last_appendR)
    finally have l: "last (y # ys) = last (dropWhile ((=) y) ys)" .
    have r: "runs (dropWhile ((=) y) ys) \<noteq> []"
      using ne by (cases "dropWhile ((=) y) ys") auto
    show ?thesis using "2.IH" t l ne r by auto
  qed
qed

lemma cap_min_snoc:
  "cap_min (rs @ [r]) = (if 2 \<le> r \<and> r < cap_min rs then r else cap_min rs)"
  by (auto simp: cap_min_def)

lemma runs_pos: "r \<in> set (runs p) \<Longrightarrow> 0 < r"
  by (induction p rule: runs.induct) auto

lemma runs_Nil_iff [simp]: "runs p = [] \<longleftrightarrow> p = []"
  by (cases p) simp_all

definition scan_inv :: "int list \<Rightarrow> scan \<Rightarrow> bool" where
  "scan_inv p st \<longleftrightarrow>
     has_adjacent st = (\<exists>r \<in> set (runs p). 2 \<le> r) \<and> run_count st = last (runs p) \<and>
     run_min st = cap_min (butlast (runs p)) \<and> current st = last p"

lemma scan_inv_first:
  "0 \<le> d \<Longrightarrow> scan_inv [d] (scan_step (d # ds)
     \<lparr>has_adjacent = False, run_count = 0, run_min = 100, current = -1\<rparr> 0)"
  by (simp add: scan_inv_def scan_step_def cap_min_def)

lemma scan_inv_step:
  assumes inv: "scan_inv (take k ds) st" and k: "0 < k" "k < length ds"
  shows "scan_inv (take (Suc k) ds) (scan_step ds st k)"
proof -
  let ?p = "take k ds"
  have p1: "?p \<noteq> []" using k by auto
  then have p: "?p \<noteq> []" "last ?p = ds ! (k - 1)" using k by (simp_all add: last_conv_nth)
  have tk: "take (Suc k) ds = ?p @ [ds ! k]" using k by (simp add: take_Suc_conv_app_nth)
  have rs: "runs ?p = butlast (runs ?p) @ [last (runs ?p)]" "0 < last (runs ?p)"
    using p(1) runs_pos[of "last (runs ?p)" ?p] by simp_all
  show ?thesis
  proof (cases "last ?p = ds ! k")
    case True
    then show ?thesis using inv p k rs(2)
      unfolding tk scan_inv_def scan_step_def runs_snoc by auto
  next
    case False
    have "cap_min (runs ?p) = (if 2 \<le> last (runs ?p) \<and> last (runs ?p) < cap_min (butlast (runs ?p))
                              then last (runs ?p) else cap_min (butlast (runs ?p)))"
      by (subst rs(1)) (rule cap_min_snoc)
    then show ?thesis using inv p False
      unfolding tk scan_inv_def scan_step_def runs_snoc by auto
  qed
qed

lemma scan_prefix:
  assumes "list_all (\<lambda>d. 0 \<le> d) ds" and "0 < k" and "k \<le> length ds"
  shows "scan_inv (take k ds)
           (foldl (scan_step ds) \<lparr>has_adjacent = False, run_count = 0, run_min = 100, current = -1\<rparr> [0..<k])"
  using assms(2,3)
proof (induction k)
  case 0
  then show ?case by simp
next
  case (Suc k)
  show ?case
  proof (cases k)
    case 0
    then obtain d ds' where "ds = d # ds'" using Suc.prems by (cases ds) auto
    then show ?thesis using 0 assms(1) scan_inv_first by simp
  next
    case (Suc k')
    then show ?thesis using Suc.IH Suc.prems scan_inv_step by simp
  qed
qed

lemma get_digits_loop_app: "get_digits_loop v ds = get_digits_loop v [] @ ds"
proof (induction "nat v" arbitrary: v ds rule: less_induct)
  case less
  show ?case
  proof (cases "v > 0")
    case True
    then have "nat (v div 10) < nat v" by simp
    then show ?thesis
      using less[of "v div 10" "v mod 10 # ds"] less[of "v div 10" "[v mod 10]"] True
      by (simp add: get_digits_loop.simps[of v ds] get_digits_loop.simps[of v "[]"])
  next
    case False
    then show ?thesis by (simp add: get_digits_loop.simps)
  qed
qed

lemma get_digits_snoc:
  "0 < v \<Longrightarrow> get_digits v = get_digits (v div 10) @ [v mod 10]"
  unfolding get_digits_def
  by (subst get_digits_loop.simps) (simp add: get_digits_loop_app[of _ "[v mod 10]"])

lemma get_digits_nonpos: "v \<le> 0 \<Longrightarrow> get_digits v = []"
  by (simp add: get_digits_def get_digits_loop.simps)

lemma digits_value_snoc [simp]: "digits_value (xs @ [d]) = 10 * digits_value xs + d"
  by (simp add: digits_value_def)

subsection \<open>Properties\<close>

text \<open>C23: \<open>min_adjacent_duplicates\<close> is the least length of a block of at least two
  equal adjacent digits, capped at its sentinel 100, and 0 when no digit repeats its
  predecessor.\<close>

theorem min_adjacent_runs:
  assumes "list_all (\<lambda>d. 0 \<le> d) ds"
  shows "min_adjacent_duplicates ds =
           (if filter (\<lambda>r. 2 \<le> r) (runs ds) = [] then 0 else cap_min (runs ds))"
proof (cases "ds = []")
  case True
  then show ?thesis by (simp add: min_adjacent_duplicates_def)
next
  case False
  then have inv: "scan_inv ds (foldl (scan_step ds)
      \<lparr>has_adjacent = False, run_count = 0, run_min = 100, current = -1\<rparr> [0..<length ds])"
    using scan_prefix[OF assms, of "length ds"] by simp
  have rs: "runs ds = butlast (runs ds) @ [last (runs ds)]" using False by simp
  have "cap_min (runs ds) = (if 2 \<le> last (runs ds) \<and> last (runs ds) < cap_min (butlast (runs ds))
                            then last (runs ds) else cap_min (butlast (runs ds)))"
    by (subst rs) (rule cap_min_snoc)
  then show ?thesis using inv
    by (auto simp: min_adjacent_duplicates_def scan_inv_def Let_def filter_empty_conv)
qed

theorem min_adjacent_runs_witness:
  "list_all (\<lambda>d. 0 \<le> d) [1, 1, 1, 1, 2, 2 :: int]
   \<and> min_adjacent_duplicates [1, 1, 1, 1, 2, 2] =
       (if filter (\<lambda>r. 2 \<le> r) (runs [1, 1, 1, 1, 2, 2]) = [] then 0 else cap_min (runs [1, 1, 1, 1, 2, 2]))
   \<and> runs [1, 1, 1, 1, 2, 2 :: int] = [4, 2] \<and> cap_min [4, 2] = 2"
proof -
  have h: "list_all (\<lambda>d. 0 \<le> d) [1, 1, 1, 1, 2, 2 :: int]" by simp
  have "runs [1, 1, 1, 1, 2, 2 :: int] = [4, 2]" "cap_min [4, 2] = 2" by code_simp+
  then show ?thesis using h min_adjacent_runs[OF h] by simp
qed

lemma list_all_upt_Suc:
  "list_all P [1..<n] \<longleftrightarrow> (\<forall>j. Suc j < n \<longrightarrow> P (Suc j))"
proof
  assume "list_all P [1..<n]"
  then show "\<forall>j. Suc j < n \<longrightarrow> P (Suc j)" by (auto simp: list_all_iff)
next
  assume a: "\<forall>j. Suc j < n \<longrightarrow> P (Suc j)"
  show "list_all P [1..<n]"
    unfolding list_all_iff
  proof
    fix i assume "i \<in> set [1..<n]"
    then have i: "1 \<le> i" "i < n" by auto
    then obtain j where "i = Suc j" by (cases i) auto
    then show "P i" using a i by simp
  qed
qed

text \<open>\<open>is_increasing\<close> is \<open>sorted\<close>: it returns at the first descent exactly
  when the digits are not in non-decreasing order.\<close>

theorem is_increasing_sorted: "is_increasing digits = sorted digits"
  unfolding is_increasing_def list_all_upt_Suc sorted_iff_nth_Suc by (simp add: not_less)

text \<open>C24: for a non-negative number, \<open>get_digits\<close> yields decimal digits that read
  back as the number, without a leading zero; 0 has no digits at all.\<close>

theorem get_digits_roundtrip:
  assumes "0 \<le> v"
  shows "digits_value (get_digits v) = v \<and> list_all (\<lambda>d. 0 \<le> d \<and> d < 10) (get_digits v) \<and>
         (get_digits v = [] \<longleftrightarrow> v = 0) \<and> (get_digits v \<noteq> [] \<longrightarrow> hd (get_digits v) \<noteq> 0)"
  using assms
proof (induction "nat v" arbitrary: v rule: less_induct)
  case less
  show ?case
  proof (cases "v = 0")
    case True
    then show ?thesis by (simp add: get_digits_nonpos digits_value_def)
  next
    case False
    then have v: "0 < v" using less.prems by simp
    have ih: "digits_value (get_digits (v div 10)) = v div 10 \<and>
              list_all (\<lambda>d. 0 \<le> d \<and> d < 10) (get_digits (v div 10)) \<and>
              (get_digits (v div 10) = [] \<longleftrightarrow> v div 10 = 0) \<and>
              (get_digits (v div 10) \<noteq> [] \<longrightarrow> hd (get_digits (v div 10)) \<noteq> 0)"
      using less.hyps[of "v div 10"] v by simp
    show ?thesis
      using ih v div_mult_mod_eq[of v 10] by (cases "v div 10 = 0") (auto simp: get_digits_snoc[OF v] digits_value_def)
  qed
qed

theorem get_digits_roundtrip_witness:
  "0 \<le> (112233 :: int)
   \<and> digits_value (get_digits 112233) = 112233
   \<and> list_all (\<lambda>d. 0 \<le> d \<and> d < 10) (get_digits 112233)
   \<and> get_digits 112233 = [1, 1, 2, 2, 3, 3]"
proof -
  have h: "0 \<le> (112233 :: int)" by simp
  have "get_digits 112233 = [1, 1, 2, 2, 3, 3]" by code_simp
  then show ?thesis using get_digits_roundtrip[OF h] by simp
qed

text \<open>The puzzle's examples, through the whole of \<open>main\<close>'s test: 112233 passes
  both parts, 123444 only part 1 (its only block is three long), 111122 both.\<close>

lemma day04_examples:
  "day04_counts 112233 112233 = (1, 1) \<and> day04_counts 123444 123444 = (1, 0)
   \<and> day04_counts 111122 111122 = (1, 1) \<and> day04_counts 223450 223450 = (0, 0)"
  by code_simp

end
