(* ===== verification/Day06.thy ===== *)
theory Day06
  imports Prelude "HOL-Library.While_Combinator"
begin

text \<open>The orbit map of src/day-06.py. \<open>main\<close> (lines 4--12) builds the dictionary
  \<open>graph[source] = target\<close> from the lines \<open>target)source\<close>, a later line for the same
  source replacing the earlier one. \<open>get_orbit_chain\<close> (lines 19--25) follows the
  map from a start object while the current object has an entry; on a cyclic map
  the \<open>while\<close> loop never ends, so it is \<open>while_option\<close>, \<open>None\<close> when it does not
  return. \<open>get_checksum\<close> (lines 15--16) sums the chain lengths minus one over all
  keys, which on an acyclic map is the number of direct and indirect orbits;
  \<open>get_steps_to_santa\<close> (lines 28--34) searches the two chains from YOU and SAN
  for the first common object, in the order of the nested loops, and falls off the
  end (Python's \<open>None\<close>) when there is none.\<close>

type_synonym graph = "(string \<times> string) list"

definition build_graph :: "(string \<times> string) list \<Rightarrow> graph" where
  "build_graph lines = foldl (\<lambda>graph (target, source). AList.update source target graph) [] lines"

definition get_orbit_chain :: "graph \<Rightarrow> string \<Rightarrow> string list option" where
  "get_orbit_chain graph start =
     map_option snd
       (while_option (\<lambda>(value, chain). map_of graph value \<noteq> None)
          (\<lambda>(value, chain). (the (map_of graph value), chain @ [the (map_of graph value)]))
          (start, [start]))"

definition get_checksum :: "graph \<Rightarrow> nat option" where
  "get_checksum graph =
     map_option sum_list
       (those (map (\<lambda>x. map_option (\<lambda>chain. length chain - 1) (get_orbit_chain graph x)) (map fst graph)))"

fun inner_steps :: "nat \<Rightarrow> string \<Rightarrow> nat \<Rightarrow> string list \<Rightarrow> int option" where
  "inner_steps i you_step j [] = None"
| "inner_steps i you_step j (san_step # rest) =
     (if you_step = san_step then Some (int i + int j - 2) else inner_steps i you_step (Suc j) rest)"

fun outer_steps :: "nat \<Rightarrow> string list \<Rightarrow> string list \<Rightarrow> int option" where
  "outer_steps i [] san_chain = None"
| "outer_steps i (you_step # rest) san_chain =
     (case inner_steps i you_step 0 san_chain of
        Some r \<Rightarrow> Some r
      | None \<Rightarrow> outer_steps (Suc i) rest san_chain)"

text \<open>The outer \<open>option\<close> is termination of the two chain walks, the inner one the
  value returned (\<open>None\<close> when the chains share no object).\<close>

definition get_steps_to_santa :: "graph \<Rightarrow> int option option" where
  "get_steps_to_santa graph =
     (case (get_orbit_chain graph ''YOU'', get_orbit_chain graph ''SAN'') of
        (Some you_chain, Some san_chain) \<Rightarrow> Some (outer_steps 0 you_chain san_chain)
      | _ \<Rightarrow> None)"

text \<open>The orbit relation: \<open>(t, s)\<close> when \<open>s\<close> orbits \<open>t\<close>.\<close>

definition orbit_rel :: "graph \<Rightarrow> (string \<times> string) set" where
  "orbit_rel graph = {(t, s). map_of graph s = Some t}"

subsection \<open>Lemmas\<close>

lemma finite_orbit_rel: "finite (orbit_rel graph)"
proof -
  have "orbit_rel graph \<subseteq> (\<lambda>(s, t). (t, s)) ` set graph"
    by (auto simp: orbit_rel_def dest: map_of_SomeD)
  then show ?thesis by (rule finite_subset) simp
qed

definition chain_ok :: "graph \<Rightarrow> string \<Rightarrow> string \<times> string list \<Rightarrow> bool" where
  "chain_ok graph start st \<longleftrightarrow>
     (case st of (value, chain) \<Rightarrow>
        chain \<noteq> [] \<and> hd chain = start \<and> last chain = value \<and>
        (\<forall>k. Suc k < length chain \<longrightarrow> map_of graph (chain ! k) = Some (chain ! Suc k)))"

lemma chain_ok_step:
  assumes "chain_ok graph start (value, chain)" and "map_of graph value = Some t"
  shows "chain_ok graph start (t, chain @ [t])"
  using assms unfolding chain_ok_def
  apply (auto simp: nth_append last_conv_nth less_Suc_eq)
  subgoal for k by (subgoal_tac "k = length chain - Suc 0") simp_all
  done

lemma orbit_chain_wf:
  assumes "acyclic (orbit_rel graph)"
  shows "wf {(t, s). (chain_ok graph start s \<and> (\<lambda>(value, chain). map_of graph value \<noteq> None) s) \<and>
                     t = (\<lambda>(value, chain). (the (map_of graph value), chain @ [the (map_of graph value)])) s}"
proof -
  have "wf (orbit_rel graph)" using finite_orbit_rel assms by (rule finite_acyclic_wf)
  then have "wf (inv_image (orbit_rel graph) fst)" by (rule wf_inv_image)
  then show ?thesis
    by (rule wf_subset) (auto simp: orbit_rel_def)
qed

lemma orbit_chain_cycle:
  assumes "\<forall>v \<in> C. \<exists>t \<in> C. map_of graph v = Some t" and "start \<in> C"
  shows "get_orbit_chain graph start = None"
proof (cases "while_option (\<lambda>(value, chain). map_of graph value \<noteq> None)
          (\<lambda>(value, chain). (the (map_of graph value), chain @ [the (map_of graph value)]))
          (start, [start])")
  case (Some st)
  have "fst st \<in> C"
    by (rule while_option_rule[where P = "\<lambda>st. fst st \<in> C", OF _ Some]) (use assms in auto)
  moreover have "\<not> (\<lambda>(value, chain). map_of graph value \<noteq> None) st"
    using Some by (rule while_option_stop)
  ultimately show ?thesis using assms(1) by (auto split: prod.splits)
qed (simp add: get_orbit_chain_def)

lemma orbit_chain_Some:
  assumes "acyclic (orbit_rel graph)"
  shows "\<exists>chain. get_orbit_chain graph start = Some chain \<and> hd chain = start \<and>
           map_of graph (last chain) = None \<and>
           (\<forall>k. Suc k < length chain \<longrightarrow> map_of graph (chain ! k) = Some (chain ! Suc k))"
proof -
  have ok0: "chain_ok graph start (start, [start])" by (simp add: chain_ok_def)
  have step: "chain_ok graph start ((\<lambda>(value, chain). (the (map_of graph value), chain @ [the (map_of graph value)])) st)"
    if "chain_ok graph start st" "(\<lambda>(value, chain). map_of graph value \<noteq> None) st" for st
    using that chain_ok_step by (auto split: prod.splits)
  obtain st where st: "while_option (\<lambda>(value, chain). map_of graph value \<noteq> None)
          (\<lambda>(value, chain). (the (map_of graph value), chain @ [the (map_of graph value)]))
          (start, [start]) = Some st"
    using wf_while_option_Some[OF orbit_chain_wf[OF assms] step ok0] by blast
  have "chain_ok graph start st" using while_option_rule[where P = "chain_ok graph start", OF step st ok0] .
  moreover have "\<not> (\<lambda>(value, chain). map_of graph value \<noteq> None) st" using st by (rule while_option_stop)
  ultimately show ?thesis using st by (auto simp: get_orbit_chain_def chain_ok_def split: prod.splits)
qed

subsection \<open>Properties\<close>

text \<open>C25: on an acyclic orbit map the walk of \<open>get_orbit_chain\<close> ends, and the chain
  it returns starts at the start object, follows the map one entry at a time, and
  ends at an object without an entry.\<close>

theorem orbit_chain_terminates:
  assumes "acyclic (orbit_rel graph)"
  shows "\<exists>chain. get_orbit_chain graph start = Some chain \<and> hd chain = start \<and>
           map_of graph (last chain) = None \<and>
           (\<forall>k. Suc k < length chain \<longrightarrow> map_of graph (chain ! k) = Some (chain ! Suc k))"
  using assms by (rule orbit_chain_Some)

theorem orbit_chain_terminates_witness:
  "acyclic (orbit_rel [(''B'', ''COM''), (''C'', ''B'')])
   \<and> get_orbit_chain [(''B'', ''COM''), (''C'', ''B'')] ''C'' = Some [''C'', ''B'', ''COM'']
   \<and> (\<exists>chain. get_orbit_chain [(''B'', ''COM''), (''C'', ''B'')] ''C'' = Some chain \<and> hd chain = ''C'' \<and>
        map_of [(''B'', ''COM''), (''C'', ''B'')] (last chain) = None)"
proof -
  have r: "orbit_rel [(''B'', ''COM''), (''C'', ''B'')] = {(''COM'', ''B''), (''B'', ''C'')}"
    by (auto simp: orbit_rel_def split: if_splits)
  have a: "acyclic (orbit_rel [(''B'', ''COM''), (''C'', ''B'')])"
    unfolding r acyclic_def by (auto elim: tranclE)
  have c: "get_orbit_chain [(''B'', ''COM''), (''C'', ''B'')] ''C'' = Some [''C'', ''B'', ''COM'']"
    by code_simp
  show ?thesis using orbit_chain_terminates[OF a, of "''C''"] a c by auto
qed

lemma chain_ancestor:
  assumes follows: "\<forall>k. Suc k < length c \<longrightarrow> map_of graph (c ! k) = Some (c ! Suc k)"
  shows "i < j \<Longrightarrow> j < length c \<Longrightarrow> (c ! j, c ! i) \<in> (orbit_rel graph)\<^sup>+"
proof (induction j)
  case (Suc j)
  have step: "(c ! Suc j, c ! j) \<in> orbit_rel graph"
    using follows Suc.prems by (simp add: orbit_rel_def)
  show ?case
  proof (cases "i = j")
    case True
    with step show ?thesis by auto
  next
    case False
    with Suc have "(c ! j, c ! i) \<in> (orbit_rel graph)\<^sup>+" by simp
    with step show ?thesis by (rule trancl_into_trancl2)
  qed
qed simp

lemma chain_distinct:
  assumes "acyclic (orbit_rel graph)"
    and follows: "\<forall>k. Suc k < length c \<longrightarrow> map_of graph (c ! k) = Some (c ! Suc k)"
  shows "distinct c"
  unfolding distinct_conv_nth
proof (intro allI impI)
  have ne: "c ! i \<noteq> c ! j" if "i < j" "j < length c" for i j
    using chain_ancestor[OF follows that] assms(1) by (auto simp: acyclic_def)
  fix i j assume i: "i < length c" and j: "j < length c" and ij: "i \<noteq> j"
  show "c ! i \<noteq> c ! j"
  proof (cases "i < j")
    case True
    with ne j show ?thesis by blast
  next
    case False
    with ij have "j < i" by simp
    with ne i show ?thesis by fastforce
  qed
qed

lemma chain_has_ancestors:
  assumes follows: "\<forall>k. Suc k < length c \<longrightarrow> map_of graph (c ! k) = Some (c ! Suc k)"
    and root: "map_of graph (last c) = None" and ne: "c \<noteq> []"
  shows "(y, z) \<in> (orbit_rel graph)\<^sup>+ \<Longrightarrow> k < length c \<Longrightarrow> z = c ! k \<Longrightarrow> y \<in> set (drop (Suc k) c)"
proof (induction arbitrary: k rule: trancl.induct)
  case (r_into_trancl a b)
  have "Suc k < length c"
  proof (rule ccontr)
    assume "\<not> Suc k < length c"
    with r_into_trancl.prems have "k = length c - 1" by linarith
    with r_into_trancl.prems ne have "b = last c" by (simp add: last_conv_nth)
    with r_into_trancl.hyps root show False by (simp add: orbit_rel_def)
  qed
  with r_into_trancl follows have "a = c ! Suc k" by (simp add: orbit_rel_def)
  moreover have "drop (Suc k) c = c ! Suc k # drop (Suc (Suc k)) c"
    using \<open>Suc k < length c\<close> by (rule Cons_nth_drop_Suc[symmetric])
  ultimately show ?case by simp
next
  case (trancl_into_trancl a b z)
  have "Suc k < length c"
  proof (rule ccontr)
    assume "\<not> Suc k < length c"
    with trancl_into_trancl.prems have "k = length c - 1" by linarith
    with trancl_into_trancl.prems ne have "z = last c" by (simp add: last_conv_nth)
    with trancl_into_trancl.hyps(2) root show False by (simp add: orbit_rel_def)
  qed
  with trancl_into_trancl follows have "b = c ! Suc k" by (simp add: orbit_rel_def)
  with trancl_into_trancl.IH \<open>Suc k < length c\<close> have "a \<in> set (drop (Suc (Suc k)) c)" by blast
  moreover have "drop (Suc k) c = c ! Suc k # drop (Suc (Suc k)) c"
    using \<open>Suc k < length c\<close> by (rule Cons_nth_drop_Suc[symmetric])
  ultimately show ?case by simp
qed

lemma chain_orbit_count:
  assumes "acyclic (orbit_rel graph)" and ne: "c \<noteq> []" and hd: "hd c = x"
    and root: "map_of graph (last c) = None"
    and follows: "\<forall>k. Suc k < length c \<longrightarrow> map_of graph (c ! k) = Some (c ! Suc k)"
  shows "length c - 1 = card {y. (y, x) \<in> (orbit_rel graph)\<^sup>+}"
proof -
  have x: "x = c ! 0" using ne hd by (simp add: hd_conv_nth)
  have "{y. (y, x) \<in> (orbit_rel graph)\<^sup>+} = set (tl c)"
  proof (intro equalityI subsetI)
    fix y assume "y \<in> {y. (y, x) \<in> (orbit_rel graph)\<^sup>+}"
    then have "y \<in> set (drop (Suc 0) c)"
      using chain_has_ancestors[OF follows root ne] x ne by blast
    then show "y \<in> set (tl c)" by (simp add: drop_Suc)
  next
    fix y assume "y \<in> set (tl c)"
    then obtain i where i: "i < length (tl c)" "y = tl c ! i" by (auto simp: in_set_conv_nth)
    then have j: "Suc i < length c" "y = c ! Suc i" by (simp_all add: nth_tl)
    then have "(c ! Suc i, c ! 0) \<in> (orbit_rel graph)\<^sup>+"
      using chain_ancestor[OF follows, of 0 "Suc i"] by simp
    then show "y \<in> {y. (y, x) \<in> (orbit_rel graph)\<^sup>+}" using j x by simp
  qed
  moreover have "distinct (tl c)" using chain_distinct[OF assms(1) follows] by (simp add: distinct_tl)
  ultimately show ?thesis by (simp add: distinct_card)
qed

lemma those_map_Some: "\<forall>x \<in> set xs. f x = Some (g x) \<Longrightarrow> those (map f xs) = Some (map g xs)"
  by (induction xs) auto

text \<open>C26: on an acyclic orbit map part 1 returns, and its checksum is the total
  number of direct and indirect orbits: the sum, over the objects with an entry,
  of the number of objects each one orbits directly or indirectly.\<close>

theorem get_checksum_orbits:
  assumes "acyclic (orbit_rel graph)"
  shows "get_checksum graph =
           Some (sum_list (map (\<lambda>x. card {y. (y, x) \<in> (orbit_rel graph)\<^sup>+}) (map fst graph)))"
proof -
  have "map_option (\<lambda>chain. length chain - 1) (get_orbit_chain graph x) =
          Some (card {y. (y, x) \<in> (orbit_rel graph)\<^sup>+})" for x
  proof -
    obtain c where c: "get_orbit_chain graph x = Some c" "hd c = x" "map_of graph (last c) = None"
      "\<forall>k. Suc k < length c \<longrightarrow> map_of graph (c ! k) = Some (c ! Suc k)"
      using orbit_chain_Some[OF assms, of x] by blast
    obtain st where w: "while_option (\<lambda>(value, chain). map_of graph value \<noteq> None)
          (\<lambda>(value, chain). (the (map_of graph value), chain @ [the (map_of graph value)]))
          (x, [x]) = Some st" and cs: "c = snd st"
      using c(1) by (auto simp: get_orbit_chain_def)
    have "(\<lambda>(value, chain). chain \<noteq> []) st"
      by (rule while_option_rule[where P = "\<lambda>(value, chain). chain \<noteq> []", OF _ w]) auto
    then have "c \<noteq> []" using cs by (simp split: prod.splits)
    then show ?thesis using chain_orbit_count[OF assms _ c(2-4)] c(1) by simp
  qed
  then have "those (map (\<lambda>x. map_option (\<lambda>chain. length chain - 1) (get_orbit_chain graph x)) (map fst graph)) =
      Some (map (\<lambda>x. card {y. (y, x) \<in> (orbit_rel graph)\<^sup>+}) (map fst graph))"
    by (intro those_map_Some) blast
  then show ?thesis unfolding get_checksum_def by (simp only: option.map)
qed

theorem get_checksum_orbits_witness:
  "get_checksum [(''B'', ''COM''), (''C'', ''B'')] = Some 3"
proof -
  have r: "orbit_rel [(''B'', ''COM''), (''C'', ''B'')] = {(''COM'', ''B''), (''B'', ''C'')}"
    by (auto simp: orbit_rel_def split: if_splits)
  have a: "acyclic (orbit_rel [(''B'', ''COM''), (''C'', ''B'')])"
    unfolding r acyclic_def by (auto elim: tranclE)
  have t: "{(''COM'', ''B''), (''B'', ''C'')}\<^sup>+ = {(''COM'', ''B''), (''B'', ''C''), (''COM'', ''C'')}"
    by (auto elim: tranclE intro: trancl_into_trancl2)
  have "{y. (y, ''B'') \<in> {(''COM'', ''B''), (''B'', ''C''), (''COM'', ''C'')}} = {''COM''}"
       "{y. (y, ''C'') \<in> {(''COM'', ''B''), (''B'', ''C''), (''COM'', ''C'')}} = {''B'', ''COM''}"
    by auto
  with get_checksum_orbits[OF a] show ?thesis unfolding r t by simp
qed

text \<open>The puzzle's examples: the map \<open>COM)B, ..., K)L\<close> has 42 orbits, and with
  \<open>K)YOU\<close> and \<open>I)SAN\<close> added YOU is 4 transfers from SAN.\<close>

lemma day06_examples:
  "get_checksum (build_graph [(''COM'', ''B''), (''B'', ''C''), (''C'', ''D''), (''D'', ''E''),
      (''E'', ''F''), (''B'', ''G''), (''G'', ''H''), (''D'', ''I''), (''E'', ''J''),
      (''J'', ''K''), (''K'', ''L'')]) = Some 42
   \<and> get_steps_to_santa (build_graph [(''COM'', ''B''), (''B'', ''C''), (''C'', ''D''), (''D'', ''E''),
      (''E'', ''F''), (''B'', ''G''), (''G'', ''H''), (''D'', ''I''), (''E'', ''J''),
      (''J'', ''K''), (''K'', ''L''), (''K'', ''YOU''), (''I'', ''SAN'')]) = Some (Some 4)"
  by code_simp

end
