(* ===== verification/Day08.thy ===== *)
theory Day08
  imports Prelude
begin

text \<open>The space image format of src/day-08.py. \<open>main\<close> (lines 9--42) reads one line
  of digits, cuts it into layers of \<open>IMAGE_WIDTH * IMAGE_HEIGHT\<close> pixels (lines
  13--16, a trailing partial layer dropped by \<open>//\<close>), picks the first layer with the
  fewest zeros, starting from \<open>sys.maxsize\<close> and \<open>None\<close> (lines 18--24), and prints
  the product of its ones and twos (lines 26--28); part 2 (lines 30--42) prints, per
  pixel, the colour of the first layer that is not transparent (2): a space for 0, an
  X for 1, nothing for any other digit or when every layer is transparent. The line is
  read with \<open>readline()\<close> and parsed character by character with \<open>int\<close>.\<close>

datatype day08_error = DigitValueError char | LayerTypeError

definition IMAGE_WIDTH :: nat where
  "IMAGE_WIDTH = 25"

definition IMAGE_HEIGHT :: nat where
  "IMAGE_HEIGHT = 6"

text \<open>\<open>[int(x) for x in f.readline()]\<close> (line 11): \<open>int\<close> of one character is its
  decimal value for a digit and raises \<open>ValueError\<close> otherwise.\<close>

fun parse_image :: "string \<Rightarrow> day08_error + int list" where
  "parse_image [] = Inr []"
| "parse_image (c # cs) =
     (if 48 \<le> (of_char c :: nat) \<and> (of_char c :: nat) \<le> 57
      then bind_err (parse_image cs) (\<lambda>ds. Inr ((of_char c - 48) # ds))
      else Inl (DigitValueError c))"

definition split_layers :: "nat \<Rightarrow> nat \<Rightarrow> int list \<Rightarrow> int list list" where
  "split_layers w h input =
     map (\<lambda>i. map (\<lambda>j. input ! (j + i * w * h)) [0..<w * h]) [0..<length input div (w * h)]"

definition count_eq :: "int \<Rightarrow> int list \<Rightarrow> nat" where
  "count_eq v layer = length (filter (\<lambda>i. i = v) layer)"

definition maxsize :: int where
  "maxsize = 2 ^ 63 - 1"

record zero_scan =
  min_zeroes :: int
  min_zeroes_layer :: "int list option"

definition init_zero_scan :: zero_scan where
  "init_zero_scan = \<lparr>min_zeroes = maxsize, min_zeroes_layer = None\<rparr>"

definition zero_step :: "zero_scan \<Rightarrow> int list \<Rightarrow> zero_scan" where
  "zero_step st layer =
     (let num_zeroes = int (count_eq 0 layer) in
      if num_zeroes < min_zeroes st
      then \<lparr>min_zeroes = num_zeroes, min_zeroes_layer = Some layer\<rparr> else st)"

definition fewest_zeroes :: "int list list \<Rightarrow> int list option" where
  "fewest_zeroes layers = min_zeroes_layer (foldl zero_step init_zero_scan layers)"

text \<open>Lines 26--28: with no layer \<open>min_zeroes_layer\<close> is still \<open>None\<close> and iterating
  it raises \<open>TypeError\<close>.\<close>

definition day08_part1 :: "int list list \<Rightarrow> day08_error + nat" where
  "day08_part1 layers =
     (case fewest_zeroes layers of
        None \<Rightarrow> Inl LayerTypeError
      | Some layer \<Rightarrow> Inr (count_eq 1 layer * count_eq 2 layer))"

text \<open>Lines 33--41: the characters printed for one pixel.\<close>

definition pixel :: "int list list \<Rightarrow> nat \<Rightarrow> string" where
  "pixel layers layer_index =
     (case find (\<lambda>layer. layer ! layer_index \<noteq> 2) layers of
        None \<Rightarrow> []
      | Some layer \<Rightarrow>
          if layer ! layer_index = 0 then '' '' else if layer ! layer_index = 1 then ''X'' else [])"

definition render :: "nat \<Rightarrow> nat \<Rightarrow> int list list \<Rightarrow> string" where
  "render w h layers =
     concat (map (\<lambda>i. concat (map (\<lambda>j. pixel layers (i * w + j)) [0..<w]) @ [CHR 0x0A]) [0..<h])"

definition day08 :: "string \<Rightarrow> day08_error + nat \<times> string" where
  "day08 line =
     bind_err (parse_image line) (\<lambda>input.
       let layers = split_layers IMAGE_WIDTH IMAGE_HEIGHT input in
       bind_err (day08_part1 layers) (\<lambda>part1. Inr (part1, render IMAGE_WIDTH IMAGE_HEIGHT layers)))"

subsection \<open>Lemmas\<close>

lemma layer_take_drop:
  assumes "(Suc i) * n \<le> length input"
  shows "map (\<lambda>j. input ! (j + i * n)) [0..<n] = take n (drop (i * n) input)"
proof (rule nth_equalityI)
  show "length (map (\<lambda>j. input ! (j + i * n)) [0..<n]) = length (take n (drop (i * n) input))"
    using assms by simp
  fix k assume "k < length (map (\<lambda>j. input ! (j + i * n)) [0..<n])"
  then show "map (\<lambda>j. input ! (j + i * n)) [0..<n] ! k = take n (drop (i * n) input) ! k"
    using assms by (simp add: add.commute)
qed

lemma concat_take_drop:
  "m * n \<le> length xs \<Longrightarrow> concat (map (\<lambda>i. take n (drop (i * n) xs)) [0..<m]) = take (m * n) xs"
proof (induction m)
  case 0
  then show ?case by simp
next
  case (Suc m)
  have "concat (map (\<lambda>i. take n (drop (i * n) xs)) [0..<Suc m]) =
        concat (map (\<lambda>i. take n (drop (i * n) xs)) [0..<m]) @ take n (drop (m * n) xs)"
    by simp
  also have "\<dots> = take (m * n) xs @ take n (drop (m * n) xs)"
    using Suc by simp
  also have "\<dots> = take (Suc m * n) xs"
    by (metis add.commute mult_Suc take_add)
  finally show ?case .
qed

lemma split_layers_take_drop:
  "split_layers w h input =
     map (\<lambda>i. take (w * h) (drop (i * (w * h)) input)) [0..<length input div (w * h)]"
proof -
  have "\<And>i. i < length input div (w * h) \<Longrightarrow> Suc i * (w * h) \<le> length input"
    by (meson Suc_leI div_times_less_eq_dividend le_trans mult_le_mono1)
  then show ?thesis
    unfolding split_layers_def
    by (intro map_cong refl) (simp add: layer_take_drop[symmetric] mult.assoc)
qed

lemma zero_step_scan:
  assumes "list_all (\<lambda>l. int (length l) < maxsize) layers" "layers \<noteq> []"
  shows "\<exists>k<length layers. foldl zero_step init_zero_scan layers =
      \<lparr>min_zeroes = int (count_eq 0 (layers ! k)), min_zeroes_layer = Some (layers ! k)\<rparr> \<and>
      (\<forall>k'<length layers. count_eq 0 (layers ! k) \<le> count_eq 0 (layers ! k')) \<and>
      (\<forall>k'<k. count_eq 0 (layers ! k) < count_eq 0 (layers ! k'))"
  using assms
proof (induction layers rule: rev_induct)
  case Nil
  then show ?case by simp
next
  case (snoc x xs)
  have lx: "int (count_eq 0 x) < maxsize"
    using snoc.prems(1) unfolding count_eq_def
    by (simp add: list_all_iff) (meson length_filter_le le_less_trans of_nat_le_iff)
  show ?case
  proof (cases "xs = []")
    case True
    then show ?thesis using lx
      by (auto simp: zero_step_def init_zero_scan_def Let_def)
  next
    case False
    then obtain k where k: "k < length xs"
      and st: "foldl zero_step init_zero_scan xs =
               \<lparr>min_zeroes = int (count_eq 0 (xs ! k)), min_zeroes_layer = Some (xs ! k)\<rparr>"
      and le: "\<forall>k'<length xs. count_eq 0 (xs ! k) \<le> count_eq 0 (xs ! k')"
      and lt: "\<forall>k'<k. count_eq 0 (xs ! k) < count_eq 0 (xs ! k')"
      using snoc.IH snoc.prems(1) by auto
    have fx: "foldl zero_step init_zero_scan (xs @ [x]) =
        zero_step \<lparr>min_zeroes = int (count_eq 0 (xs ! k)), min_zeroes_layer = Some (xs ! k)\<rparr> x"
      using st by simp
    show ?thesis
    proof (cases "count_eq 0 x < count_eq 0 (xs ! k)")
      case True
      have "\<forall>k'<length (xs @ [x]). count_eq 0 x \<le> count_eq 0 ((xs @ [x]) ! k')"
        using le True by (auto simp: nth_append less_Suc_eq)
      moreover have "\<forall>k'<length xs. count_eq 0 x < count_eq 0 ((xs @ [x]) ! k')"
        using le True by (auto simp: nth_append)
      moreover have "foldl zero_step init_zero_scan (xs @ [x]) =
          \<lparr>min_zeroes = int (count_eq 0 x), min_zeroes_layer = Some x\<rparr>"
        using fx True by (simp add: zero_step_def)
      ultimately show ?thesis
        by (intro exI[of _ "length xs"]) (simp del: foldl_append)
    next
      case False
      have "\<forall>k'<length (xs @ [x]). count_eq 0 (xs ! k) \<le> count_eq 0 ((xs @ [x]) ! k')"
        using le False by (auto simp: nth_append less_Suc_eq)
      moreover have "foldl zero_step init_zero_scan (xs @ [x]) =
          \<lparr>min_zeroes = int (count_eq 0 (xs ! k)), min_zeroes_layer = Some (xs ! k)\<rparr>"
        using fx False by (simp add: zero_step_def)
      ultimately show ?thesis using k lt
        by (intro exI[of _ k]) (simp add: nth_append del: foldl_append)
    qed
  qed
qed

text \<open>C28: the layers of lines 13--16 are the input cut into consecutive blocks of
  \<open>w * h\<close> pixels, in order, a trailing partial block dropped: every layer has
  \<open>w * h\<close> pixels and the layers put back together give the input up to its last
  whole block.\<close>

theorem split_layers_concat:
  "list_all (\<lambda>l. length l = w * h) (split_layers w h input) \<and>
   concat (split_layers w h input) = take (length input div (w * h) * (w * h)) input"
proof (cases "w * h = 0")
  case True
  then have "length input div (w * h) = 0" by (metis div_by_0)
  then show ?thesis by (simp add: split_layers_def)
next
  case False
  have bnd: "\<And>i. i < length input div (w * h) \<Longrightarrow> Suc i * (w * h) \<le> length input"
    by (meson Suc_leI div_times_less_eq_dividend le_trans mult_le_mono1)
  have "length (take (w * h) (drop (i * (w * h)) input)) = w * h"
    if "i < length input div (w * h)" for i
    using bnd[OF that] by simp
  then show ?thesis
    by (auto simp: split_layers_take_drop list_all_iff concat_take_drop div_times_less_eq_dividend)
qed

text \<open>C27: part 1 uses the first layer with the fewest zeros, when there is a layer and
  no layer is longer than \<open>sys.maxsize\<close>; with no layer it raises \<open>TypeError\<close>.\<close>

theorem fewest_zeroes_first_min:
  assumes "list_all (\<lambda>l. int (length l) < maxsize) layers" "layers \<noteq> []"
  shows "\<exists>k<length layers. fewest_zeroes layers = Some (layers ! k) \<and>
      day08_part1 layers = Inr (count_eq 1 (layers ! k) * count_eq 2 (layers ! k)) \<and>
      (\<forall>k'<length layers. count_eq 0 (layers ! k) \<le> count_eq 0 (layers ! k')) \<and>
      (\<forall>k'<k. count_eq 0 (layers ! k) < count_eq 0 (layers ! k'))"
  using zero_step_scan[OF assms] by (auto simp: fewest_zeroes_def day08_part1_def)

theorem fewest_zeroes_first_min_witness:
  "day08_part1 (split_layers 3 2 [1, 2, 3, 4, 5, 6, 7, 8, 9, 0, 1, 2]) = Inr 1"
proof -
  have l: "split_layers 3 2 [1, 2, 3, 4, 5, 6, 7, 8, 9, 0, 1, 2] = [[1, 2, 3, 4, 5, 6], [7, 8, 9, 0, 1, 2]]"
    by code_simp
  have h: "list_all (\<lambda>l. int (length l) < maxsize) [[1, 2, 3, 4, 5, 6], [7, 8, 9, 0, 1, (2::int)]]"
    "[[1, 2, 3, 4, 5, 6], [7, 8, 9, 0, 1, (2::int)]] \<noteq> []"
    by (simp_all add: maxsize_def)
  show ?thesis
    using fewest_zeroes_first_min[OF h] unfolding l
    by (auto simp: less_Suc_eq count_eq_def)
qed

text \<open>The puzzle's part-2 example (a 2 by 2 image of four layers) renders as a space
  and an X over an X and a space.\<close>

lemma render_example:
  "render 2 2 (split_layers 2 2 [0, 2, 2, 2, 1, 1, 2, 2, 2, 2, 1, 2, 0, 0, 0, 0]) =
     '' X'' @ [CHR 0x0A] @ ''X '' @ [CHR 0x0A]"
  by code_simp

text \<open>\<open>f.readline()\<close> keeps the line's newline, and \<open>int\<close> rejects it: on an input
  file whose line ends with a newline \<open>main\<close> raises \<open>ValueError\<close> before cutting
  any layer.\<close>

lemma day08_trailing_newline:
  "day08 (''123456'' @ [CHR 0x0A]) = Inl (DigitValueError (CHR 0x0A))"
  by code_simp

end
