(* ===== verification/Day10.thy ===== *)
theory Day10
  imports Prelude "HOL-Library.While_Combinator"
begin

text \<open>The asteroid monitoring station of src/day-10.py. \<open>main\<close> (lines 9--54) reads
  the asteroids of the map (lines 11--12), picks as the station the first asteroid
  with the most distinct \<open>math.atan2\<close> directions to the asteroids (lines 14--23),
  groups the asteroids by their negated angle from the station, each group sorted by
  distance (lines 26--34), turns the sorted angles so that the sweep starts upwards
  (lines 36--41), and pops one asteroid per angle per turn until the 200th (lines
  43--54). The floating-point functions are parameters of the model: \<open>atan2\<close> is
  \<open>math.atan2\<close> on the integer differences, with values in any linear order,
  \<open>sqrt_f\<close> is \<open>(d2)**(1/2)\<close> on the squared distance, and \<open>half_pi\<close> is
  \<open>math.pi / 2\<close>; \<open>-1 * x\<close> is the order's negation. Python's \<open>set\<close> of angles and
  the dictionary \<open>angles\<close> are used only through membership, lookup and
  \<open>sorted\<close>, so the model keeps their keys in first-occurrence order.\<close>

record asteroid =
  ax :: int
  ay :: int

datatype day10_error = StationAttributeError | AnglesIndexError

text \<open>Lines 11--12: an asteroid for every \<open>#\<close>, row by row.\<close>

definition parse_asteroids :: "string list \<Rightarrow> asteroid list" where
  "parse_asteroids lines =
     concat (map (\<lambda>(y, line). map (\<lambda>(x, value). \<lparr>ax = int x, ay = int y\<rparr>)
                                  (filter (\<lambda>(x, value). value = CHR ''#'') (enumerate 0 line)))
                 (enumerate 0 lines))"

text \<open>Lines 19--20: the directions are taken to every asteroid of the list, the
  station itself included (the copy \<open>temp\<close> without it is never used).\<close>

definition visible_count :: "(int \<Rightarrow> int \<Rightarrow> 'a) \<Rightarrow> asteroid list \<Rightarrow> asteroid \<Rightarrow> nat" where
  "visible_count atan2 asteroids asteroid =
     card (set (map (\<lambda>target. atan2 (ay target - ay asteroid) (ax target - ax asteroid)) asteroids))"

text \<open>Lines 21--23: the body of \<open>for asteroid in asteroids\<close>.\<close>

definition station_step ::
  "(int \<Rightarrow> int \<Rightarrow> 'a) \<Rightarrow> asteroid list \<Rightarrow> nat \<times> asteroid option \<Rightarrow> asteroid \<Rightarrow> nat \<times> asteroid option" where
  "station_step atan2 asteroids st asteroid =
     (case st of (max_count, station) \<Rightarrow>
        let count = visible_count atan2 asteroids asteroid in
        if max_count < count then (count, Some asteroid) else (max_count, station))"

definition best_station :: "(int \<Rightarrow> int \<Rightarrow> 'a) \<Rightarrow> asteroid list \<Rightarrow> nat \<times> asteroid option" where
  "best_station atan2 asteroids = foldl (station_step atan2 asteroids) (0, None) asteroids"

definition day10_part1 :: "(int \<Rightarrow> int \<Rightarrow> 'a) \<Rightarrow> asteroid list \<Rightarrow> nat" where
  "day10_part1 atan2 asteroids = fst (best_station atan2 asteroids)"

text \<open>Lines 26--29: the two dictionary comprehensions over the asteroids.\<close>

definition asteroid_to_distance ::
  "(int \<Rightarrow> 'b) \<Rightarrow> asteroid \<Rightarrow> asteroid list \<Rightarrow> (asteroid \<times> 'b) list" where
  "asteroid_to_distance sqrt_f station asteroids =
     foldl (\<lambda>d target. AList.update target
              (sqrt_f ((ay target - ay station) ^ 2 + (ax target - ax station) ^ 2)) d) [] asteroids"

definition asteroid_to_angle ::
  "(int \<Rightarrow> int \<Rightarrow> 'a::uminus) \<Rightarrow> asteroid \<Rightarrow> asteroid list \<Rightarrow> (asteroid \<times> 'a) list" where
  "asteroid_to_angle atan2 station asteroids =
     foldl (\<lambda>d target. AList.update target
              (- atan2 (ay target - ay station) (ax target - ax station)) d) [] asteroids"

text \<open>Lines 30--34: an empty list per angle, then every asteroid appended to its
  angle's list and the list sorted (stably) by distance.\<close>

definition add_to_angle ::
  "(asteroid \<times> 'b::linorder) list \<Rightarrow> ('a \<times> asteroid list) list \<Rightarrow> asteroid \<times> 'a \<Rightarrow> ('a \<times> asteroid list) list" where
  "add_to_angle to_distance angles p =
     (case p of (asteroid, angle) \<Rightarrow>
        AList.update angle
          (sort_key (\<lambda>x. the (map_of to_distance x)) (the (map_of angles angle) @ [asteroid])) angles)"

definition group_by_angle ::
  "(asteroid \<times> 'a) list \<Rightarrow> (asteroid \<times> 'b::linorder) list \<Rightarrow> ('a \<times> asteroid list) list" where
  "group_by_angle to_angle to_distance =
     foldl (add_to_angle to_distance) (map (\<lambda>angle. (angle, [])) (remdups (map snd to_angle))) to_angle"

text \<open>Lines 36--41: the first angle above \<open>half_pi\<close> splits the sorted angles and
  both parts are reversed; without such an angle the loop ends without \<open>break\<close>
  and the order stays ascending.\<close>

definition rotate_angles :: "'a::linorder \<Rightarrow> 'a list \<Rightarrow> 'a list" where
  "rotate_angles half_pi ordered_angles =
     (if list_ex (\<lambda>angle. half_pi < angle) ordered_angles
      then (let i = length (takeWhile (\<lambda>angle. \<not> half_pi < angle) ordered_angles)
            in rev (take i ordered_angles) @ rev (drop i ordered_angles))
      else ordered_angles)"

text \<open>Lines 43--54: the locals of the sweep; \<open>angles[angle]\<close> is mutated in place by
  \<open>pop(0)\<close>.\<close>

record 'a laser =
  angle_index :: nat
  removed_count :: nat
  angle_lists :: "('a \<times> asteroid list) list"
  removed :: "asteroid option"

definition laser_step :: "'a list \<Rightarrow> 'a laser \<Rightarrow> 'a laser" where
  "laser_step ordered_angles st =
     (let angle = ordered_angles ! angle_index st;
          asteroids = the (map_of (angle_lists st) angle);
          st' = (if asteroids \<noteq> []
                 then st\<lparr>angle_lists := AList.update angle (tl asteroids) (angle_lists st),
                         removed_count := Suc (removed_count st), removed := Some (hd asteroids)\<rparr>
                 else st)
      in st'\<lparr>angle_index := Suc (angle_index st) mod length ordered_angles\<rparr>)"

text \<open>\<open>while True\<close> with its \<open>break\<close> at the 200th removal; the loop need not end,
  so it is \<open>while_option\<close>.\<close>

definition vaporize :: "'a list \<Rightarrow> ('a \<times> asteroid list) list \<Rightarrow> 'a laser option" where
  "vaporize ordered_angles angles =
     while_option (\<lambda>st. removed_count st \<noteq> 200) (laser_step ordered_angles)
       \<lparr>angle_index = 0, removed_count = 0, angle_lists = angles, removed = None\<rparr>"

text \<open>Part 2 (lines 26--54). The outer \<open>option\<close> is termination. With no asteroid
  the comprehensions are empty and \<open>ordered_angles[0]\<close> raises \<open>IndexError\<close>.\<close>

definition day10_part2 ::
  "(int \<Rightarrow> int \<Rightarrow> 'a::{linorder, uminus}) \<Rightarrow> (int \<Rightarrow> 'b::linorder) \<Rightarrow> 'a \<Rightarrow> asteroid list \<Rightarrow>
   (day10_error + int) option" where
  "day10_part2 atan2 sqrt_f half_pi asteroids =
     (case snd (best_station atan2 asteroids) of
        None \<Rightarrow> Some (Inl (if asteroids = [] then AnglesIndexError else StationAttributeError))
      | Some station \<Rightarrow>
          (let angles = group_by_angle (asteroid_to_angle atan2 station asteroids)
                          (asteroid_to_distance sqrt_f station asteroids);
               ordered_angles = rotate_angles half_pi (sort (map fst angles))
           in if ordered_angles = [] then Some (Inl AnglesIndexError)
              else map_option (\<lambda>st. Inr (case removed st of Some r \<Rightarrow> ax r * 100 + ay r | None \<Rightarrow> 0))
                     (vaporize ordered_angles angles)))"

text \<open>An exact stand-in for the equality of \<open>math.atan2\<close> values on integer
  vectors: the primitive vector of the direction, with \<open>atan2(0, 0) = 0\<close>, the
  angle of \<open>(0, 1)\<close>, as IEEE arithmetic gives.\<close>

definition ray_angle :: "int \<Rightarrow> int \<Rightarrow> int \<times> int" where
  "ray_angle y x = (if y = 0 \<and> x = 0 then (0, 1) else (y div gcd y x, x div gcd y x))"

text \<open>The proof's measures of the sweep: the asteroids still listed, the invariant
  (the index is in range, the lists are keyed by exactly the ordered angles, every
  asteroid is removed or still listed), whether the list \<open>k\<close> angles ahead of
  the laser is non-empty, and the distance to the next such list.\<close>

definition listed :: "('a \<times> asteroid list) list \<Rightarrow> nat" where
  "listed al = sum_list (map (length \<circ> snd) al)"

definition laser_inv :: "'a list \<Rightarrow> nat \<Rightarrow> 'a laser \<Rightarrow> bool" where
  "laser_inv ordered_angles n st \<longleftrightarrow>
     angle_index st < length ordered_angles \<and>
     fst ` set (angle_lists st) = set ordered_angles \<and> distinct (map fst (angle_lists st)) \<and>
     removed_count st + listed (angle_lists st) = n \<and> removed_count st \<le> 200"

definition lit :: "'a list \<Rightarrow> 'a laser \<Rightarrow> nat \<Rightarrow> bool" where
  "lit ordered_angles st k \<longleftrightarrow>
     the (map_of (angle_lists st) (ordered_angles ! ((angle_index st + k) mod length ordered_angles))) \<noteq> []"

definition gap :: "'a list \<Rightarrow> 'a laser \<Rightarrow> nat" where
  "gap ordered_angles st =
     (if \<exists>k<length ordered_angles. lit ordered_angles st k then LEAST k. lit ordered_angles st k else 0)"

definition sweep_measure :: "'a list \<Rightarrow> nat \<Rightarrow> 'a laser \<Rightarrow> nat" where
  "sweep_measure ordered_angles n st =
     (n - removed_count st) * length ordered_angles + gap ordered_angles st"

text \<open>The premises of \<open>visible_count_self\<close>: \<open>atan2\<close> takes the angle of
  \<open>(0, 1)\<close> exactly on the ray to the right, and at \<open>(0, 0)\<close>; IEEE's \<open>atan2\<close>
  is \<open>+0.0\<close> there and nowhere else.\<close>

definition east_exact :: "(int \<Rightarrow> int \<Rightarrow> 'a) \<Rightarrow> bool" where
  "east_exact atan2 \<longleftrightarrow>
     atan2 0 0 = atan2 0 1 \<and> (\<forall>y x. (y, x) \<noteq> (0, 0) \<longrightarrow> (atan2 y x = atan2 0 1 \<longleftrightarrow> y = 0 \<and> 0 < x))"

subsection \<open>Lemmas\<close>

lemma map_of_in_keys: "k \<in> fst ` set al \<Longrightarrow> \<exists>v. map_of al k = Some v"
  by (metis map_of_eq_None_iff not_None_eq)

lemma listed_update:
  "distinct (map fst al) \<Longrightarrow> map_of al k = Some v \<Longrightarrow>
   listed (AList.update k v' al) + length v = listed al + length v'"
  by (induction al) (auto simp: listed_def)

lemma laser_step_inv:
  assumes inv: "laser_inv ordered_angles n st" and b: "removed_count st \<noteq> 200"
  shows "laser_inv ordered_angles n (laser_step ordered_angles st)"
proof -
  let ?a = "ordered_angles ! angle_index st"
  have i: "angle_index st < length ordered_angles"
    and keys: "fst ` set (angle_lists st) = set ordered_angles"
    and d: "distinct (map fst (angle_lists st))"
    and c: "removed_count st + listed (angle_lists st) = n"
    and r: "removed_count st < 200"
    using inv b unfolding laser_inv_def by auto
  have a: "?a \<in> fst ` set (angle_lists st)" using i keys by simp
  obtain v where v: "map_of (angle_lists st) ?a = Some v" using map_of_in_keys[OF a] by blast
  have m: "Suc (angle_index st) mod length ordered_angles < length ordered_angles"
    using i by (intro mod_less_divisor) linarith
  show ?thesis
  proof (cases "v = []")
    case True
    then show ?thesis using i keys d c r m v unfolding laser_step_def laser_inv_def Let_def by simp
  next
    case False
    have t: "listed (AList.update ?a (tl v) (angle_lists st)) + length v = listed (angle_lists st) + length (tl v)"
      using d v by (rule listed_update)
    have k: "fst ` set (AList.update ?a (tl v) (angle_lists st)) = fst ` set (angle_lists st)"
      using a by (simp add: insert_absorb)
    have "removed_count st + listed (angle_lists st) = Suc (removed_count st) + listed (AList.update ?a (tl v) (angle_lists st))"
      using t False by (cases v) auto
    then show ?thesis using i keys d c r m v False k
      unfolding laser_step_def laser_inv_def Let_def by (simp add: distinct_update)
  qed
qed

lemma listed_pos: "0 < listed al \<Longrightarrow> \<exists>k v. (k, v) \<in> set al \<and> v \<noteq> []"
proof (induction al)
  case (Cons p al)
  obtain k v where p: "p = (k, v)" by fastforce
  show ?case
  proof (cases "v = []")
    case True
    then show ?thesis using Cons by (auto simp: listed_def p)
  next
    case False
    then show ?thesis using p by auto
  qed
qed (simp add: listed_def)

lemma lit_shift:
  "lit ordered_angles (st\<lparr>angle_index := Suc (angle_index st) mod length ordered_angles\<rparr>) k =
   lit ordered_angles st (Suc k)"
  unfolding lit_def by (simp add: mod_add_left_eq)

lemma gap_lt: "0 < length ordered_angles \<Longrightarrow> gap ordered_angles st < length ordered_angles"
  unfolding gap_def by (auto intro: Least_le le_less_trans)

lemma exists_lit:
  assumes inv: "laser_inv ordered_angles n st" and pos: "0 < listed (angle_lists st)"
  shows "\<exists>k<length ordered_angles. lit ordered_angles st k"
proof -
  obtain a v where av: "(a, v) \<in> set (angle_lists st)" "v \<noteq> []" using listed_pos[OF pos] by blast
  have i: "angle_index st < length ordered_angles"
    and keys: "fst ` set (angle_lists st) = set ordered_angles"
    and d: "distinct (map fst (angle_lists st))"
    using inv unfolding laser_inv_def by auto
  have "a \<in> set ordered_angles" using av(1) keys by force
  then obtain j where j: "j < length ordered_angles" "ordered_angles ! j = a"
    by (auto simp: in_set_conv_nth)
  have m: "map_of (angle_lists st) a = Some v" using d av(1) by (rule map_of_is_SomeI)
  let ?k = "(j + length ordered_angles - angle_index st) mod length ordered_angles"
  have "(angle_index st + ?k) mod length ordered_angles =
        (angle_index st + (j + length ordered_angles - angle_index st)) mod length ordered_angles"
    by (simp add: mod_add_right_eq)
  also have "\<dots> = j" using i j by simp
  finally have "lit ordered_angles st ?k" using m av(2) j by (simp add: lit_def)
  moreover have "?k < length ordered_angles" using i by (intro mod_less_divisor) linarith
  ultimately show ?thesis by blast
qed

lemma gap_shift:
  assumes ex: "\<exists>k<length ordered_angles. lit ordered_angles st k" and z: "\<not> lit ordered_angles st 0"
  shows "gap ordered_angles (st\<lparr>angle_index := Suc (angle_index st) mod length ordered_angles\<rparr>) <
         gap ordered_angles st"
proof -
  let ?st' = "st\<lparr>angle_index := Suc (angle_index st) mod length ordered_angles\<rparr>"
  obtain k where k: "k < length ordered_angles" "lit ordered_angles st k" using ex by blast
  then obtain k' where k': "k = Suc k'" using z by (cases k) auto
  have "k' < length ordered_angles \<and> lit ordered_angles ?st' k'"
    using k k' by (simp add: lit_shift)
  then have ex': "\<exists>k<length ordered_angles. lit ordered_angles ?st' k" by blast
  have "(LEAST k. lit ordered_angles st k) = Suc (LEAST m. lit ordered_angles st (Suc m))"
    using k(2) z by (rule Least_Suc)
  moreover have "lit ordered_angles ?st' = (\<lambda>m. lit ordered_angles st (Suc m))"
    by (rule ext) (rule lit_shift)
  ultimately show ?thesis using ex ex' by (simp add: gap_def)
qed

lemma laser_step_measure:
  assumes inv: "laser_inv ordered_angles n st" and b: "removed_count st \<noteq> 200" and big: "200 \<le> n"
  shows "sweep_measure ordered_angles n (laser_step ordered_angles st) < sweep_measure ordered_angles n st"
proof -
  let ?a = "ordered_angles ! angle_index st"
  have i: "angle_index st < length ordered_angles"
    and c: "removed_count st + listed (angle_lists st) = n"
    and r: "removed_count st < 200"
    using inv b unfolding laser_inv_def by auto
  have pos: "0 < listed (angle_lists st)" using c r big by linarith
  have l0: "lit ordered_angles st 0 \<longleftrightarrow> the (map_of (angle_lists st) ?a) \<noteq> []"
    using i by (simp add: lit_def)
  have n0: "0 < length ordered_angles" using i by linarith
  show ?thesis
  proof (cases "lit ordered_angles st 0")
    case True
    have "gap ordered_angles (laser_step ordered_angles st) < length ordered_angles"
      using n0 by (rule gap_lt)
    moreover have "removed_count (laser_step ordered_angles st) = Suc (removed_count st)"
      using True l0 by (simp add: laser_step_def Let_def)
    moreover have "n - removed_count st = Suc (n - Suc (removed_count st))" using pos c by linarith
    ultimately show ?thesis
      unfolding sweep_measure_def by simp
  next
    case False
    then have st': "laser_step ordered_angles st = st\<lparr>angle_index := Suc (angle_index st) mod length ordered_angles\<rparr>"
      using l0 by (simp add: laser_step_def Let_def)
    have "gap ordered_angles (laser_step ordered_angles st) < gap ordered_angles st"
      unfolding st' using exists_lit[OF inv pos] False by (rule gap_shift)
    then show ?thesis by (simp add: sweep_measure_def st')
  qed
qed
lemma vaporize_returns:
  assumes "laser_inv ordered_angles n \<lparr>angle_index = 0, removed_count = 0, angle_lists = angles, removed = None\<rparr>"
  shows "vaporize ordered_angles angles \<noteq> None \<longleftrightarrow> 200 \<le> n"
proof
  assume some: "vaporize ordered_angles angles \<noteq> None"
  then obtain t where t: "vaporize ordered_angles angles = Some t" by blast
  have "laser_inv ordered_angles n t"
    by (rule while_option_rule[where P = "laser_inv ordered_angles n", OF _ t[unfolded vaporize_def] assms])
       (auto intro: laser_step_inv)
  moreover have "removed_count t = 200"
    using while_option_stop[OF t[unfolded vaporize_def]] by simp
  ultimately show "200 \<le> n" by (simp add: laser_inv_def)
next
  assume big: "200 \<le> n"
  have "\<exists>t. vaporize ordered_angles angles = Some t"
    unfolding vaporize_def
    using laser_step_inv laser_step_measure[OF _ _ big] assms
    by (intro measure_while_option_Some[where P = "laser_inv ordered_angles n" and f = "sweep_measure ordered_angles n"]) auto
  then show "vaporize ordered_angles angles \<noteq> None" by auto
qed

lemma foldl_update_keys:
  "fst ` set (foldl (\<lambda>d t. AList.update t (f t) d) d0 xs) = fst ` set d0 \<union> set xs \<and>
   (distinct (map fst d0) \<longrightarrow> distinct (map fst (foldl (\<lambda>d t. AList.update t (f t) d) d0 xs)))"
  by (induction xs arbitrary: d0) (auto simp: distinct_update)

lemma add_to_angle_inv:
  assumes "angle \<in> fst ` set angles" "distinct (map fst angles)"
  shows "fst ` set (add_to_angle to_distance angles (asteroid, angle)) = fst ` set angles \<and>
    distinct (map fst (add_to_angle to_distance angles (asteroid, angle))) \<and>
    listed (add_to_angle to_distance angles (asteroid, angle)) = Suc (listed angles)"
proof -
  obtain v where v: "map_of angles angle = Some v" using map_of_in_keys[OF assms(1)] by blast
  have "listed (AList.update angle (sort_key (\<lambda>x. the (map_of to_distance x)) (v @ [asteroid])) angles) + length v =
        listed angles + length (sort_key (\<lambda>x. the (map_of to_distance x)) (v @ [asteroid]))"
    using assms(2) v by (rule listed_update)
  then show ?thesis using assms v by (auto simp: add_to_angle_def distinct_update insert_absorb)
qed

lemma group_inv:
  "set (map snd xs) \<subseteq> fst ` set d0 \<Longrightarrow> distinct (map fst d0) \<Longrightarrow>
   fst ` set (foldl (add_to_angle to_distance) d0 xs) = fst ` set d0 \<and>
   distinct (map fst (foldl (add_to_angle to_distance) d0 xs)) \<and>
   listed (foldl (add_to_angle to_distance) d0 xs) = listed d0 + length xs"
proof (induction xs arbitrary: d0)
  case (Cons p xs)
  obtain asteroid angle where p: "p = (asteroid, angle)" by fastforce
  have "angle \<in> fst ` set d0" using Cons.prems(1) p by auto
  then have
    h: "fst ` set (add_to_angle to_distance d0 p) = fst ` set d0"
       "distinct (map fst (add_to_angle to_distance d0 p))"
       "listed (add_to_angle to_distance d0 p) = Suc (listed d0)"
    using add_to_angle_inv[of angle d0 to_distance asteroid] Cons.prems(2) p by auto
  have "set (map snd xs) \<subseteq> fst ` set (add_to_angle to_distance d0 p)" using Cons.prems(1) h(1) by auto
  from Cons.IH[OF this h(2)] h show ?case by simp
qed simp

lemma group_by_angle_inv:
  assumes "distinct (map fst to_angle)"
  shows "fst ` set (group_by_angle to_angle to_distance) = set (map snd to_angle) \<and>
    distinct (map fst (group_by_angle to_angle to_distance)) \<and>
    listed (group_by_angle to_angle to_distance) = length to_angle"
proof -
  let ?d0 = "map (\<lambda>angle. (angle, [] :: asteroid list)) (remdups (map snd to_angle))"
  have k: "fst ` set ?d0 = set (map snd to_angle)" by force
  have d: "distinct (map fst ?d0)" by (simp add: comp_def)
  have l: "listed ?d0 = 0" by (induction to_angle) (simp_all add: listed_def comp_def)
  show ?thesis
    using group_inv[of to_angle ?d0 to_distance] k d l
    by (simp add: group_by_angle_def)
qed

lemma rotate_angles_set: "set (rotate_angles half_pi xs) = set xs"
proof -
  have "set (rev (take i xs) @ rev (drop i xs)) = set xs" for i
    by (metis append_take_drop_id set_append set_rev)
  then show ?thesis by (simp add: rotate_angles_def Let_def)
qed

lemma visible_count_pos: "asteroids \<noteq> [] \<Longrightarrow> 0 < visible_count atan2 asteroids a"
  by (simp add: visible_count_def card_gt_0_iff)

lemma station_step_Some: "snd (foldl (station_step atan2 asteroids) (m, Some s) xs) \<noteq> None"
  by (induction xs arbitrary: m s) (auto simp: station_step_def Let_def)

lemma best_station_Some:
  assumes "asteroids \<noteq> []"
  obtains s where "snd (best_station atan2 asteroids) = Some s"
proof -
  obtain a rest where ar: "asteroids = a # rest" using assms by (cases asteroids) auto
  have "station_step atan2 asteroids (0, None) a = (visible_count atan2 asteroids a, Some a)"
    using visible_count_pos[OF assms] by (simp add: station_step_def Let_def)
  then have "snd (best_station atan2 asteroids) \<noteq> None"
    using station_step_Some[of atan2 asteroids] by (simp add: best_station_def ar)
  then show ?thesis using that by blast
qed

lemma best_station_Nil: "best_station atan2 [] = (0, None)"
  by (simp add: best_station_def)

lemma asteroid_to_angle_keys:
  "fst ` set (asteroid_to_angle atan2 station asteroids) = set asteroids \<and>
   distinct (map fst (asteroid_to_angle atan2 station asteroids))"
  using foldl_update_keys[of "\<lambda>target. - atan2 (ay target - ay station) (ax target - ax station)" "[]" asteroids]
  by (simp add: asteroid_to_angle_def)

lemma sweep_init:
  assumes "asteroids \<noteq> []"
  shows "rotate_angles half_pi (sort (map fst (group_by_angle (asteroid_to_angle atan2 station asteroids) to_distance))) \<noteq> [] \<and>
    laser_inv (rotate_angles half_pi (sort (map fst (group_by_angle (asteroid_to_angle atan2 station asteroids) to_distance))))
      (card (set asteroids))
      \<lparr>angle_index = 0, removed_count = 0,
       angle_lists = group_by_angle (asteroid_to_angle atan2 station asteroids) to_distance, removed = None\<rparr>"
proof -
  let ?ta = "asteroid_to_angle atan2 station asteroids"
  define angles where "angles = group_by_angle ?ta to_distance"
  define ordered_angles where "ordered_angles = rotate_angles half_pi (sort (map fst angles))"
  have ta: "fst ` set ?ta = set asteroids" "distinct (map fst ?ta)" by (simp_all add: asteroid_to_angle_keys)
  have len: "length ?ta = card (set asteroids)"
    using distinct_card[OF ta(2)] ta(1) by simp
  have g: "fst ` set angles = set (map snd ?ta)" "distinct (map fst angles)" "listed angles = length ?ta"
    using group_by_angle_inv[OF ta(2), of to_distance] by (simp_all add: angles_def)
  have o: "set ordered_angles = fst ` set angles" by (simp add: ordered_angles_def rotate_angles_set)
  have "?ta \<noteq> []" using ta(1) assms(1) by auto
  then have ne: "ordered_angles \<noteq> []" using o g(1) by auto
  then show ?thesis using o g len by (simp add: laser_inv_def angles_def ordered_angles_def)
qed

lemma ray_angle_east_exact: "east_exact ray_angle"
proof -
  have "ray_angle y x = (0, 1) \<longleftrightarrow> y = 0 \<and> 0 < x" if nz: "(y, x) \<noteq> (0, 0)" for y x
  proof
    assume r: "ray_angle y x = (0, 1)"
    have g: "gcd y x \<noteq> 0" using nz by simp
    have q: "y div gcd y x = 0" "x div gcd y x = 1" using r nz by (auto simp: ray_angle_def)
    have "y = y div gcd y x * gcd y x" by simp
    then have "y = 0" using q(1) by simp
    moreover have "x = x div gcd y x * gcd y x" by simp
    then have "x = gcd y x" using q(2) by simp
    ultimately show "y = 0 \<and> 0 < x" using g by (metis gcd_ge_0_int order_le_neq_trans)
  next
    assume "y = 0 \<and> 0 < x"
    then show "ray_angle y x = (0, 1)" by (simp add: ray_angle_def)
  qed
  moreover have r01: "ray_angle 0 1 = (0, 1)" by (simp add: ray_angle_def)
  moreover have "ray_angle 0 0 = (0, 1)" by (simp add: ray_angle_def)
  ultimately show ?thesis unfolding east_exact_def r01 by blast
qed

text \<open>C29: part 2's \<open>while True\<close> returns exactly when there are at least 200
  asteroids, the station itself counted (it is listed at its own angle, at distance
  0, and is popped like the others), whatever the values of \<open>atan2\<close> and
  \<open>sqrt\<close>; with fewer the sweep empties the lists and spins forever. With no asteroid
  it raises \<open>IndexError\<close>, which is a return.\<close>

theorem day10_part2_returns:
  "day10_part2 atan2 sqrt_f half_pi asteroids = None \<longleftrightarrow> asteroids \<noteq> [] \<and> card (set asteroids) < 200"
proof (cases "asteroids = []")
  case True
  then show ?thesis by (simp add: day10_part2_def best_station_Nil)
next
  case False
  then obtain station where st: "snd (best_station atan2 asteroids) = Some station"
    by (rule best_station_Some)
  let ?angles = "group_by_angle (asteroid_to_angle atan2 station asteroids) (asteroid_to_distance sqrt_f station asteroids)"
  let ?ordered = "rotate_angles half_pi (sort (map fst ?angles))"
  have i: "?ordered \<noteq> [] \<and>
    laser_inv ?ordered (card (set asteroids))
      \<lparr>angle_index = 0, removed_count = 0, angle_lists = ?angles, removed = None\<rparr>"
    by (rule sweep_init[OF False])
  have "vaporize ?ordered ?angles \<noteq> None \<longleftrightarrow> 200 \<le> card (set asteroids)"
    using i by (intro vaporize_returns) simp
  then show ?thesis using False st i by (auto simp: day10_part2_def Let_def)
qed

text \<open>C30: the direction count of part 1 includes the asteroid's own zero vector,
  \<open>atan2(0, 0) = 0\<close>, which is the angle of the ray to the right: an asteroid with
  no other asteroid due right of it is credited one direction too many.\<close>

theorem visible_count_self:
  assumes "east_exact atan2" "a \<in> set asteroids"
  shows "visible_count atan2 asteroids a =
    card ((\<lambda>t. atan2 (ay t - ay a) (ax t - ax a)) ` (set asteroids - {a})) +
    (if list_ex (\<lambda>t. ay t = ay a \<and> ax a < ax t) asteroids then 0 else 1)"
proof -
  let ?f = "\<lambda>t. atan2 (ay t - ay a) (ax t - ax a)"
  have zero: "atan2 0 0 = atan2 0 1"
    and east: "\<And>y x. (y, x) \<noteq> (0, 0) \<Longrightarrow> atan2 y x = atan2 0 1 \<longleftrightarrow> y = 0 \<and> 0 < x"
    using assms(1) by (auto simp: east_exact_def)
  have "?f ` set asteroids = ?f ` insert a (set asteroids - {a})"
    using assms(2) by (simp add: insert_absorb)
  then have s: "set (map ?f asteroids) = insert (?f a) (?f ` (set asteroids - {a}))"
    by (simp only: set_map image_insert)
  have fa: "?f a = atan2 0 1" using zero by simp
  have ne: "(ay t - ay a, ax t - ax a) \<noteq> (0, 0)" if "t \<noteq> a" for t
  proof
    assume "(ay t - ay a, ax t - ax a) = (0, 0)"
    then have "ax t = ax a" "ay t = ay a" by simp_all
    then show False using that asteroid.equality[of t a] by simp
  qed
  have "?f a \<in> ?f ` (set asteroids - {a}) \<longleftrightarrow> list_ex (\<lambda>t. ay t = ay a \<and> ax a < ax t) asteroids"
  proof
    assume "?f a \<in> ?f ` (set asteroids - {a})"
    then obtain t where tm: "t \<in> set asteroids - {a}" and ft: "?f a = ?f t" by (rule imageE)
    then have t: "t \<in> set asteroids" "t \<noteq> a" "?f t = atan2 0 1" using fa by simp_all
    then have "ay t - ay a = 0 \<and> 0 < ax t - ax a" using east[OF ne[OF t(2)]] by simp
    then show "list_ex (\<lambda>t. ay t = ay a \<and> ax a < ax t) asteroids" using t(1) by (auto simp: list_ex_iff)
  next
    assume "list_ex (\<lambda>t. ay t = ay a \<and> ax a < ax t) asteroids"
    then obtain t where t: "t \<in> set asteroids" "ay t = ay a" "ax a < ax t" by (auto simp: list_ex_iff)
    then have ta: "t \<noteq> a" by auto
    have ft: "?f t = atan2 0 1" using east[OF ne[OF ta]] t by simp
    have mem: "t \<in> set asteroids - {a}" using t(1) ta by simp
    show "?f a \<in> ?f ` (set asteroids - {a})"
      by (rule image_eqI[where x = t, OF _ mem]) (simp only: ft fa)
  qed
  then show ?thesis unfolding visible_count_def s by (simp add: card_insert_if)
qed

theorem visible_count_self_witness:
  "visible_count ray_angle (parse_asteroids [''.#..#'', ''.....'', ''#####'', ''....#'', ''...##''])
      \<lparr>ax = 4, ay = 0\<rparr> = 8"
proof -
  let ?A = "parse_asteroids [''.#..#'', ''.....'', ''#####'', ''....#'', ''...##'']"
  have m: "\<lparr>ax = 4, ay = 0\<rparr> \<in> set ?A" by code_simp
  have c: "card ((\<lambda>t. ray_angle (ay t - 0) (ax t - 4)) ` (set ?A - {\<lparr>ax = 4, ay = 0\<rparr>})) = 7" by code_simp
  have l: "\<not> list_ex (\<lambda>t. ay t = 0 \<and> 4 < ax t) ?A" by code_simp
  show ?thesis using visible_count_self[OF ray_angle_east_exact m] c l by simp
qed

lemma station_fold_first_max:
  assumes "xs \<noteq> []" "\<forall>x \<in> set xs. 0 < visible_count atan2 asteroids x"
  shows "\<exists>i < length xs. foldl (station_step atan2 asteroids) (0, None) xs =
            (visible_count atan2 asteroids (xs ! i), Some (xs ! i)) \<and>
          (\<forall>j < length xs. visible_count atan2 asteroids (xs ! j) \<le> visible_count atan2 asteroids (xs ! i)) \<and>
          (\<forall>j < i. visible_count atan2 asteroids (xs ! j) < visible_count atan2 asteroids (xs ! i))"
  using assms
proof (induction xs rule: rev_induct)
  case Nil
  then show ?case by simp
next
  case (snoc x xs)
  let ?c = "visible_count atan2 asteroids"
  show ?case
  proof (cases "xs = []")
    case True
    with snoc.prems show ?thesis by (auto simp: station_step_def Let_def)
  next
    case False
    with snoc obtain i where i: "i < length xs"
      and f: "foldl (station_step atan2 asteroids) (0, None) xs = (?c (xs ! i), Some (xs ! i))"
      and le: "\<forall>j < length xs. ?c (xs ! j) \<le> ?c (xs ! i)"
      and lt: "\<forall>j < i. ?c (xs ! j) < ?c (xs ! i)" by auto
    have f': "foldl (station_step atan2 asteroids) (0, None) (xs @ [x]) =
        (if ?c (xs ! i) < ?c x then (?c x, Some x) else (?c (xs ! i), Some (xs ! i)))"
      using f by (simp add: station_step_def)
    show ?thesis
    proof (cases "?c (xs ! i) < ?c x")
      case True
      have "\<forall>j < length (xs @ [x]). ?c ((xs @ [x]) ! j) \<le> ?c ((xs @ [x]) ! length xs)"
        using le True by (auto simp: nth_append less_Suc_eq)
      moreover have "\<forall>j < length xs. ?c ((xs @ [x]) ! j) < ?c ((xs @ [x]) ! length xs)"
        using le True by (auto simp: nth_append)
      ultimately show ?thesis using f' True
        by (intro exI[of _ "length xs"]) simp
    next
      case False
      have "\<forall>j < length (xs @ [x]). ?c ((xs @ [x]) ! j) \<le> ?c ((xs @ [x]) ! i)"
        using le False i by (auto simp: nth_append less_Suc_eq)
      moreover have "\<forall>j < i. ?c ((xs @ [x]) ! j) < ?c ((xs @ [x]) ! i)"
        using lt i by (simp add: nth_append)
      ultimately show ?thesis using f' False i
        by (intro exI[of _ i]) (simp add: nth_append)
    qed
  qed
qed

text \<open>C31: part 1 picks the first asteroid, in the order of the list, with the largest
  count: the strict \<open>count > max_count\<close> keeps an earlier asteroid on a tie, and the
  start at 0 with \<open>None\<close> is overtaken by the first asteroid, whose count is at least
  1. This holds for any atan2.\<close>

theorem best_station_first_max:
  assumes "asteroids \<noteq> []"
  shows "\<exists>i < length asteroids.
           best_station atan2 asteroids =
             (visible_count atan2 asteroids (asteroids ! i), Some (asteroids ! i)) \<and>
           (\<forall>j < length asteroids.
              visible_count atan2 asteroids (asteroids ! j) \<le> visible_count atan2 asteroids (asteroids ! i)) \<and>
           (\<forall>j < i. visible_count atan2 asteroids (asteroids ! j) < visible_count atan2 asteroids (asteroids ! i))"
  unfolding best_station_def
  using station_fold_first_max[OF assms] visible_count_pos[OF assms] by blast

theorem best_station_first_max_witness:
  "list_all (\<lambda>a. visible_count ray_angle (parse_asteroids [''.#..#'', ''.....'', ''#####'', ''....#'', ''...##'']) a \<le> 8)
     (parse_asteroids [''.#..#'', ''.....'', ''#####'', ''....#'', ''...##''])"
proof -
  let ?A = "parse_asteroids [''.#..#'', ''.....'', ''#####'', ''....#'', ''...##'']"
  have ne: "?A \<noteq> []" by code_simp
  have b: "best_station ray_angle ?A = (8, Some \<lparr>ax = 4, ay = 0\<rparr>)" by code_simp
  from best_station_first_max[OF ne, of ray_angle] obtain i where
    f: "best_station ray_angle ?A = (visible_count ray_angle ?A (?A ! i), Some (?A ! i))"
    and le: "\<forall>j < length ?A. visible_count ray_angle ?A (?A ! j) \<le> visible_count ray_angle ?A (?A ! i)"
    by blast
  from f b have "visible_count ray_angle ?A (?A ! i) = 8" by (simp only: prod.inject)
  with le show ?thesis by (simp only: list_all_length)
qed

text \<open>On the puzzle's first example every asteroid in the right-hand column is
  credited one direction too many, so the station chosen is \<open>(4, 0)\<close>, which sees 7
  asteroids, and not \<open>(3, 4)\<close>, which sees 8; the printed count 8 is right only
  because \<open>(4, 0)\<close> is inflated to it.\<close>

lemma day10_example_station:
  "best_station ray_angle (parse_asteroids [''.#..#'', ''.....'', ''#####'', ''....#'', ''...##'']) =
     (8, Some \<lparr>ax = 4, ay = 0\<rparr>)
   \<and> card ((\<lambda>t. ray_angle (ay t - 4) (ax t - 3)) `
       (set (parse_asteroids [''.#..#'', ''.....'', ''#####'', ''....#'', ''...##'']) - {\<lparr>ax = 3, ay = 4\<rparr>})) = 8"
  by code_simp

end
