(* ===== verification/Day12.thy ===== *)
theory Day12
  imports Prelude "HOL-Library.While_Combinator"
begin

text \<open>The moon simulation of src/day-12.py. A \<open>Moon\<close> (lines 10--26) holds its
  position, its start position and its velocity. \<open>time_step\<close> (lines 60--83) first
  applies gravity to every pair of \<open>itertools.combinations(moons, 2)\<close>, in the
  order \<open>(0,1), (0,2), ..., (1,2), ...\<close>, changing the two moons' velocities in
  place, then moves every moon by its velocity. The moons are distinct objects (each
  a \<open>deepcopy\<close>), so the list of records with index updates is faithful. Part 2
  (lines 42--57) steps until each axis has returned to its start with zero
  velocity; the loop need not end, so it is \<open>while_option\<close>. The one-axis
  simulation \<open>axis_step\<close> is the reference against which the axes are shown to
  evolve independently, the premise of part 2's least common multiple; it is also
  reversible (a step is injective on each axis), so the first repeat of an axis is a
  return to its start, which is all that part 2 tests for.\<close>

record moon =
  mx :: int
  my :: int
  mz :: int
  start_x :: int
  start_y :: int
  start_z :: int
  mvx :: int
  mvy :: int
  mvz :: int

definition Moon :: "int \<Rightarrow> int \<Rightarrow> int \<Rightarrow> moon" where
  "Moon x y z =
     \<lparr>mx = x, my = y, mz = z, start_x = x, start_y = y, start_z = z, mvx = 0, mvy = 0, mvz = 0\<rparr>"

definition total_energy :: "moon \<Rightarrow> int" where
  "total_energy m = (\<bar>mx m\<bar> + \<bar>my m\<bar> + \<bar>mz m\<bar>) * (\<bar>mvx m\<bar> + \<bar>mvy m\<bar> + \<bar>mvz m\<bar>)"

text \<open>The pull along one axis: the velocity changes of the first and the second moon
  for their two coordinates.\<close>

definition pull :: "int \<Rightarrow> int \<Rightarrow> int" where
  "pull a b = (if a > b then -1 else if a < b then 1 else 0)"

definition gravity :: "moon \<Rightarrow> moon \<Rightarrow> moon \<times> moon" where
  "gravity first second =
     (first\<lparr>mvx := mvx first + pull (mx first) (mx second),
            mvy := mvy first + pull (my first) (my second),
            mvz := mvz first + pull (mz first) (mz second)\<rparr>,
      second\<lparr>mvx := mvx second - pull (mx first) (mx second),
             mvy := mvy second - pull (my first) (my second),
             mvz := mvz second - pull (mz first) (mz second)\<rparr>)"

definition combinations2 :: "nat \<Rightarrow> (nat \<times> nat) list" where
  "combinations2 n = concat (map (\<lambda>i. map (\<lambda>j. (i, j)) [Suc i..<n]) [0..<n])"

definition gravity_pair :: "moon list \<Rightarrow> nat \<times> nat \<Rightarrow> moon list" where
  "gravity_pair moons p =
     (case p of (i, j) \<Rightarrow>
        (case gravity (moons ! i) (moons ! j) of (first, second) \<Rightarrow> moons[i := first, j := second]))"

definition apply_velocity :: "moon \<Rightarrow> moon" where
  "apply_velocity m = m\<lparr>mx := mx m + mvx m, my := my m + mvy m, mz := mz m + mvz m\<rparr>"

definition time_step :: "moon list \<Rightarrow> moon list" where
  "time_step moons = map apply_velocity (foldl gravity_pair moons (combinations2 (length moons)))"

text \<open>Part 1 (lines 37--40).\<close>

fun run_steps :: "nat \<Rightarrow> moon list \<Rightarrow> moon list" where
  "run_steps 0 moons = moons"
| "run_steps (Suc n) moons = run_steps n (time_step moons)"

definition day12_part1 :: "nat \<Rightarrow> moon list \<Rightarrow> int" where
  "day12_part1 steps moons = sum_list (map total_energy (run_steps steps moons))"

text \<open>Part 2 (lines 42--57): the state is the moons, the dictionary \<open>repeats\<close> (in
  insertion order) and \<open>count\<close>.\<close>

definition axis_back :: "(moon \<Rightarrow> int) \<Rightarrow> (moon \<Rightarrow> int) \<Rightarrow> (moon \<Rightarrow> int) \<Rightarrow> moon list \<Rightarrow> bool" where
  "axis_back pos start vel moons = list_all (\<lambda>m. pos m = start m \<and> vel m = 0) moons"

definition record_repeats :: "moon list \<Rightarrow> nat \<Rightarrow> (char \<times> nat) list \<Rightarrow> (char \<times> nat) list" where
  "record_repeats moons count repeats =
     (let r1 = (if map_of repeats CHR ''x'' = None \<and> axis_back mx start_x mvx moons
                then AList.update CHR ''x'' count repeats else repeats);
          r2 = (if map_of r1 CHR ''y'' = None \<and> axis_back my start_y mvy moons
                then AList.update CHR ''y'' count r1 else r1)
      in if map_of r2 CHR ''z'' = None \<and> axis_back mz start_z mvz moons
         then AList.update CHR ''z'' count r2 else r2)"

definition repeat_loop :: "moon list \<Rightarrow> (moon list \<times> (char \<times> nat) list \<times> nat) option" where
  "repeat_loop moons =
     while_option (\<lambda>(moons, repeats, count). length repeats < 3)
       (\<lambda>(moons, repeats, count). (time_step moons, record_repeats moons count repeats, Suc count))
       (time_step moons, [], 1)"

definition lcm_list :: "nat list \<Rightarrow> nat" where
  "lcm_list values = foldl (\<lambda>a b. (a * b) div gcd a b) (hd values) (tl values)"

definition day12_part2 :: "moon list \<Rightarrow> nat option" where
  "day12_part2 moons = map_option (\<lambda>(moons, repeats, count). lcm_list (map snd repeats)) (repeat_loop moons)"

text \<open>The reference for part 2's per-axis search: one axis of the simulation on its
  own, the list of (position, velocity) pairs of the moons, with the same pulls in the
  same pair order and the same move.\<close>

definition axis :: "(moon \<Rightarrow> int) \<Rightarrow> (moon \<Rightarrow> int) \<Rightarrow> moon list \<Rightarrow> (int \<times> int) list" where
  "axis pos vel moons = map (\<lambda>m. (pos m, vel m)) moons"

definition axis_pull_pair :: "(int \<times> int) list \<Rightarrow> nat \<times> nat \<Rightarrow> (int \<times> int) list" where
  "axis_pull_pair ps p =
     (case p of (i, j) \<Rightarrow>
        (case (ps ! i, ps ! j) of ((xi, vi), (xj, vj)) \<Rightarrow>
           ps[i := (xi, vi + pull xi xj), j := (xj, vj - pull xi xj)]))"

definition axis_step :: "(int \<times> int) list \<Rightarrow> (int \<times> int) list" where
  "axis_step ps = map (\<lambda>(x, v). (x + v, v)) (foldl axis_pull_pair ps (combinations2 (length ps)))"

fun axis_run :: "nat \<Rightarrow> (int \<times> int) list \<Rightarrow> (int \<times> int) list" where
  "axis_run 0 ps = ps"
| "axis_run (Suc n) ps = axis_run n (axis_step ps)"

text \<open>Proof device for the reversibility of a step: the same velocities shifted by
  a fixed amount per moon.\<close>

definition shift :: "int list \<Rightarrow> (int \<times> int) list \<Rightarrow> (int \<times> int) list" where
  "shift cs ps = map (\<lambda>((x, v), c). (x, v + c)) (zip ps cs)"

subsection \<open>Lemmas\<close>

lemma apply_velocity_keeps [simp]:
  "mvx (apply_velocity m) = mvx m" "mvy (apply_velocity m) = mvy m" "mvz (apply_velocity m) = mvz m"
  by (simp_all add: apply_velocity_def)

lemma sum_list_update_int:
  "k < length xs \<Longrightarrow> sum_list ((xs :: int list)[k := x]) = sum_list xs + x - xs ! k"
  by (induction xs arbitrary: k) (auto split: nat.split)

lemma sum_map_update:
  "k < length ms \<Longrightarrow> sum_list (map f (ms[k := m])) = sum_list (map f ms) + (f m :: int) - f (ms ! k)"
  by (simp add: map_update sum_list_update_int)

lemma gravity_pair_length [simp]: "length (gravity_pair moons p) = length moons"
  by (simp add: gravity_pair_def split: prod.splits)

lemma gravity_pair_sum:
  assumes "i < j" "j < length moons" and f: "f = mvx \<or> f = mvy \<or> f = mvz"
  shows "sum_list (map f (gravity_pair moons (i, j))) = sum_list (map f moons)"
  using assms by (auto simp: gravity_pair_def gravity_def sum_map_update nth_list_update)

lemma combinations2_valid: "(i, j) \<in> set (combinations2 n) \<Longrightarrow> i < j \<and> j < n"
  by (auto simp: combinations2_def)

lemma foldl_gravity_sum:
  assumes "\<forall>(i, j) \<in> set ps. i < j \<and> j < length moons" and "f = mvx \<or> f = mvy \<or> f = mvz"
  shows "sum_list (map f (foldl gravity_pair moons ps)) = sum_list (map f moons)"
  using assms(1)
proof (induction ps arbitrary: moons)
  case Nil
  then show ?case by simp
next
  case (Cons p ps)
  obtain i j where p: "p = (i, j)" by fastforce
  have "sum_list (map f (foldl gravity_pair (gravity_pair moons p) ps)) = sum_list (map f (gravity_pair moons p))"
    using Cons by simp
  also have "\<dots> = sum_list (map f moons)" using Cons.prems p assms(2) by (auto intro: gravity_pair_sum)
  finally show ?case by simp
qed

lemma axis_gravity_pair:
  assumes "(pos, vel) \<in> {(mx, mvx), (my, mvy), (mz, mvz)}" "i < length moons" "j < length moons"
  shows "axis pos vel (gravity_pair moons (i, j)) = axis_pull_pair (axis pos vel moons) (i, j)"
  using assms
  by (auto simp: axis_def gravity_pair_def gravity_def axis_pull_pair_def map_update)

lemma axis_foldl_gravity:
  assumes "(pos, vel) \<in> {(mx, mvx), (my, mvy), (mz, mvz)}"
  shows "\<forall>(i, j) \<in> set ps. i < length moons \<and> j < length moons \<Longrightarrow>
    axis pos vel (foldl gravity_pair moons ps) = foldl axis_pull_pair (axis pos vel moons) ps"
proof (induction ps arbitrary: moons)
  case (Cons p ps)
  obtain i j where p: "p = (i, j)" by fastforce
  have "axis pos vel (gravity_pair moons p) = axis_pull_pair (axis pos vel moons) p"
    using Cons.prems p assms by (auto intro: axis_gravity_pair)
  then show ?case using Cons by simp
qed simp

subsection \<open>Properties\<close>

text \<open>C32: a time step conserves the total velocity on each axis: gravity acts in
  equal and opposite pairs, and moving changes no velocity.\<close>

theorem time_step_momentum:
  "sum_list (map mvx (time_step moons)) = sum_list (map mvx moons) \<and>
   sum_list (map mvy (time_step moons)) = sum_list (map mvy moons) \<and>
   sum_list (map mvz (time_step moons)) = sum_list (map mvz moons)"
proof -
  have c: "\<forall>(i, j) \<in> set (combinations2 (length moons)). i < j \<and> j < length moons"
    using combinations2_valid by blast
  show ?thesis
    unfolding time_step_def
    using foldl_gravity_sum[OF c, of mvx] foldl_gravity_sum[OF c, of mvy] foldl_gravity_sum[OF c, of mvz]
    by (simp add: comp_def)
qed

lemma time_step_axes:
  "axis mx mvx (time_step moons) = axis_step (axis mx mvx moons) \<and>
   axis my mvy (time_step moons) = axis_step (axis my mvy moons) \<and>
   axis mz mvz (time_step moons) = axis_step (axis mz mvz moons)"
proof -
  have c: "\<forall>(i, j) \<in> set (combinations2 (length moons)). i < length moons \<and> j < length moons"
    using combinations2_valid by fastforce
  have v: "axis pos vel (map apply_velocity ms) = map (\<lambda>(x, v). (x + v, v)) (axis pos vel ms)"
    if "(pos, vel) \<in> {(mx, mvx), (my, mvy), (mz, mvz)}" for pos vel ms
    using that by (auto simp: axis_def apply_velocity_def)
  have "axis pos vel (time_step moons) = axis_step (axis pos vel moons)"
    if a: "(pos, vel) \<in> {(mx, mvx), (my, mvy), (mz, mvz)}" for pos vel
    unfolding time_step_def axis_step_def v[OF a] axis_foldl_gravity[OF a c]
    by (simp add: axis_def)
  then show ?thesis by simp
qed

text \<open>C33: the axes of the simulation are independent: after any number of steps,
  each axis of the moons is the one-axis simulation of that axis alone. This is what
  makes part 2's search sound, which finds each axis's period separately and takes
  their least common multiple.\<close>

theorem run_steps_axes:
  "axis mx mvx (run_steps n moons) = axis_run n (axis mx mvx moons) \<and>
   axis my mvy (run_steps n moons) = axis_run n (axis my mvy moons) \<and>
   axis mz mvz (run_steps n moons) = axis_run n (axis mz mvz moons)"
  by (induction n arbitrary: moons) (simp_all add: time_step_axes)

subsection \<open>Reversibility\<close>

lemma length_shift [simp]: "length cs = length ps \<Longrightarrow> length (shift cs ps) = length ps"
  by (simp add: shift_def)

lemma shift_nth: "length cs = length ps \<Longrightarrow> k < length ps \<Longrightarrow> shift cs ps ! k = (fst (ps ! k), snd (ps ! k) + cs ! k)"
  by (simp add: shift_def split: prod.splits)

lemma axis_pull_pair_length [simp]: "length (axis_pull_pair ps p) = length ps"
  by (simp add: axis_pull_pair_def split: prod.splits)

lemma axis_pull_pair_shift:
  assumes "i < length ps" "j < length ps" "i \<noteq> j" "length cs = length ps"
  shows "axis_pull_pair (shift cs ps) (i, j) = shift cs (axis_pull_pair ps (i, j))"
  using assms
  by (auto simp: list_eq_iff_nth_eq shift_nth axis_pull_pair_def nth_list_update split: prod.splits)

lemma foldl_pull_shift:
  "\<forall>(i, j) \<in> set pairs. i < j \<and> j < length ps \<Longrightarrow> length cs = length ps \<Longrightarrow>
     foldl axis_pull_pair (shift cs ps) pairs = shift cs (foldl axis_pull_pair ps pairs)"
proof (induction pairs arbitrary: ps)
  case (Cons p pairs)
  obtain i j where p: "p = (i, j)" by fastforce
  with Cons.prems have "axis_pull_pair (shift cs ps) p = shift cs (axis_pull_pair ps p)"
    by (auto intro: axis_pull_pair_shift)
  with Cons show ?case by simp
qed simp

lemma map_fst_axis_pull_pair:
  "i < length ps \<Longrightarrow> j < length ps \<Longrightarrow> map fst (axis_pull_pair ps (i, j)) = map fst ps"
  by (auto simp: list_eq_iff_nth_eq axis_pull_pair_def nth_list_update split: prod.splits)

lemma map_fst_foldl_pull:
  "\<forall>(i, j) \<in> set pairs. i < j \<and> j < length ps \<Longrightarrow>
     map fst (foldl axis_pull_pair ps pairs) = map fst ps"
proof (induction pairs arbitrary: ps)
  case (Cons p pairs)
  obtain i j where p: "p = (i, j)" by fastforce
  with Cons.prems have "map fst (axis_pull_pair ps p) = map fst ps"
    by (auto intro: map_fst_axis_pull_pair)
  moreover have "\<forall>(i, j) \<in> set pairs. i < j \<and> j < length (axis_pull_pair ps p)"
    using Cons.prems by auto
  ultimately show ?case using Cons.IH by simp
qed simp

lemma shift_diff:
  assumes "map fst qs = map fst ps"
  shows "qs = shift (map2 (-) (map snd qs) (map snd ps)) ps"
proof -
  have l: "length qs = length ps" using arg_cong[OF assms, of length] by simp
  show ?thesis
  proof (rule nth_equalityI)
    show "length qs = length (shift (map2 (-) (map snd qs) (map snd ps)) ps)" using l by simp
  next
    fix k assume "k < length qs"
    moreover have "map fst qs ! k = map fst ps ! k" using assms by simp
    ultimately have "fst (qs ! k) = fst (ps ! k)" using l by simp
    with \<open>k < length qs\<close> show "qs ! k = shift (map2 (-) (map snd qs) (map snd ps)) ps ! k"
      using l by (simp add: shift_nth prod_eq_iff)
  qed
qed

lemma shift_fixed: "length cs = length ps \<Longrightarrow> shift cs ps = ps \<Longrightarrow> set cs \<subseteq> {0}"
  by (auto simp: list_eq_iff_nth_eq shift_nth in_set_conv_nth prod_eq_iff)

lemma shift_zero: "length cs = length ps \<Longrightarrow> set cs \<subseteq> {0} \<Longrightarrow> shift cs ps = ps"
proof (rule nth_equalityI)
  fix k assume l: "length cs = length ps" and z: "set cs \<subseteq> {0}" and k: "k < length (shift cs ps)"
  then have "k < length cs" by simp
  then have "cs ! k \<in> set cs" by (rule nth_mem)
  with z have "cs ! k = 0" by auto
  with l k show "shift cs ps ! k = ps ! k" by (simp add: shift_nth)
qed simp

lemma move_inj: "map (\<lambda>(x, v). (x + v, v :: int)) ps = map (\<lambda>(x, v). (x + v, v)) qs \<Longrightarrow> ps = qs"
  by (rule inj_map_eq_map[THEN iffD1, of "\<lambda>(x, v). (x + v, v)"]) (auto simp: inj_on_def)

lemma foldl_pull_length [simp]: "length (foldl axis_pull_pair ps pairs) = length ps"
  by (induction pairs arbitrary: ps) simp_all

lemma combinations2_ok: "\<forall>(i, j) \<in> set (combinations2 (length ps)). i < j \<and> j < length ps"
  using combinations2_valid by blast

lemma axis_step_inj: "inj axis_step"
proof (rule injI)
  fix ps qs assume eq: "axis_step ps = axis_step qs"
  have l: "length qs = length ps" using arg_cong[OF eq, of length] by (simp add: axis_step_def)
  define P where "P = combinations2 (length ps)"
  have okp: "\<forall>(i, j) \<in> set P. i < j \<and> j < length ps" unfolding P_def by (rule combinations2_ok)
  have okq: "\<forall>(i, j) \<in> set P. i < j \<and> j < length qs" using okp l by simp
  have "map (\<lambda>(x, v). (x + v, v)) (foldl axis_pull_pair ps P) =
        map (\<lambda>(x, v). (x + v, v)) (foldl axis_pull_pair qs P)"
    using eq l unfolding axis_step_def P_def by simp
  then have r: "foldl axis_pull_pair ps P = foldl axis_pull_pair qs P" by (rule move_inj)
  have "map fst qs = map fst ps"
    using map_fst_foldl_pull[OF okp] map_fst_foldl_pull[OF okq] r by simp
  define cs where "cs = map2 (-) (map snd qs) (map snd ps)"
  have lc: "length cs = length ps" using l unfolding cs_def by simp
  have q: "qs = shift cs ps" unfolding cs_def by (rule shift_diff) fact
  have "shift cs (foldl axis_pull_pair ps P) = foldl axis_pull_pair ps P"
    using foldl_pull_shift[OF okp lc] r q by simp
  then have "set cs \<subseteq> {0}" using lc by (intro shift_fixed) simp_all
  then show "ps = qs" using q lc shift_zero by simp
qed

lemma axis_run_add: "axis_run (m + n) ps = axis_run n (axis_run m ps)"
  by (induction m arbitrary: ps) simp_all

lemma axis_run_inj: "axis_run n ps = axis_run n qs \<Longrightarrow> ps = qs"
  by (induction n arbitrary: ps qs) (auto dest: injD[OF axis_step_inj])

lemma axis_run_first_repeat:
  assumes "k < n" "axis_run n ps = axis_run k ps"
  shows "axis_run (n - k) ps = ps"
proof -
  have "axis_run k (axis_run (n - k) ps) = axis_run k ps"
    using assms axis_run_add[of "n - k" k ps] by simp
  then show ?thesis by (rule axis_run_inj)
qed

lemma start_gravity_pair:
  assumes "start \<in> {start_x, start_y, start_z}" "i < length moons" "j < length moons"
  shows "map start (gravity_pair moons (i, j)) = map start moons"
  using assms by (auto simp: gravity_pair_def gravity_def list_eq_iff_nth_eq nth_list_update)

lemma start_time_step:
  assumes "start \<in> {start_x, start_y, start_z}"
  shows "map start (time_step moons) = map start moons"
proof -
  have "\<forall>(i, j) \<in> set ps. i < length ms \<and> j < length ms \<Longrightarrow>
          map start (foldl gravity_pair ms ps) = map start ms" for ps ms
  proof (induction ps arbitrary: ms)
    case (Cons p ps)
    obtain i j where p: "p = (i, j)" by fastforce
    have "map start (gravity_pair ms p) = map start ms"
      using Cons.prems p assms by (auto intro: start_gravity_pair)
    then show ?case using Cons by simp
  qed simp
  moreover have "\<forall>(i, j) \<in> set (combinations2 (length moons)). i < length moons \<and> j < length moons"
    using combinations2_valid by fastforce
  ultimately show ?thesis using assms by (auto simp: time_step_def apply_velocity_def comp_def)
qed

lemma start_run_steps:
  "start \<in> {start_x, start_y, start_z} \<Longrightarrow> map start (run_steps n moons) = map start moons"
  by (induction n arbitrary: moons) (simp_all add: start_time_step)

lemma axis_run_steps:
  "(pos, vel) \<in> {(mx, mvx), (my, mvy), (mz, mvz)} \<Longrightarrow>
     axis pos vel (run_steps n moons) = axis_run n (axis pos vel moons)"
  by (induction n arbitrary: moons) (auto simp: time_step_axes)

lemma axis_back_axis:
  "axis_back pos start vel moons \<longleftrightarrow> axis pos vel moons = map (\<lambda>s. (s, 0)) (map start moons)"
  by (induction moons) (auto simp: axis_back_def axis_def)

text \<open>C34: a step is reversible on each axis, so an axis that ever repeats an earlier
  state of itself has first returned to its start: if the axis is the same after
  \<open>k\<close> and after \<open>n > k\<close> steps, then after \<open>n - k\<close> steps every moon is back at its
  start position with velocity 0 on that axis. This is why part 2 may test only for the
  return to the start (lines 47--52) and never for a repeat of a later state.\<close>

theorem axis_repeat_returns_to_start:
  assumes ax: "(pos, start, vel) \<in> {(mx, start_x, mvx), (my, start_y, mvy), (mz, start_z, mvz)}"
    and returned: "axis_back pos start vel moons"
    and kn: "k < n"
    and rep: "axis pos vel (run_steps n moons) = axis pos vel (run_steps k moons)"
  shows "axis_back pos start vel (run_steps (n - k) moons)"
proof -
  have pv: "(pos, vel) \<in> {(mx, mvx), (my, mvy), (mz, mvz)}" and st: "start \<in> {start_x, start_y, start_z}"
    using ax by auto
  have "axis_run n (axis pos vel moons) = axis_run k (axis pos vel moons)"
    using rep by (simp add: axis_run_steps[OF pv])
  then have "axis_run (n - k) (axis pos vel moons) = axis pos vel moons"
    using kn by (rule axis_run_first_repeat[rotated])
  then have "axis pos vel (run_steps (n - k) moons) = axis pos vel moons"
    by (simp add: axis_run_steps[OF pv])
  then show ?thesis
    using returned by (simp add: axis_back_axis start_run_steps[OF st])
qed

theorem axis_repeat_returns_to_start_witness:
  "axis_back mx start_x mvx (run_steps 18 [Moon (-1) 0 2, Moon 2 (-10) (-7), Moon 4 (-8) 8, Moon 3 5 (-1)])"
proof -
  let ?ms = "[Moon (-1) 0 2, Moon 2 (-10) (-7), Moon 4 (-8) 8, Moon 3 5 (-1)]"
  have b: "axis_back mx start_x mvx ?ms" by code_simp
  have r: "axis mx mvx (run_steps 18 ?ms) = axis mx mvx (run_steps 0 ?ms)" by code_simp
  have "(mx, start_x, mvx) \<in> {(mx, start_x, mvx), (my, start_y, mvy), (mz, start_z, mvz)}" by simp
  from axis_repeat_returns_to_start[OF this b _ r] show ?thesis by simp
qed

text \<open>The puzzle's first example: after 10 steps the total energy is 179.\<close>

lemma day12_example:
  "day12_part1 10 [Moon (-1) 0 2, Moon 2 (-10) (-7), Moon 4 (-8) 8, Moon 3 5 (-1)] = 179"
  by code_simp

end
