(* ===== verification/Spec2Isabelle.thy ===== *)
theory Spec2Isabelle
  imports Refinement Robot Arcade Thread Day01 Day03 Day04 Day06 Day08 Day10 Day12
begin

text \<open>
  \<^bold>\<open>A verification development of the Intcode virtual machine of
  toasty-toast/advent-of-code-2019.\<close>

  \<^bold>\<open>The program.\<close> The repository is a set of daily puzzle scripts. The one
  reused piece is the Intcode machine, rewritten with growing capability in
  src/day-02.py (\<open>run_program\<close>: ADD, MULTIPLY, HALT on a list), src/day-05.py
  (\<open>run_program\<close>: eight opcodes, position and immediate mode, on a list, with
  standard input and output), src/day-07.py (class \<open>IntcodeComputer\<close> on a list,
  with an input queue, an output handler and a thread) and src/day-09.py,
  src/day-11.py, src/day-13.py (the same class on a dictionary, with relative mode and
  \<open>ADJUST_REL_BASE\<close>; day-13 adds the \<open>waiting_for_input\<close> flag). Its parts are
  the memory (a dictionary read with default 0, or a list), the decoder (opcode and
  per-parameter mode digits of the word at the program counter, operand words), the
  executor (the \<open>if\<close>/\<open>elif\<close> chain of \<open>__run_program\<close>), the input channel (a
  \<open>queue.Queue\<close> under a \<open>threading.Condition\<close>), the instance's thread, and the
  orchestrators of the puzzles, which wire output handlers to \<open>send_input\<close> of other
  instances (day-07) or of the same one (day-11), or poll the instance (day-13).

  \<^bold>\<open>Theories.\<close>
  \<^item> \<open>Prelude\<close>: the dictionary type (association lists with distinct keys in
    insertion order), the exceptions as the datatype \<open>error\<close>, propagation
    \<open>bind_err\<close> on \<open>error + 'a\<close>, Python list subscripts \<open>py_get\<close>/\<open>py_set\<close>.
  \<^item> \<open>Memory\<close>, \<open>Channel\<close>, \<open>Decoder\<close>, \<open>Executor\<close>, \<open>Machine\<close>: the
    dictionary machine of src/day-09.py (also the class of day-11 and day-13):
    \<open>init_memory\<close>, \<open>read_memory\<close>, \<open>write_memory\<close>, \<open>mem_get\<close>, \<open>mem_len\<close>;
    \<open>send_input\<close>, \<open>get_next_input\<close>; \<open>OPCODE_TO_INST_SIZE\<close>, \<open>parameter\<close>,
    \<open>fetch_parameters\<close>, \<open>decode\<close>; the state record \<open>vm\<close> (memory, queue, last
    output, the sequence handed to the output handler, and the thread's locals \<open>i\<close>
    and \<open>relative_base\<close>), the two resolvers, one definition per shape of branch,
    \<open>execute\<close> (the chain) and \<open>step\<close> (one iteration of the \<open>while\<close> loop with its
    guard); \<open>run\<close> (the thread with fuel) and \<open>vm_send_input\<close>.
  \<^item> \<open>Thread\<close>: \<open>start_program\<close>, \<open>send_input\<close> and \<open>wait_for_exit\<close> as
    \<open>main\<close> of src/day-09.py uses them (\<open>start_send_join\<close>, \<open>day09_main\<close>): the
    thread runs any number of iterations before the input is queued.
  \<^item> \<open>Loop\<close>: the generic fuelled loop \<open>run_loop\<close> shared by all machines, with the
    outcomes \<open>Running\<close> (fuel spent), \<open>Waiting\<close> (parked on an empty queue),
    \<open>Halted\<close> (returned) and \<open>Crashed\<close> (raised).
  \<^item> \<open>ListVM\<close>: the list machine of src/day-07.py (\<open>list_step\<close>, \<open>list_run\<close>,
    \<open>list_send_input\<close>) and the function of src/day-05.py (\<open>run_program05\<close>, with
    standard input as a list and \<open>EOFError\<close> when it is exhausted).
  \<^item> \<open>Network\<close>: \<open>main\<close> of src/day-07.py: \<open>permutations\<close>, the sequential
    chain \<open>amplifier_chain\<close> and \<open>max_thruster_signal\<close> (part 1); the feedback ring
    of five threads as the interleaving relation \<open>ring_step\<close>, in which an output and
    its delivery to the next queue are one step (the handler runs inside the
    producer's OUTPUT), a round-robin scheduler \<open>ring_run\<close> (a device of the model, one schedule of that relation), \<open>feedback_signal\<close> and
    \<open>max_feedback_signal\<close> (part 2).
  \<^item> \<open>Day02\<close>: src/day-02.py: \<open>run_program02\<close> and both parts of \<open>main\<close>.
  \<^item> \<open>AddMul\<close>: the reference semantics of the spec's ADD/MULTIPLY/HALT property
    (\<open>addmul_eval\<close>, direct evaluation in instruction order) and the simulation
    interface \<open>addmul_simulation\<close>; \<open>Refinement\<close>: its implementation by the three
    machines.
  \<^item> \<open>Robot\<close>: the painting robot of src/day-11.py, whose output handler alternates
    colour and turn and answers on the same machine's queue (\<open>robot_step\<close>).
  \<^item> \<open>Arcade\<close>: src/day-13.py: the output-triple handler, the waiting flag and the
    polling controller as the interleaving relation \<open>cabinet_step\<close>, and the intended
    schedule \<open>arcade_play\<close> (proved to be one of its interleavings).
  \<^item> \<open>Day01\<close>, \<open>Day03\<close>, \<open>Day04\<close>, \<open>Day06\<close>, \<open>Day08\<close>, \<open>Day10\<close>, \<open>Day12\<close>: the
    puzzle scripts that do not use the machine: src/day-01.py (\<open>get_fuel\<close>,
    recursive on unbounded integers), src/day-03.py (the unit-move trace of a wire
    with its first-visit dictionary \<open>wire_points\<close>, the intersections and both
    minima, each Python exception a constructor of \<open>day03_error\<close>), src/day-04.py
    (\<open>get_digits\<close>, the one-pass scan \<open>min_adjacent_duplicates\<close> with its state as
    the record \<open>scan\<close>, \<open>is_increasing\<close>, the counting loop of \<open>main\<close>),
    src/day-06.py (the orbit dictionary, the chain walk \<open>get_orbit_chain\<close> as
    \<open>while_option\<close>, \<open>get_checksum\<close>, \<open>get_steps_to_santa\<close>), src/day-08.py (the
    character parse, the layers, the fewest-zeroes search from \<open>sys.maxsize\<close>, the
    rendered image as a string), src/day-10.py (the station search, the angle groups
    sorted stably by distance, the rotation of the sorted angles and the laser sweep
    \<open>vaporize\<close> as \<open>while_option\<close>; \<open>math.atan2\<close>, the float square root and
    \<open>math.pi / 2\<close> are parameters, so that no theorem depends on float rounding)
    and src/day-12.py (the record \<open>moon\<close>,
    \<open>time_step\<close> with gravity over \<open>itertools.combinations\<close> applied to the shared
    moon objects as list updates, both parts of \<open>main\<close>).
  The root theory holds the spec's concrete scenarios and the day-07 examples as
  closed evaluations, and the behaviours in which the code and the spec part, as
  lemmas on small programs that the findings cite.

  \<^bold>\<open>What is proved.\<close> Per instruction of the dictionary machine (\<open>Machine\<close>):
  the three-operand instructions (C1), the conditional jumps taken and not taken
  (C2), INPUT on a full and an empty queue (C4), OUTPUT (C5), a block of
  ADJUST_REL_BASE instructions (C6) and the invalid-opcode error (C12); the
  decoder's contract (C3). For the thread: a parked thread resumes when a value is
  sent (C7); INPUT on an empty queue is the only way to park (C8) and HALT or the
  loop guard the only way to leave the loop (C9); day-09's \<open>main\<close> gets the same
  result wherever the thread is when it sends the input (C10, \<open>Thread\<close>). The
  channel is FIFO under every interleaving of sends and receives (C11). The three
  machines refine the direct evaluation of ADD/MULTIPLY/HALT programs (C13--C15).
  The day-07 ring: in every reachable interleaving each queue is a suffix of its
  initial queue followed by its predecessor's outputs (C16); part 1 is the maximum
  over all orderings (C17). The puzzles: the fuel is between 0 and half the mass
  (C18); day-02's part 2 answers the first pair of its search that hits the target
  (C19); day-03's trace records each point's first visit, against the reference path
  \<open>wire_path\<close> (C20), both parts are minima over the crossings (C21), and the trace
  raises exactly on an unknown direction with a positive count (C22); day-04's
  one-pass scan is the least block length of a reference definition by runs (C23),
  and digits round-trip (C24); the orbit walk terminates on every acyclic map (C25)
  and the checksum is the number of direct and indirect orbits (C26); day-08 picks
  the first layer with the fewest zeros (C27) and cuts the input into whole layers
  (C28); day-10's sweep returns exactly when there are 200 asteroids, for every
  \<open>atan2\<close> (C29), its direction count credits each asteroid's own zero vector
  (C30, a finding), and part 1 picks the first asteroid with the largest count
  (C31); a moon step conserves momentum (C32), the three axes evolve independently
  (C33), and an axis that repeats any earlier state has first returned to its start
  (C34), the two facts on which part 2's per-axis search rests. The robot keeps its
  direction in 0..3 and its white panels among the initial and painted ones (C35);
  day-13's controller can send twice for one INPUT (C36, a finding). Beside them,
  as lemmas: the generic stability of a halted run under more fuel, distinct keys of
  the memory dictionary, the list machines' fixed memory length, outputs only
  growing during a run, the resolvers' round trip, the immediate-target error, the
  permutations, \<open>is_increasing\<close> as \<open>sorted\<close>, and the soundness of the round-robin
  scheduler of the day-07 ring (a device of the model).

  \<^bold>\<open>Fuel.\<close> Every loop of the machines that may not end is run with fuel:
  \<open>run n\<close>, \<open>list_run n\<close>, \<open>run_program05 n\<close> and the controllers' runs perform
  at most \<open>n\<close> iterations, \<open>ring_run n\<close> at most \<open>n\<close> scheduler rounds. Each
  closed theorem names the fuel it uses (200 for the quine, which halts in its
  81st iteration; 200 rounds for the feedback example; a few steps elsewhere), and
  the lemma \<open>run_halted_stable\<close> shows that once a run has halted any larger fuel
  gives the same result, so the chosen fuel is enough and not a truncation. The
  refinement theorems C13--C14 state that some fuel suffices, for every program of
  the fragment. The puzzles' loops that need not end (the orbit walk, day-12's repeat
  search, day-10's sweep) are \<open>while_option\<close>, whose \<open>None\<close> is non-termination;
  C25 proves that the walk returns on every acyclic map, C29 that the sweep returns
  exactly on 200 asteroids (by a measure: the removals still due times the number of
  angles plus the distance to the next non-empty list).
  \<open>get_fuel\<close> is a \<open>function\<close> with its termination proof; the other puzzle loops
  are bounded and are structural recursion or folds.

  \<^bold>\<open>Not modelled.\<close> The values of day-10's floating-point functions
  (\<open>math.atan2\<close>, the square root, \<open>math.pi\<close>) are parameters, not IEEE
  arithmetic; its theorems hold for all of them or name the exactness they assume.
  File reading, the splitting and \<open>int\<close> parsing of input lines (except day-08's,
  which is part of a finding), regular-expression parsing and printing are I/O. Thread
  scheduling is modelled by interleaving at
  instruction granularity, the granularity at which the threads share
  state (the queues; memories are never shared). The first input that day-11's
  \<open>main\<close> sends after \<open>start_program\<close> is modelled as queued before the first
  instruction.
\<close>

section \<open>The spec's scenarios\<close>

text \<open>The relative-mode quine \<open>109,1,204,-1,1001,100,1,100,1008,100,16,101,
  1006,101,0,99\<close> halts and hands exactly its own program, in order, to the output
  handler.\<close>

theorem quine_outputs_itself:
  "(case run 200 (init_vm [109, 1, 204, -1, 1001, 100, 1, 100, 1008, 100, 16, 101, 1006, 101, 0, 99]) of
      Halted s \<Rightarrow> outputs s = [109, 1, 204, -1, 1001, 100, 1, 100, 1008, 100, 16, 101, 1006, 101, 0, 99]
    | _ \<Rightarrow> False)"
  by code_simp

text \<open>The program \<open>1,0,0,0,99\<close> halts with 2 at address 0.\<close>

theorem scenario_self_add:
  "(case run 2 (init_vm [1, 0, 0, 0, 99]) of Halted s \<Rightarrow> read_memory (mem s) 0 = 2 | _ \<Rightarrow> False)"
  by code_simp

text \<open>The program \<open>3,0,4,0,99\<close> with input 42 emits 42.\<close>

theorem scenario_echo_input:
  "(case run 3 (vm_send_input (init_vm [3, 0, 4, 0, 99]) 42) of
      Halted s \<Rightarrow> outputs s = [42] \<and> last_output s = 42 | _ \<Rightarrow> False)"
  by code_simp

text \<open>The program \<open>1002,4,3,4,33\<close> (multiply address 4 by the immediate 3 into
  address 4) halts with 99 at address 4.\<close>

theorem scenario_immediate_multiply:
  "(case run 2 (init_vm [1002, 4, 3, 4, 33]) of Halted s \<Rightarrow> read_memory (mem s) 4 = 99 | _ \<Rightarrow> False)"
  by code_simp

text \<open>Two instances of \<open>3,0,4,0,99\<close> wired output-to-input (as the day-07
  ring wires them), the first given 7, pass the value end to end: both halt, each has
  emitted 7, and the scheduler ends without deadlock.\<close>

theorem scenario_two_instances:
  "(case ring_run 10 [list_send_input (init_list_vm [3, 0, 4, 0, 99]) 7, init_list_vm [3, 0, 4, 0, 99]] of
      Some N \<Rightarrow> loutputs (N ! 0) = [7] \<and> loutputs (N ! 1) = [7] \<and> llast_output (N ! 1) = 7
               \<and> list_step (N ! 0) = Inr Exited \<and> list_step (N ! 1) = Inr Exited
    | None \<Rightarrow> False)"
  by code_simp

section \<open>The puzzle examples of day 7\<close>

text \<open>Part 1 on the first example program of the day-07 puzzle finds the
  maximal thruster signal 43210 over all 120 phase orderings.\<close>

theorem day07_part1_example:
  "max_thruster_signal 50 [3, 15, 3, 16, 1002, 16, 10, 16, 1, 16, 15, 15, 4, 15, 99, 0, 0] [0, 1, 2, 3, 4] = Some 43210"
  by code_simp

text \<open>Part 2 on the first feedback example with phases 9,8,7,6,5 ends with all
  five threads terminated and last output 139629729 at amplifier 4.\<close>

theorem day07_part2_example:
  "feedback_signal 200 [3, 26, 1001, 26, -4, 26, 3, 27, 1002, 27, 2, 27, 1, 27, 26, 27, 4, 27, 1001, 28, -1, 28, 1005, 28, 6, 99, 0, 0, 5]
     [9, 8, 7, 6, 5] = Some 139629729"
  by code_simp

section \<open>Where the code and the spec part\<close>

text \<open>Both machines follow Python's subscripts and lazy resolution, not the
  spec. The dictionary machine accepts a negative write target
  (\<open>1101,1,1,-5,99\<close> stores 2 at address -5 and \<open>len\<close> becomes 6), ends the
  thread silently on a jump past the last key through the loop guard
  \<open>i < len(memory)\<close> (\<open>1105,1,100\<close>), fetches operand words by subscript, raising
  \<open>KeyError\<close> instead of reading 0 (\<open>1,0,0\<close>), and rejects a mode digit outside
  0, 1, 2 only when its parameter is resolved (the untaken jump \<open>3105,0,7\<close> runs on,
  the taken \<open>3105,1,7\<close> raises). The list machines of day-05 and day-07 use an
  immediate-mode target as an address (\<open>11101,2,3,0,99\<close>), run the last word on a
  jump to -1, and raise \<open>IndexError\<close> on a write past the end.\<close>

theorem python_subscript_boundaries:
  "(case run 2 (init_vm [1101, 1, 1, -5, 99]) of
      Halted s \<Rightarrow> read_memory (mem s) (-5) = 2 \<and> mem_len (mem s) = 6 | _ \<Rightarrow> False)
   \<and> run 2 (init_vm [1105, 1, 100]) = Halted ((init_vm [1105, 1, 100])\<lparr>pc := 100\<rparr>)
   \<and> run 1 (init_vm [1, 0, 0]) = Crashed (KeyError 3) (init_vm [1, 0, 0])
   \<and> (case run 2 (init_vm [3105, 0, 7, 99]) of Halted s \<Rightarrow> pc s = 3 | _ \<Rightarrow> False)
   \<and> run 1 (init_vm [3105, 1, 7, 99]) = Crashed (UnsupportedMode 3) (init_vm [3105, 1, 7, 99])
   \<and> (case list_run 2 (init_list_vm [11101, 2, 3, 0, 99]) of Halted s \<Rightarrow> lmemory s = [5, 2, 3, 0, 99] | _ \<Rightarrow> False)
   \<and> list_run 2 (init_list_vm [1105, 1, -1, 99]) = Halted ((init_list_vm [1105, 1, -1, 99])\<lparr>li := -1\<rparr>)
   \<and> list_run 1 (init_list_vm [1101, 1, 1, 10, 99]) = Crashed (IndexError 10) (init_list_vm [1101, 1, 1, 10, 99])"
  by code_simp

text \<open>Python's \<open>%\<close> rounds towards minus infinity, so a negative instruction
  word can decode as a valid opcode: \<open>-1\<close> decodes as HALT.\<close>

theorem negative_word_halts:
  "run 1 (init_vm [-1]) = Halted (init_vm [-1])"
  by code_simp


text \<open>Day-05 reads its inputs from standard input: the comparison example
  \<open>3,9,8,9,10,9,4,9,99,-1,8\<close> prints 1 on input 8, and INPUT on exhausted input raises
  \<open>EOFError\<close> instead of waiting.\<close>

theorem day05_stdin:
  "(case run_program05 20 [3, 9, 8, 9, 10, 9, 4, 9, 99, -1, 8] [8] of Halted s \<Rightarrow> loutputs s = [1] | _ \<Rightarrow> False)
   \<and> run_program05 1 [3, 0, 99] [] = Crashed EOFError (init_list_vm [3, 0, 99])"
  by code_simp

text \<open>Two orchestrations swallow a failed program instead of failing: day-02
  skips an opcode outside 1, 2, 99 without moving \<open>next_opcode\<close>, so
  \<open>1,0,0,0,42,0,0,0,99\<close> ends silently after the ADD, never reaching its HALT (the
  day-05 machine rejects the same program); and day-07 part 1 goes on after an
  amplifier's thread raises, since the join returns and the crashed amplifier's last
  output (0) is passed on, so a chain running the invalid program \<open>42\<close> yields the
  signal 0.\<close>

theorem errors_not_propagated:
  "run_program02 [1, 0, 0, 0, 42, 0, 0, 0, 99] = Inr [2, 0, 0, 0, 42, 0, 0, 0, 99]
   \<and> run_program05 2 [1, 0, 0, 0, 42, 0, 0, 0, 99] [] =
       Crashed (InvalidOpcode 42) ((init_list_vm [2, 0, 0, 0, 42, 0, 0, 0, 99])\<lparr>li := 4\<rparr>)
   \<and> list_run 1 (init_list_vm [42]) = Crashed (InvalidOpcode 42) (init_list_vm [42])
   \<and> amplifier_chain 5 [42] [0, 1] 7 = Some 0"
  by code_simp

end
